(* ===== verification/Prelude.thy ===== *)
theory Prelude
  imports Main "HOL-Library.Word"
begin

text \<open>
  Shared vocabulary of the development.

  \<^item> The type \<open>('e, 's, 'a) prog\<close> of effectful Go functions: a function from the
    state to a result and the state afterwards.  A Go function that returns
    \<open>(value, error)\<close> is a \<open>prog\<close> whose result is \<open>Inl\<close> of the error or
    \<open>Inr\<close> of the value; the state is kept in both cases, because effects before an
    early \<open>return err\<close> remain.
  \<^item> Its combinators: \<open>ret\<close>, \<open>throw\<close>, \<open>bindE\<close> (the \<open>if err != nil
    { return err }\<close> idiom), \<open>attempt\<close> (the error is inspected by the caller),
    \<open>ignore\<close> (\<open>_ = f()\<close>), \<open>for_each\<close> (a loop with early return).
  \<^item> A weakest-precondition function \<open>wp\<close> with one rewrite rule per combinator, so
    that straight-line code is symbolically executed by the simplifier, and a rule for
    loops.
  \<^item> Lemmas on tables represented as lists of rows (\<open>update_where\<close>).
\<close>

section \<open>Collections\<close>

named_theorems wp_simps \<open>weakest preconditions of the effectful primitives\<close>
named_theorems str_consts \<open>the string constants of the program\<close>
named_theorems table_simps \<open>facts on updated tables\<close>

section \<open>Effectful functions\<close>

type_synonym ('e, 's, 'a) prog = "'s \<Rightarrow> ('e + 'a) \<times> 's"

definition ret :: "'a \<Rightarrow> ('e, 's, 'a) prog" where
  "ret a = (\<lambda>s. (Inr a, s))"

definition throw :: "'e \<Rightarrow> ('e, 's, 'a) prog" where
  "throw e = (\<lambda>s. (Inl e, s))"

definition bindE :: "('e, 's, 'a) prog \<Rightarrow> ('a \<Rightarrow> ('e, 's, 'b) prog) \<Rightarrow> ('e, 's, 'b) prog" where
  "bindE m f = (\<lambda>s. case m s of (Inl e, s') \<Rightarrow> (Inl e, s') | (Inr a, s') \<Rightarrow> f a s')"

definition attempt :: "('e, 's, 'a) prog \<Rightarrow> ('e, 's, 'e + 'a) prog" where
  "attempt m = (\<lambda>s. case m s of (r, s') \<Rightarrow> (Inr r, s'))"

definition ignore :: "('e, 's, 'a) prog \<Rightarrow> ('e, 's, unit) prog" where
  "ignore m = (\<lambda>s. case m s of (r, s') \<Rightarrow> (Inr (), s'))"

definition of_sum :: "'e + 'a \<Rightarrow> ('e, 's, 'a) prog" where
  "of_sum r = (\<lambda>s. (r, s))"

primrec for_each :: "('a \<Rightarrow> ('e, 's, unit) prog) \<Rightarrow> 'a list \<Rightarrow> ('e, 's, unit) prog" where
  "for_each f [] = ret ()"
| "for_each f (x # xs) = bindE (f x) (\<lambda>_. for_each f xs)"

section \<open>Weakest preconditions\<close>

definition wp :: "('e, 's, 'a) prog \<Rightarrow> ('a \<Rightarrow> 's \<Rightarrow> bool) \<Rightarrow> ('e \<Rightarrow> 's \<Rightarrow> bool) \<Rightarrow> 's \<Rightarrow> bool" where
  "wp m Q E s = (case m s of (Inl e, s') \<Rightarrow> E e s' | (Inr a, s') \<Rightarrow> Q a s')"

lemma wp_ret [wp_simps]: "wp (ret a) Q E s = Q a s"
  by (simp add: wp_def ret_def)

lemma wp_throw [wp_simps]: "wp (throw e) Q E s = E e s"
  by (simp add: wp_def throw_def)

lemma wp_bindE [wp_simps]: "wp (bindE m f) Q E s = wp m (\<lambda>a. wp (f a) Q E) E s"
  by (auto simp: wp_def bindE_def split: prod.splits sum.splits)

lemma wp_attempt [wp_simps]: "wp (attempt m) Q E s = wp m (\<lambda>a. Q (Inr a)) (\<lambda>e. Q (Inl e)) s"
  by (auto simp: wp_def attempt_def split: prod.splits sum.splits)

lemma wp_ignore [wp_simps]: "wp (ignore m) Q E s = wp m (\<lambda>_. Q ()) (\<lambda>_. Q ()) s"
  by (auto simp: wp_def ignore_def split: prod.splits sum.splits)

lemma wp_of_sum [wp_simps]:
  "wp (of_sum r) Q E s = (case r of Inl e \<Rightarrow> E e s | Inr a \<Rightarrow> Q a s)"
  by (simp add: wp_def of_sum_def)

lemma wp_if [wp_simps]: "wp (if b then m else n) Q E s = (if b then wp m Q E s else wp n Q E s)"
  by simp

lemma wp_option [wp_simps]:
  "wp (case x of None \<Rightarrow> m | Some a \<Rightarrow> f a) Q E s
   = (case x of None \<Rightarrow> wp m Q E s | Some a \<Rightarrow> wp (f a) Q E s)"
  by (simp split: option.split)

lemma wp_sum [wp_simps]:
  "wp (case x of Inl e \<Rightarrow> f e | Inr a \<Rightarrow> g a) Q E s
   = (case x of Inl e \<Rightarrow> wp (f e) Q E s | Inr a \<Rightarrow> wp (g a) Q E s)"
  by (simp split: sum.split)

lemma wp_prod [wp_simps]:
  "wp (case x of (a, b) \<Rightarrow> f a b) Q E s = (case x of (a, b) \<Rightarrow> wp (f a b) Q E s)"
  by (simp split: prod.split)

lemma bindE_cases:
  assumes "bindE m f s = (r, s')"
  obtains e where "m s = (Inl e, s')" "r = Inl e"
    | a s1 where "m s = (Inr a, s1)" "f a s1 = (r, s')"
  using assms by (auto simp: bindE_def split: prod.splits sum.splits)

lemma wp_mono:
  assumes "wp m Q E s"
    and "\<And>a s'. Q a s' \<Longrightarrow> Q' a s'" and "\<And>e s'. E e s' \<Longrightarrow> E' e s'"
  shows "wp m Q' E' s"
  using assms by (auto simp: wp_def split: prod.splits sum.splits)

lemma wp_conj:
  "wp m Q E s \<Longrightarrow> wp m Q' E' s \<Longrightarrow> wp m (\<lambda>a s'. Q a s' \<and> Q' a s') (\<lambda>e s'. E e s' \<and> E' e s') s"
  by (auto simp: wp_def split: prod.splits sum.splits)

lemma wp_InrD: "wp m Q E s \<Longrightarrow> m s = (Inr a, s') \<Longrightarrow> Q a s'"
  by (simp add: wp_def)

lemma wp_InlD: "wp m Q E s \<Longrightarrow> m s = (Inl e, s') \<Longrightarrow> E e s'"
  by (simp add: wp_def)

lemma wp_True [simp]: "wp m (\<lambda>_ _. True) (\<lambda>_ _. True) s"
  by (simp add: wp_def split: prod.split sum.split)

text \<open>A loop keeps an invariant over the elements not yet visited.\<close>

lemma wp_for_each:
  assumes "I xs s"
    and "\<And>x xs s. I (x # xs) s \<Longrightarrow> wp (f x) (\<lambda>_. I xs) E s"
    and "\<And>s. I [] s \<Longrightarrow> Q () s"
  shows "wp (for_each f xs) Q E s"
  using assms(1)
proof (induction xs arbitrary: s)
  case Nil
  then show ?case by (simp add: wp_simps assms(3))
next
  case (Cons x xs)
  have "wp (f x) (\<lambda>_. I xs) E s" using Cons.prems by (rule assms(2))
  then show ?case by (auto simp: wp_simps intro: wp_mono Cons.IH)
qed

text \<open>A state predicate that holds afterwards whatever the outcome.\<close>

definition preserves :: "('s \<Rightarrow> bool) \<Rightarrow> ('e, 's, 'a) prog \<Rightarrow> bool" where
  "preserves I m = (\<forall>s. I s \<longrightarrow> wp m (\<lambda>_. I) (\<lambda>_. I) s)"

lemma preservesI: "(\<And>s. I s \<Longrightarrow> wp m (\<lambda>_. I) (\<lambda>_. I) s) \<Longrightarrow> preserves I m"
  by (simp add: preserves_def)

lemma preservesD: "preserves I m \<Longrightarrow> I s \<Longrightarrow> m s = (r, s') \<Longrightarrow> I s'"
  by (fastforce simp: preserves_def wp_def split: sum.splits)

lemma preserves_wp: "preserves I m \<Longrightarrow> I s \<Longrightarrow> wp m (\<lambda>_. I) (\<lambda>_. I) s"
  by (simp add: preserves_def)

lemma preserves_ret [intro]: "preserves I (ret a)"
  by (rule preservesI) (simp add: wp_simps)

lemma preserves_throw [intro]: "preserves I (throw e)"
  by (rule preservesI) (simp add: wp_simps)

lemma preserves_bindE [intro]:
  "preserves I m \<Longrightarrow> (\<And>a. preserves I (f a)) \<Longrightarrow> preserves I (bindE m f)"
  unfolding preserves_def by (auto simp: wp_simps intro: wp_mono)

lemma preserves_ignore [intro]: "preserves I m \<Longrightarrow> preserves I (ignore m)"
  unfolding preserves_def by (auto simp: wp_simps intro: wp_mono)

lemma preserves_attempt [intro]: "preserves I m \<Longrightarrow> preserves I (attempt m)"
  unfolding preserves_def by (auto simp: wp_simps intro: wp_mono)

lemma preserves_for_each [intro]:
  "(\<And>x. preserves I (f x)) \<Longrightarrow> preserves I (for_each f xs)"
  by (induction xs) auto

lemma preserves_conj:
  "preserves I m \<Longrightarrow> preserves J m \<Longrightarrow> preserves (\<lambda>s. I s \<and> J s) m"
  unfolding preserves_def by (auto intro: wp_conj [THEN wp_mono])

text \<open>The errors a program can return.\<close>

definition fails_with :: "('e \<Rightarrow> bool) \<Rightarrow> ('e, 's, 'a) prog \<Rightarrow> bool" where
  "fails_with P m = (\<forall>s e s'. m s = (Inl e, s') \<longrightarrow> P e)"

named_theorems fails_intro \<open>rules for fails_with\<close>

lemma fails_withI: "(\<And>s e s'. m s = (Inl e, s') \<Longrightarrow> P e) \<Longrightarrow> fails_with P m"
  by (auto simp: fails_with_def)

lemma fails_withD: "fails_with P m \<Longrightarrow> m s = (Inl e, s') \<Longrightarrow> P e"
  by (auto simp: fails_with_def)

lemma fails_ret [fails_intro]: "fails_with P (ret a)"
  by (rule fails_withI) (simp add: ret_def)

lemma fails_throw [fails_intro]: "P e \<Longrightarrow> fails_with P (throw e)"
  by (rule fails_withI) (simp add: throw_def)

lemma fails_attempt [fails_intro]: "fails_with P (attempt m)" "fails_with P (ignore m)"
  by (auto intro!: fails_withI simp: attempt_def ignore_def split: prod.splits)

lemma fails_bindE [fails_intro]:
  "fails_with P m \<Longrightarrow> (\<And>a. fails_with P (f a)) \<Longrightarrow> fails_with P (bindE m f)"
  by (rule fails_withI) (auto simp: bindE_def split: prod.splits sum.splits dest: fails_withD)

lemma fails_if [fails_intro]:
  "(b \<Longrightarrow> fails_with P m) \<Longrightarrow> (\<not> b \<Longrightarrow> fails_with P n) \<Longrightarrow> fails_with P (if b then m else n)"
  by simp

lemma fails_option [fails_intro]:
  "(x = None \<Longrightarrow> fails_with P m) \<Longrightarrow> (\<And>a. x = Some a \<Longrightarrow> fails_with P (f a))
   \<Longrightarrow> fails_with P (case x of None \<Rightarrow> m | Some a \<Rightarrow> f a)"
  by (cases x) simp_all

lemma fails_sum [fails_intro]:
  "(\<And>e. x = Inl e \<Longrightarrow> fails_with P (f e)) \<Longrightarrow> (\<And>a. x = Inr a \<Longrightarrow> fails_with P (g a))
   \<Longrightarrow> fails_with P (case x of Inl e \<Rightarrow> f e | Inr a \<Rightarrow> g a)"
  by (cases x) simp_all

lemma fails_prod [fails_intro]:
  "(\<And>a b. x = (a, b) \<Longrightarrow> fails_with P (f a b)) \<Longrightarrow> fails_with P (case x of (a, b) \<Rightarrow> f a b)"
  by (cases x) simp

section \<open>Tables as lists of rows\<close>

definition update_where :: "('r \<Rightarrow> bool) \<Rightarrow> ('r \<Rightarrow> 'r) \<Rightarrow> 'r list \<Rightarrow> 'r list" where
  "update_where P f rows = map (\<lambda>r. if P r then f r else r) rows"

lemma update_where_Nil [simp]: "update_where P f [] = []"
  by (simp add: update_where_def)

lemma update_where_Cons [simp]:
  "update_where P f (r # rs) = (if P r then f r else r) # update_where P f rs"
  by (simp add: update_where_def)

lemma length_update_where [simp]: "length (update_where P f rows) = length rows"
  by (simp add: update_where_def)

lemma update_where_map_same [table_simps]:
  "(\<And>r. g (f r) = g r) \<Longrightarrow> map g (update_where P f rows) = map g rows"
  by (induction rows) auto

lemma set_update_where:
  "set (update_where P f rows) = {f r | r. r \<in> set rows \<and> P r} \<union> {r. r \<in> set rows \<and> \<not> P r}"
  by (induction rows) auto

lemma in_update_whereE:
  assumes "r' \<in> set (update_where P f rows)"
  obtains r where "r \<in> set rows" and "P r" and "r' = f r"
    | "r' \<in> set rows" and "\<not> P r'"
  using assms by (auto simp: set_update_where)

text \<open>What an update adds to a sum over the table is the sum of the changes of the rows it
  selects.\<close>

lemma sum_update_where:
  fixes g :: "'r \<Rightarrow> int"
  shows "sum_list (map g (update_where P f rows))
       = sum_list (map g rows) + sum_list (map (\<lambda>r. g (f r) - g r) (filter P rows))"
  by (induction rows) auto

lemma update_where_idle: "(\<And>r. r \<in> set rows \<Longrightarrow> \<not> P r) \<Longrightarrow> update_where P f rows = rows"
  by (induction rows) auto

lemma filter_key_unique:
  "distinct (map k rows) \<Longrightarrow> r \<in> set rows \<Longrightarrow> k r = x \<Longrightarrow> filter (\<lambda>y. k y = x) rows = [r]"
proof (induction rows)
  case Nil
  then show ?case by simp
next
  case (Cons a rows)
  show ?case
  proof (cases "k a = x")
    case True
    with Cons.prems have "a = r" and "\<And>y. y \<in> set rows \<Longrightarrow> k y \<noteq> x"
      by (auto simp: image_iff)
    then show ?thesis using True by (simp add: filter_empty_conv)
  next
    case False
    with Cons show ?thesis by auto
  qed
qed

lemma filter_key_absent: "x \<notin> k ` set rows \<Longrightarrow> filter (\<lambda>y. k y = x) rows = []"
  by (auto simp: filter_empty_conv)

lemma key_unique:
  "distinct (map k rows) \<Longrightarrow> r \<in> set rows \<Longrightarrow> r' \<in> set rows \<Longrightarrow> k r = k r' \<Longrightarrow> r = r'"
  by (simp add: distinct_map inj_on_def)

lemma find_SomeD: "List.find P xs = Some x \<Longrightarrow> x \<in> set xs \<and> P x"
  by (induction xs) (auto split: if_splits)

lemma find_NoneD: "List.find P xs = None \<Longrightarrow> x \<in> set xs \<Longrightarrow> \<not> P x"
  by (induction xs) (auto split: if_splits)

lemma find_key_unique:
  "distinct (map k rows) \<Longrightarrow> r \<in> set rows \<Longrightarrow> k r = x \<Longrightarrow> List.find (\<lambda>y. k y = x) rows = Some r"
  by (induction rows) (auto simp: image_iff)

lemma sum_list_map_zero: "(\<And>x. x \<in> set xs \<Longrightarrow> g x = 0) \<Longrightarrow> sum_list (map g xs) = (0::int)"
  by (induction xs) auto

end
