(* ===== verification/GoStd.thy ===== *)
theory GoStd
  imports Prelude
begin

text \<open>
  The parts of Go and of its standard library that the program computes with.

  \<^item> \<open>uint\<close> is a 64-bit word; Go's \<open>int\<close> is an \<open>int\<close>, with its 64-bit range
    checked where a value enters the program (\<open>Atoi\<close>) and its 32-bit range where a
    value is written to an \<open>INTEGER\<close> column.
  \<^item> A Go string is a sequence of bytes: \<open>string\<close>, one \<open>char\<close> per byte.
  \<^item> \<open>strings.TrimSpace\<close> removes every Unicode space (as its UTF-8 byte sequence);
    \<open>strings.ToLower\<close> is modelled on ASCII letters, other bytes are unchanged.
  \<^item> \<open>strconv\<close>: decimal printing and parsing, with the round trip.
  \<^item> An instant or a duration is an \<open>int\<close> number of nanoseconds.
\<close>

type_synonym uint = "64 word"
type_synonym time = int
type_synonym duration = int

abbreviation second :: duration where "second \<equiv> 1000000000"
abbreviation minute :: duration where "minute \<equiv> 60 * second"
abbreviation hour :: duration where "hour \<equiv> 60 * minute"

section \<open>Package strings\<close>

definition HasPrefix :: "string \<Rightarrow> string \<Rightarrow> bool" where
  "HasPrefix s p = (take (length p) s = p)"

definition TrimPrefix :: "string \<Rightarrow> string \<Rightarrow> string" where
  "TrimPrefix s p = (if HasPrefix s p then drop (length p) s else s)"

fun Contains :: "string \<Rightarrow> string \<Rightarrow> bool" where
  "Contains [] sub = (sub = [])"
| "Contains (c # s) sub = (HasPrefix (c # s) sub \<or> Contains s sub)"

definition to_lower_char :: "char \<Rightarrow> char" where
  "to_lower_char c = (let n = of_char c :: nat in if 65 \<le> n \<and> n \<le> 90 then char_of (n + 32) else c)"

definition ToLower :: "string \<Rightarrow> string" where
  "ToLower s = map to_lower_char s"

text \<open>The UTF-8 encodings of the code points with the property White\_Space.\<close>

definition spaces :: "string list" where
  "spaces = map (map char_of)
     ([[9], [10], [11], [12], [13], [32], [0xC2, 0x85], [0xC2, 0xA0], [0xE1, 0x9A, 0x80],
       [0xE2, 0x80, 0xA8], [0xE2, 0x80, 0xA9], [0xE2, 0x80, 0xAF], [0xE2, 0x81, 0x9F],
       [0xE3, 0x80, 0x80]] @ map (\<lambda>n. [0xE2, 0x80, n]) [0x80..<0x8B] :: nat list list)"

lemma space_nonempty: "p \<in> set ps \<Longrightarrow> [] \<notin> set ps \<Longrightarrow> p \<noteq> []"
  by auto

lemma spaces_nonempty: "[] \<notin> set spaces"
  by (simp add: spaces_def)

function trim_left :: "string list \<Rightarrow> string \<Rightarrow> string" where
  "trim_left ps s =
     (case List.find (\<lambda>p. p \<noteq> [] \<and> HasPrefix s p) ps of
        None \<Rightarrow> s
      | Some p \<Rightarrow> trim_left ps (drop (length p) s))"
  by pat_completeness auto
termination
proof (relation "measure (\<lambda>(ps, s). length s)", goal_cases)
  case (2 ps s p)
  then have "p \<noteq> []" and "HasPrefix s p" by (auto dest: find_SomeD)
  then show ?case by (cases s) (auto simp: HasPrefix_def)
qed simp

declare trim_left.simps [simp del]

definition TrimSpace :: "string \<Rightarrow> string" where
  "TrimSpace s = rev (trim_left (map rev spaces) (rev (trim_left spaces s)))"

lemma trim_left_fixed:
  "List.find (\<lambda>p. p \<noteq> [] \<and> HasPrefix s p) ps = None \<Longrightarrow> trim_left ps s = s"
  by (subst trim_left.simps) simp

lemma trim_left_stops:
  "List.find (\<lambda>p. p \<noteq> [] \<and> HasPrefix (trim_left ps s) p) ps = None"
proof (induction ps s rule: trim_left.induct)
  case (1 ps s)
  show ?case
  proof (cases "List.find (\<lambda>p. p \<noteq> [] \<and> HasPrefix s p) ps")
    case None
    then show ?thesis by (simp add: trim_left_fixed)
  next
    case (Some p)
    then have "trim_left ps s = trim_left ps (drop (length p) s)"
      by (subst trim_left.simps) simp
    with Some 1 show ?thesis by simp
  qed
qed

lemma TrimSpace_Nil [simp]: "TrimSpace [] = []"
proof -
  have "List.find (\<lambda>p. p \<noteq> [] \<and> HasPrefix [] p) ps = None" for ps
    by (induction ps) (auto simp: HasPrefix_def)
  then show ?thesis by (simp add: TrimSpace_def trim_left_fixed)
qed

fun Split :: "char \<Rightarrow> string \<Rightarrow> string list" where
  "Split sep [] = [[]]"
| "Split sep (c # s) =
     (if c = sep then [] # Split sep s
      else case Split sep s of [] \<Rightarrow> [[c]] | p # ps \<Rightarrow> (c # p) # ps)"

lemma Split_nonempty: "Split sep s \<noteq> []"
  by (induction s) (auto split: list.split)

section \<open>Package strconv\<close>

definition digit_char :: "nat \<Rightarrow> char" where
  "digit_char d = char_of (48 + d)"

definition is_digit :: "char \<Rightarrow> bool" where
  "is_digit c = (48 \<le> (of_char c :: nat) \<and> (of_char c :: nat) \<le> 57)"

definition digit_val :: "char \<Rightarrow> nat" where
  "digit_val c = of_char c - 48"

fun show_nat :: "nat \<Rightarrow> string" where
  "show_nat n = (if n < 10 then [digit_char n] else show_nat (n div 10) @ [digit_char (n mod 10)])"

declare show_nat.simps [simp del]

definition show_uint :: "uint \<Rightarrow> string" where
  "show_uint n = show_nat (unat n)"

definition show_int :: "int \<Rightarrow> string" where
  "show_int i = (if i < 0 then CHR ''-'' # show_nat (nat (- i)) else show_nat (nat i))"

definition digits_val :: "string \<Rightarrow> nat" where
  "digits_val s = foldl (\<lambda>n c. 10 * n + digit_val c) 0 s"

definition all_digits :: "string \<Rightarrow> bool" where
  "all_digits s = (s \<noteq> [] \<and> list_all is_digit s)"

text \<open>\<open>strconv.ParseUint(s, 10, 64)\<close>; every error is represented by \<open>None\<close>.\<close>

definition ParseUint :: "string \<Rightarrow> uint option" where
  "ParseUint s =
     (if all_digits s \<and> digits_val s < 2 ^ 64 then Some (of_nat (digits_val s)) else None)"

text \<open>\<open>strconv.ParseInt(s, 10, 64)\<close> (and \<open>strconv.Atoi\<close>, on a 64-bit machine): the value
  returned together with an out-of-range error is the nearest bound, with a syntax error it
  is 0.\<close>

definition parse_signed :: "string \<Rightarrow> bool \<times> int" where
  "parse_signed s =
     (let neg = HasPrefix s ''-'';
          body = (if neg \<or> HasPrefix s ''+'' then tl s else s)
      in if all_digits body then
           (let v = (if neg then - int (digits_val body) else int (digits_val body))
            in if v < - (2 ^ 63) then (False, - (2 ^ 63))
               else if 2 ^ 63 \<le> v then (False, 2 ^ 63 - 1)
               else (True, v))
         else (False, 0))"

definition Atoi :: "string \<Rightarrow> int option" where
  "Atoi s = (case parse_signed s of (ok, v) \<Rightarrow> if ok then Some v else None)"

text \<open>\<open>n, _ := strconv.Atoi(s)\<close>: the error is dropped, the value is used.\<close>

definition Atoi_value :: "string \<Rightarrow> int" where
  "Atoi_value s = snd (parse_signed s)"

lemma digit_char_ok [simp]:
  "d < 10 \<Longrightarrow> is_digit (digit_char d)" "d < 10 \<Longrightarrow> digit_val (digit_char d) = d"
  by (auto simp: is_digit_def digit_char_def digit_val_def)

lemma show_nat_digits: "all_digits (show_nat n)"
proof (induction n rule: show_nat.induct)
  case (1 n)
  then show ?case
    by (subst show_nat.simps) (auto simp: all_digits_def)
qed

lemma digits_val_show_nat [simp]: "digits_val (show_nat n) = n"
proof (induction n rule: show_nat.induct)
  case (1 n)
  show ?case
  proof (cases "n < 10")
    case True
    then show ?thesis by (subst show_nat.simps) (simp add: digits_val_def)
  next
    case False
    with 1 have "digits_val (show_nat (n div 10)) = n div 10" by simp
    with False show ?thesis
      by (subst show_nat.simps) (simp add: digits_val_def)
  qed
qed

lemma show_nat_inj: "show_nat m = show_nat n \<Longrightarrow> m = n"
  by (metis digits_val_show_nat)

lemma show_uint_inj [simp]: "show_uint m = show_uint n \<longleftrightarrow> m = n"
  by (auto simp: show_uint_def word_unat_eq_iff dest: show_nat_inj)

lemma ParseUint_show_uint [simp]: "ParseUint (show_uint n) = Some n"
proof -
  have "unat n < 2 ^ 64" using unsigned_less [of n, where ?'a = nat] by simp
  then show ?thesis by (simp add: ParseUint_def show_uint_def show_nat_digits)
qed

lemma ParseUint_bound: "ParseUint s = Some n \<Longrightarrow> unat n = digits_val s"
  by (auto simp: ParseUint_def split: if_splits) (simp add: unat_of_nat)

section \<open>Evaluation\<close>

text \<open>Code equations that compute on binary integers: natural numbers are unary in the
  simplifier's code generator.\<close>

function show_pos :: "int \<Rightarrow> string" where
  "show_pos n = (if n < 10 then [digit_char (nat n)] else show_pos (n div 10) @ [digit_char (nat (n mod 10))])"
  by auto
termination by (relation "measure nat") auto

declare show_pos.simps [simp del]

lemma show_pos_nat: "show_pos (int n) = show_nat n"
proof (induction n rule: show_nat.induct)
  case (1 n)
  have "int n div 10 = int (n div 10)" "nat (int n mod 10) = n mod 10"
    by (simp_all add: zdiv_int nat_mod_distrib)
  with 1 show ?case by (simp add: show_pos.simps [of "int n"] show_nat.simps [of n])
qed

lemma show_nat_int: "0 \<le> i \<Longrightarrow> show_nat (nat i) = show_pos i"
  using show_pos_nat [of "nat i"] by simp

lemma show_uint_code [code]: "show_uint n = show_pos (uint n)"
  by (simp add: show_uint_def flip: show_pos_nat)

lemma show_int_code [code]: "show_int i = (if i < 0 then CHR ''-'' # show_pos (- i) else show_pos i)"
  by (simp add: show_int_def show_nat_int)

definition digits_int :: "string \<Rightarrow> int" where
  "digits_int s = foldl (\<lambda>n c. 10 * n + max 0 (of_char c - 48)) 0 s"

lemma int_digits_val: "int (digits_val s) = digits_int s"
proof -
  have "int (foldl (\<lambda>n c. 10 * n + digit_val c) a s) = foldl (\<lambda>n c. 10 * n + max 0 (of_char c - 48)) (int a) s" for a
  proof (induction s arbitrary: a)
    case (Cons c s)
    have "(of_char c :: int) = int (of_char c)" by (simp add: of_nat_of_char)
    then have "int (digit_val c) = max 0 (of_char c - 48)"
      unfolding digit_val_def by linarith
    with Cons show ?case by simp
  qed simp
  from this [of 0] show ?thesis by (simp add: digits_val_def digits_int_def)
qed

lemma ParseUint_code [code]:
  "ParseUint s = (let v = digits_int s in if all_digits s \<and> v < 2 ^ 64 then Some (of_int v) else None)"
proof -
  have "digits_int s < 2 ^ 64 \<longleftrightarrow> digits_val s < 2 ^ 64"
    unfolding int_digits_val [symmetric]
    by (metis of_nat_less_iff of_nat_numeral of_nat_power)
  moreover have "(of_int (digits_int s) :: uint) = of_nat (digits_val s)"
    by (simp flip: int_digits_val)
  ultimately show ?thesis by (simp add: ParseUint_def Let_def)
qed

lemma parse_signed_code [code]:
  "parse_signed s =
     (let neg = HasPrefix s ''-'';
          body = (if neg \<or> HasPrefix s ''+'' then tl s else s)
      in if all_digits body then
           (let v = (if neg then - digits_int body else digits_int body)
            in if v < - (2 ^ 63) then (False, - (2 ^ 63))
               else if 2 ^ 63 \<le> v then (False, 2 ^ 63 - 1)
               else (True, v))
         else (False, 0))"
  by (simp only: parse_signed_def int_digits_val)

lemma is_digit_code [code]: "is_digit c = (48 \<le> (of_char c :: int) \<and> (of_char c :: int) \<le> 57)"
proof -
  have "(of_char c :: int) = int (of_char c)" by (simp add: of_nat_of_char)
  then show ?thesis by (simp add: is_digit_def)
qed

lemma spaces_code [code]:
  "spaces =
     [[CHR 0x09], [CHR 0x0A], [CHR 0x0B], [CHR 0x0C], [CHR 0x0D], [CHR 0x20],
      [CHR 0xC2, CHR 0x85], [CHR 0xC2, CHR 0xA0], [CHR 0xE1, CHR 0x9A, CHR 0x80],
      [CHR 0xE2, CHR 0x80, CHR 0xA8], [CHR 0xE2, CHR 0x80, CHR 0xA9], [CHR 0xE2, CHR 0x80, CHR 0xAF],
      [CHR 0xE2, CHR 0x81, CHR 0x9F], [CHR 0xE3, CHR 0x80, CHR 0x80]]
     @ map (\<lambda>c. [CHR 0xE2, CHR 0x80, c])
         [CHR 0x80, CHR 0x81, CHR 0x82, CHR 0x83, CHR 0x84, CHR 0x85, CHR 0x86, CHR 0x87, CHR 0x88,
          CHR 0x89, CHR 0x8A]"
  by (simp add: spaces_def upt_rec char_of_def bit_0)

lemma to_lower_char_code [code]:
  "to_lower_char c = (let n = of_char c :: int in if 65 \<le> n \<and> n \<le> 90 then char_of (n + 32) else c)"
proof -
  have "(of_char c :: int) = int (of_char c)" by (simp add: of_nat_of_char)
  moreover have "char_of (int m) = (char_of m :: char)" for m by (simp add: char_of_def bit_of_nat_iff)
  moreover from this [of "of_char c + 32"] have "char_of (int (of_char c) + 32) = (char_of (of_char c + 32 :: nat) :: char)"
    by simp
  ultimately show ?thesis unfolding to_lower_char_def Let_def by simp
qed

end
