(* ===== verification/Float64.thy ===== *)
theory Float64
  imports GoStd
begin

text \<open>
  Go's \<open>float64\<close> (IEEE 754 binary64) for the operations of the program: conversion from
  integers, addition, multiplication, comparison, truncation to \<open>uint\<close>.

  A finite number is \<open>Fin m e\<close>, standing for \<open>m * 2 ^ e\<close>, normalised: \<open>m\<close> is odd, or
  \<open>m = e = 0\<close>; the sign of zero is not represented (the program never divides and never
  looks at it).  Every operation computes the exact result and rounds it to 53 bits, ties to
  even, with gradual underflow at \<open>2 ^ -1074\<close> and overflow to an infinity at
  \<open>2 ^ 1024\<close>.  The lemmas show that integer arithmetic within \<open>2 ^ 53\<close> is exact.
\<close>

datatype float64 = Fin int int | PInf | NInf | NaN

section \<open>Normalisation\<close>

function f64_norm :: "int \<Rightarrow> int \<Rightarrow> int \<times> int" where
  "f64_norm m e =
     (if m = 0 then (0, 0) else if even m then f64_norm (m div 2) (e + 1) else (m, e))"
  by pat_completeness auto
termination
  by (relation "measure (\<lambda>(m, e). nat \<bar>m\<bar>)") auto

declare f64_norm.simps [simp del]

lemma f64_norm_zero [simp]: "f64_norm 0 e = (0, 0)"
  by (simp add: f64_norm.simps)

lemma f64_norm_odd [simp]: "odd m \<Longrightarrow> f64_norm m e = (m, e)"
  by (auto simp: f64_norm.simps)

lemma f64_norm_double: "m \<noteq> 0 \<Longrightarrow> f64_norm (2 * m) e = f64_norm m (e + 1)"
  by (subst f64_norm.simps) simp

lemma f64_norm_shift: "m \<noteq> 0 \<Longrightarrow> f64_norm (m * 2 ^ k) e = f64_norm m (e + int k)"
proof (induction k arbitrary: e)
  case 0
  then show ?case by simp
next
  case (Suc k)
  have "f64_norm (m * 2 ^ Suc k) e = f64_norm (2 * (m * 2 ^ k)) e" by (simp add: ac_simps)
  also have "\<dots> = f64_norm (m * 2 ^ k) (e + 1)"
    using Suc.prems by (intro f64_norm_double) simp
  finally show ?case using Suc by (simp add: ac_simps)
qed

text \<open>What normalisation returns: the same value, with an odd or zero mantissa.\<close>

lemma f64_norm_value:
  "f64_norm m e = (m', e') \<Longrightarrow> m \<noteq> 0 \<Longrightarrow> m = m' * 2 ^ nat (e' - e) \<and> e \<le> e' \<and> odd m'"
proof (induction m e arbitrary: m' e' rule: f64_norm.induct)
  case (1 m e)
  show ?case
  proof (cases "even m")
    case True
    with 1 have "m div 2 = m' * 2 ^ nat (e' - (e + 1)) \<and> e + 1 \<le> e' \<and> odd m'"
      by (metis dvd_div_eq_0_iff f64_norm.simps)
    then have ih: "m div 2 = m' * 2 ^ nat (e' - (e + 1))" and le: "e + 1 \<le> e'" and "odd m'"
      by auto
    have "m = 2 * (m div 2)" using True by simp
    also have "\<dots> = m' * (2 * 2 ^ nat (e' - (e + 1)))" using ih by simp
    also have "2 * 2 ^ nat (e' - (e + 1)) = (2 :: int) ^ nat (e' - e)"
      using le by (simp flip: power_Suc add: Suc_nat_eq_nat_zadd1)
    finally show ?thesis using le \<open>odd m'\<close> by simp
  next
    case False
    then show ?thesis using "1.prems" by simp
  qed
qed

section \<open>Rounding\<close>

fun bits :: "nat \<Rightarrow> nat" where
  "bits n = (if n = 0 then 0 else Suc (bits (n div 2)))"

declare bits.simps [simp del]

lemma bits_0 [simp]: "bits 0 = 0"
  by (subst bits.simps) simp

lemma bits_le: "n < 2 ^ k \<Longrightarrow> bits n \<le> k"
proof (induction k arbitrary: n)
  case 0
  then show ?case by simp
next
  case (Suc k)
  then have "n div 2 < 2 ^ k" by auto
  with Suc.IH [of "n div 2"] show ?case by (subst bits.simps) simp
qed

text \<open>The same on \<open>int\<close>, for evaluation.\<close>

function ibits :: "int \<Rightarrow> nat" where
  "ibits n = (if n \<le> 0 then 0 else Suc (ibits (n div 2)))"
  by pat_completeness auto
termination
  by (relation "measure nat") auto

declare ibits.simps [simp del]

lemma bits_nat [code_unfold]: "bits (nat n) = ibits n"
proof (induction n rule: ibits.induct)
  case (1 n)
  show ?case
  proof (cases "n \<le> 0")
    case True
    then show ?thesis by (simp add: ibits.simps)
  next
    case False
    then have "bits (nat n) = Suc (bits (nat (n div 2)))"
      by (subst bits.simps) (simp add: nat_div_distrib)
    with 1 False show ?thesis by (subst ibits.simps) simp
  qed
qed

definition rne :: "int \<Rightarrow> nat \<Rightarrow> int" where
  "rne m k = (let q = m div 2 ^ k; r = m mod 2 ^ k
              in if 2 * r < 2 ^ k then q
                 else if 2 ^ k < 2 * r then q + 1
                 else if even q then q else q + 1)"

definition f64_pack :: "int \<Rightarrow> int \<Rightarrow> float64" where
  "f64_pack m e =
     (case f64_norm m e of
        (m', e') \<Rightarrow> if 1024 < int (bits (nat \<bar>m'\<bar>)) + e' then (if 0 < m' then PInf else NInf)
                    else Fin m' e')"

definition f64_round :: "int \<Rightarrow> int \<Rightarrow> float64" where
  "f64_round m e =
     (case f64_norm m e of
        (m', e') \<Rightarrow>
          let k = max (int (bits (nat \<bar>m'\<bar>)) - 53) (- 1074 - e')
          in if k \<le> 0 then f64_pack m' e' else f64_pack (rne m' (nat k)) (e' + k))"

lemma f64_round_shift: "f64_round (m * 2 ^ k) e = f64_round m (e + int k)"
  by (cases "m = 0") (simp_all add: f64_round_def f64_norm_shift)

section \<open>Operations\<close>

definition f64_of_int :: "int \<Rightarrow> float64" where
  "f64_of_int n = f64_round n 0"

fun f64_sign :: "float64 \<Rightarrow> int" where
  "f64_sign (Fin m e) = sgn m"
| "f64_sign PInf = 1"
| "f64_sign NInf = -1"
| "f64_sign NaN = 0"

fun f64_add :: "float64 \<Rightarrow> float64 \<Rightarrow> float64" where
  "f64_add (Fin m e) (Fin n f) =
     (let g = min e f in f64_round (m * 2 ^ nat (e - g) + n * 2 ^ nat (f - g)) g)"
| "f64_add NaN y = NaN"
| "f64_add x NaN = NaN"
| "f64_add PInf NInf = NaN"
| "f64_add NInf PInf = NaN"
| "f64_add PInf y = PInf"
| "f64_add NInf y = NInf"
| "f64_add x PInf = PInf"
| "f64_add x NInf = NInf"

definition f64_mul :: "float64 \<Rightarrow> float64 \<Rightarrow> float64" where
  "f64_mul x y =
     (case (x, y) of
        (Fin m e, Fin n f) \<Rightarrow> f64_round (m * n) (e + f)
      | (NaN, _) \<Rightarrow> NaN
      | (_, NaN) \<Rightarrow> NaN
      | _ \<Rightarrow> (let s = f64_sign x * f64_sign y
              in if s = 0 then NaN else if 0 < s then PInf else NInf))"

fun f64_less :: "float64 \<Rightarrow> float64 \<Rightarrow> bool" where
  "f64_less (Fin m e) (Fin n f) =
     (let g = min e f in m * 2 ^ nat (e - g) < n * 2 ^ nat (f - g))"
| "f64_less NInf (Fin n f) = True"
| "f64_less NInf PInf = True"
| "f64_less (Fin m e) PInf = True"
| "f64_less x y = False"

definition f64_trunc :: "int \<Rightarrow> int \<Rightarrow> int" where
  "f64_trunc m e = (if 0 \<le> e then m * 2 ^ nat e else sgn m * (\<bar>m\<bar> div 2 ^ nat (- e)))"

text \<open>\<open>uint(f)\<close>: truncation towards zero.  The Go specification leaves the result
  implementation-dependent where the truncated value is not a \<open>uint\<close>: the argument
  \<open>other\<close>.\<close>

definition f64_to_uint :: "(float64 \<Rightarrow> uint) \<Rightarrow> float64 \<Rightarrow> uint" where
  "f64_to_uint other x =
     (case x of
        Fin m e \<Rightarrow> (let t = f64_trunc m e
                    in if 0 \<le> t \<and> t < 2 ^ 64 then word_of_int t else other x)
      | _ \<Rightarrow> other x)"

instantiation float64 :: "{zero, plus, times, ord}"
begin
definition zero_float64 :: float64 where "zero_float64 = Fin 0 0"
definition plus_float64 :: "float64 \<Rightarrow> float64 \<Rightarrow> float64" where "plus_float64 = f64_add"
definition times_float64 :: "float64 \<Rightarrow> float64 \<Rightarrow> float64" where "times_float64 = f64_mul"
definition less_float64 :: "float64 \<Rightarrow> float64 \<Rightarrow> bool" where "less_float64 = f64_less"
definition less_eq_float64 :: "float64 \<Rightarrow> float64 \<Rightarrow> bool" where
  "less_eq_float64 x y = (f64_less x y \<or> x = y \<and> x \<noteq> NaN)"
instance ..
end

lemmas float64_ops = zero_float64_def plus_float64_def times_float64_def less_float64_def

section \<open>Integers up to \<open>2 ^ 53\<close> are exact\<close>

definition exact :: "int \<Rightarrow> bool" where
  "exact n = (\<bar>n\<bar> \<le> 2 ^ 53)"

lemma odd_le_2p53: "odd m \<Longrightarrow> \<bar>m\<bar> \<le> 2 ^ 53 \<Longrightarrow> nat \<bar>m\<bar> < 2 ^ 53" for m :: int
proof -
  assume "odd m" and le: "\<bar>m\<bar> \<le> 2 ^ 53"
  have "even ((2 :: int) ^ 53)" by simp
  with \<open>odd m\<close> have "\<bar>m\<bar> \<noteq> 2 ^ 53" by (metis dvd_abs_iff)
  with le have "\<bar>m\<bar> < 2 ^ 53" by simp
  then show ?thesis by (simp add: nat_less_iff)
qed

lemma abs_mul_pow2_ge: "\<bar>m\<bar> \<le> \<bar>m * 2 ^ k\<bar>" for m :: int
  by (simp add: abs_mult mult_le_cancel_left1)

lemma bits_pow: "bits (n * 2 ^ k) = (if n = 0 then 0 else bits n + k)"
proof (induction k)
  case 0
  then show ?case by simp
next
  case (Suc k)
  show ?case
  proof (cases "n = 0")
    case False
    have "bits (n * 2 ^ Suc k) = Suc (bits (n * 2 ^ Suc k div 2))"
      using False by (subst bits.simps) simp
    also have "n * 2 ^ Suc k div 2 = n * 2 ^ k" by (simp add: ac_simps)
    finally show ?thesis using Suc False by simp
  qed simp
qed

text \<open>A value \<open>m * 2 ^ e\<close> (with \<open>e\<close> not below 0) of magnitude at most \<open>2 ^ 53\<close> is
  represented by its normal form, without rounding.\<close>

lemma f64_round_exact:
  assumes "exact (m * 2 ^ k)"
  shows "f64_round m (int k) = (case f64_norm (m * 2 ^ k) 0 of (m', e') \<Rightarrow> Fin m' e')"
proof (cases "m = 0")
  case True
  then show ?thesis by (simp add: f64_round_def f64_pack_def)
next
  case False
  obtain m' e' where n: "f64_norm m (int k) = (m', e')" by fastforce
  with False have n0: "f64_norm (m * 2 ^ k) 0 = (m', e')" by (simp add: f64_norm_shift)
  from f64_norm_value [OF n0] False have v: "m * 2 ^ k = m' * 2 ^ nat e'" and e': "0 \<le> e'"
    and odd: "odd m'" by auto
  from assms v have le: "\<bar>m' * 2 ^ nat e'\<bar> \<le> 2 ^ 53" by (simp add: exact_def)
  have "\<bar>m'\<bar> \<le> 2 ^ 53" using abs_mul_pow2_ge [of m' "nat e'"] le by linarith
  then have b: "bits (nat \<bar>m'\<bar>) \<le> 53" by (intro bits_le odd_le_2p53 odd)
  have "nat \<bar>m' * 2 ^ nat e'\<bar> < 2 ^ 54" using le by (simp add: nat_less_iff)
  then have "bits (nat \<bar>m' * 2 ^ nat e'\<bar>) \<le> 54" by (rule bits_le)
  also have "nat \<bar>m' * 2 ^ nat e'\<bar> = nat \<bar>m'\<bar> * 2 ^ nat e'"
    by (simp add: abs_mult nat_mult_distrib nat_power_eq)
  finally have "bits (nat \<bar>m'\<bar>) + nat e' \<le> 54" using odd by (auto simp: bits_pow split: if_splits)
  then have "int (bits (nat \<bar>m'\<bar>)) + e' \<le> 1024" using e' by linarith
  then show ?thesis using b e' odd by (simp add: f64_round_def f64_pack_def n n0 max_def)
qed

lemma f64_of_int_exact:
  "exact n \<Longrightarrow> f64_of_int n = (case f64_norm n 0 of (m, e) \<Rightarrow> Fin m e)"
  using f64_round_exact [of n 0] by (simp add: f64_of_int_def)

lemma f64_of_int_cases:
  assumes "exact n"
  obtains m k where "f64_of_int n = Fin m (int k)" and "n = m * 2 ^ k"
proof (cases "n = 0")
  case True
  with that [of 0 0] assms show ?thesis by (simp add: f64_of_int_exact)
next
  case False
  obtain m e where me: "f64_norm n 0 = (m, e)" by fastforce
  with f64_norm_value [OF me] False have "n = m * 2 ^ nat e" and "0 \<le> e" by auto
  with that [of m "nat e"] me assms show ?thesis by (simp add: f64_of_int_exact)
qed

lemma f64_add_exact:
  assumes a: "exact a" and b: "exact b" and ab: "exact (a + b)"
  shows "f64_of_int a + f64_of_int b = f64_of_int (a + b)"
proof -
  obtain m k where mk: "f64_of_int a = Fin m (int k)" "a = m * 2 ^ k"
    using a by (rule f64_of_int_cases)
  obtain n l where nl: "f64_of_int b = Fin n (int l)" "b = n * 2 ^ l"
    using b by (rule f64_of_int_cases)
  let ?g = "min k l"
  let ?s = "m * 2 ^ (k - ?g) + n * 2 ^ (l - ?g)"
  have "k - ?g + ?g = k" "l - ?g + ?g = l" by auto
  then have s: "?s * 2 ^ ?g = a + b"
    by (metis (no_types, lifting) distrib_right mk(2) mult.assoc nl(2) power_add)
  have "f64_of_int a + f64_of_int b = f64_round ?s (int ?g)"
    by (simp add: plus_float64_def mk(1) nl(1) Let_def of_nat_min nat_diff_distrib' min_def)
  also have "\<dots> = (case f64_norm (a + b) 0 of (m', e') \<Rightarrow> Fin m' e')"
    using ab s by (subst f64_round_exact) simp_all
  finally show ?thesis using ab by (simp add: f64_of_int_exact)
qed

lemma f64_mul_exact:
  assumes a: "exact a" and b: "exact b" and ab: "exact (a * b)"
  shows "f64_of_int a * f64_of_int b = f64_of_int (a * b)"
proof -
  obtain m k where mk: "f64_of_int a = Fin m (int k)" "a = m * 2 ^ k"
    using a by (rule f64_of_int_cases)
  obtain n l where nl: "f64_of_int b = Fin n (int l)" "b = n * 2 ^ l"
    using b by (rule f64_of_int_cases)
  have s: "m * n * 2 ^ (k + l) = a * b" using mk nl by (simp add: power_add ac_simps)
  have "f64_of_int a * f64_of_int b = f64_round (m * n) (int (k + l))"
    by (simp add: times_float64_def f64_mul_def mk(1) nl(1))
  also have "\<dots> = (case f64_norm (a * b) 0 of (m', e') \<Rightarrow> Fin m' e')"
    using ab s by (subst f64_round_exact) simp_all
  finally show ?thesis using ab by (simp add: f64_of_int_exact)
qed

lemma f64_to_uint_of_int:
  assumes "exact n" and "0 \<le> n"
  shows "f64_to_uint other (f64_of_int n) = word_of_int n"
proof -
  obtain m k where mk: "f64_of_int n = Fin m (int k)" "n = m * 2 ^ k"
    using assms(1) by (rule f64_of_int_cases)
  have "n < 2 ^ 64" using assms by (simp add: exact_def)
  with mk assms(2) show ?thesis by (simp add: f64_to_uint_def f64_trunc_def Let_def)
qed

lemma f64_of_int_zero [simp]: "f64_of_int 0 = 0"
  by (simp add: f64_of_int_exact exact_def zero_float64_def)

end
