(* ===== verification/Domain.thy ===== *)
theory Domain
  imports Float64
begin

text \<open>
  Package \<open>internal/domain\<close>: the sentinel errors and their machine codes
  (\<open>errors.go\<close>), the order aggregate and its state machine (\<open>order.go\<close>), products
  (\<open>product.go\<close>) and users (\<open>user.go\<close>).

  A Go \<open>error\<close> is a \<open>go_error\<close>: one of the package's sentinels, an error made by
  \<open>fmt.Errorf("%w...", err)\<close> (its message and the error it wraps), or any other error
  (a driver's), known by its message only.
\<close>

section \<open>errors.go\<close>

datatype sentinel =
    ErrNotFound | ErrInvalid | ErrUnauthorized | ErrForbidden | ErrEmailTaken | ErrConflict
  | ErrRateLimited | ErrUnavailable | ErrTokenExpired | ErrInvalidAPIKey

fun sentinel_text :: "sentinel \<Rightarrow> string" where
  "sentinel_text ErrNotFound = ''not found''"
| "sentinel_text ErrInvalid = ''invalid input''"
| "sentinel_text ErrUnauthorized = ''unauthorized''"
| "sentinel_text ErrForbidden = ''forbidden''"
| "sentinel_text ErrEmailTaken = ''email already registered''"
| "sentinel_text ErrConflict = ''conflict''"
| "sentinel_text ErrRateLimited = ''rate limit exceeded''"
| "sentinel_text ErrUnavailable = ''service unavailable''"
| "sentinel_text ErrTokenExpired = ''Unauthorized: Token expired''"
| "sentinel_text ErrInvalidAPIKey = ''invalid api key''"

datatype go_error =
    Sentinel sentinel
  | Wrapped string go_error
  | Other string

fun error_text :: "go_error \<Rightarrow> string" where
  "error_text (Sentinel x) = sentinel_text x"
| "error_text (Wrapped m e) = m"
| "error_text (Other m) = m"

fun errors_is :: "go_error \<Rightarrow> sentinel \<Rightarrow> bool" where
  "errors_is (Sentinel x) y = (x = y)"
| "errors_is (Wrapped m e) y = errors_is e y"
| "errors_is (Other m) y = False"

text \<open>\<open>fmt.Errorf("%w: ...", x)\<close> for a sentinel \<open>x\<close>.\<close>

definition wrap :: "sentinel \<Rightarrow> string \<Rightarrow> go_error" where
  "wrap x m = Wrapped (sentinel_text x @ '': '' @ m) (Sentinel x)"

lemma errors_is_wrap [simp]: "errors_is (wrap x m) y = (x = y)"
  by (simp add: wrap_def)

fun error_sentinel :: "go_error \<Rightarrow> sentinel option" where
  "error_sentinel (Sentinel x) = Some x"
| "error_sentinel (Wrapped m e) = error_sentinel e"
| "error_sentinel (Other m) = None"

lemma errors_is_sentinel: "errors_is e x \<longleftrightarrow> error_sentinel e = Some x"
  by (induction e) auto

definition ErrorCode :: "go_error \<Rightarrow> string" where
  "ErrorCode err =
     (if errors_is err ErrNotFound then ''RESOURCE_NOT_FOUND''
      else if errors_is err ErrInvalid then ''VALIDATION_ERROR''
      else if errors_is err ErrEmailTaken then ''AUTH_EMAIL_TAKEN''
      else if errors_is err ErrConflict then ''RESOURCE_CONFLICT''
      else if errors_is err ErrTokenExpired then ''AUTH_TOKEN_EXPIRED''
      else if errors_is err ErrUnauthorized then ''AUTH_UNAUTHORIZED''
      else if errors_is err ErrInvalidAPIKey then ''AUTH_INVALID_API_KEY''
      else if errors_is err ErrForbidden then ''AUTH_FORBIDDEN''
      else if errors_is err ErrRateLimited then ''RATE_LIMIT_EXCEEDED''
      else if errors_is err ErrUnavailable then ''SERVICE_UNAVAILABLE''
      else ''INTERNAL_ERROR'')"

section \<open>order.go\<close>

definition OrderPendingPayment :: string where "OrderPendingPayment = ''pending_payment''"
definition OrderPaid :: string where "OrderPaid = ''paid''"
definition OrderPaymentFailed :: string where "OrderPaymentFailed = ''payment_failed''"
definition OrderCancelled :: string where "OrderCancelled = ''cancelled''"
definition OrderFulfilled :: string where "OrderFulfilled = ''fulfilled''"

definition ReservationHeld :: string where "ReservationHeld = ''held''"
definition ReservationCommitted :: string where "ReservationCommitted = ''committed''"
definition ReservationReleased :: string where "ReservationReleased = ''released''"

definition PaymentPending :: string where "PaymentPending = ''pending''"
definition PaymentSucceeded :: string where "PaymentSucceeded = ''succeeded''"
definition PaymentFailed :: string where "PaymentFailed = ''failed''"

definition EventOrderCreated :: string where "EventOrderCreated = ''order.created''"
definition EventOrderPaid :: string where "EventOrderPaid = ''order.paid''"
definition EventOrderPaymentFailed :: string where
  "EventOrderPaymentFailed = ''order.payment_failed''"
definition EventOrderCancelled :: string where "EventOrderCancelled = ''order.cancelled''"
definition EventOrderFulfilled :: string where "EventOrderFulfilled = ''order.fulfilled''"

lemmas order_consts [str_consts] =
  OrderPendingPayment_def OrderPaid_def OrderPaymentFailed_def OrderCancelled_def
  OrderFulfilled_def ReservationHeld_def ReservationCommitted_def ReservationReleased_def
  PaymentPending_def PaymentSucceeded_def PaymentFailed_def EventOrderCreated_def
  EventOrderPaid_def EventOrderPaymentFailed_def EventOrderCancelled_def
  EventOrderFulfilled_def

lemma order_status_distinct [simp]:
  "OrderPendingPayment \<noteq> OrderPaid" "OrderPendingPayment \<noteq> OrderPaymentFailed"
  "OrderPendingPayment \<noteq> OrderCancelled" "OrderPendingPayment \<noteq> OrderFulfilled"
  "OrderPaid \<noteq> OrderPendingPayment" "OrderPaid \<noteq> OrderPaymentFailed"
  "OrderPaid \<noteq> OrderCancelled" "OrderPaid \<noteq> OrderFulfilled"
  "OrderPaymentFailed \<noteq> OrderPendingPayment" "OrderPaymentFailed \<noteq> OrderPaid"
  "OrderPaymentFailed \<noteq> OrderCancelled" "OrderPaymentFailed \<noteq> OrderFulfilled"
  "OrderCancelled \<noteq> OrderPendingPayment" "OrderCancelled \<noteq> OrderPaid"
  "OrderCancelled \<noteq> OrderPaymentFailed" "OrderCancelled \<noteq> OrderFulfilled"
  "OrderFulfilled \<noteq> OrderPendingPayment" "OrderFulfilled \<noteq> OrderPaid"
  "OrderFulfilled \<noteq> OrderPaymentFailed" "OrderFulfilled \<noteq> OrderCancelled"
  by (simp_all add: str_consts)

lemma reservation_status_distinct [simp]:
  "ReservationHeld \<noteq> ReservationCommitted" "ReservationHeld \<noteq> ReservationReleased"
  "ReservationCommitted \<noteq> ReservationHeld" "ReservationCommitted \<noteq> ReservationReleased"
  "ReservationReleased \<noteq> ReservationHeld" "ReservationReleased \<noteq> ReservationCommitted"
  by (simp_all add: str_consts)

lemma payment_status_distinct [simp]:
  "PaymentSucceeded \<noteq> PaymentFailed" "PaymentFailed \<noteq> PaymentSucceeded"
  by (simp_all add: str_consts)

lemma order_event_distinct [simp]:
  "EventOrderCreated \<noteq> EventOrderPaid" "EventOrderCreated \<noteq> EventOrderPaymentFailed"
  "EventOrderCreated \<noteq> EventOrderCancelled" "EventOrderCreated \<noteq> EventOrderFulfilled"
  "EventOrderPaid \<noteq> EventOrderCreated" "EventOrderPaid \<noteq> EventOrderPaymentFailed"
  "EventOrderPaid \<noteq> EventOrderCancelled" "EventOrderPaid \<noteq> EventOrderFulfilled"
  "EventOrderPaymentFailed \<noteq> EventOrderCreated" "EventOrderPaymentFailed \<noteq> EventOrderPaid"
  "EventOrderPaymentFailed \<noteq> EventOrderCancelled" "EventOrderPaymentFailed \<noteq> EventOrderFulfilled"
  "EventOrderCancelled \<noteq> EventOrderCreated" "EventOrderCancelled \<noteq> EventOrderPaid"
  "EventOrderCancelled \<noteq> EventOrderPaymentFailed" "EventOrderCancelled \<noteq> EventOrderFulfilled"
  "EventOrderFulfilled \<noteq> EventOrderCreated" "EventOrderFulfilled \<noteq> EventOrderPaid"
  "EventOrderFulfilled \<noteq> EventOrderPaymentFailed" "EventOrderFulfilled \<noteq> EventOrderCancelled"
  by (simp_all add: str_consts)

record OrderItem =
  it_ProductID :: uint
  it_Qty :: int
  it_UnitPrice :: float64

record Order =
  ord_ID :: uint
  ord_UserID :: uint
  ord_Status :: string
  ord_Total :: float64
  ord_Currency :: string
  ord_Version :: int
  ord_Items :: "OrderItem list"
  ord_CreatedAt :: string
  ord_UpdatedAt :: string

definition allowedTransitions :: "(string \<times> string list) list" where
  "allowedTransitions =
     [(OrderPendingPayment, [OrderPaid, OrderPaymentFailed, OrderCancelled]),
      (OrderPaymentFailed, [OrderPaid, OrderCancelled]),
      (OrderPaid, [OrderFulfilled])]"

definition CanTransition :: "string \<Rightarrow> string \<Rightarrow> bool" where
  "CanTransition from to =
     (case map_of allowedTransitions from of
        None \<Rightarrow> False
      | Some next \<Rightarrow> to \<in> set next)"

definition Transition :: "string \<Rightarrow> string \<Rightarrow> go_error + string" where
  "Transition from to =
     (if \<not> CanTransition from to
      then Inl (wrap ErrConflict
             (''cannot transition order '' @ from @ '' '' @ map char_of [0xE2, 0x86, 0x92 :: nat]
              @ '' '' @ to))
      else Inr to)"

lemma CanTransition_iff:
  "CanTransition from to \<longleftrightarrow>
     from = OrderPendingPayment \<and> to \<in> {OrderPaid, OrderPaymentFailed, OrderCancelled}
   \<or> from = OrderPaymentFailed \<and> to \<in> {OrderPaid, OrderCancelled}
   \<or> from = OrderPaid \<and> to = OrderFulfilled"
  by (auto simp: CanTransition_def allowedTransitions_def split: option.splits if_splits)

lemma Transition_Inr [simp]: "Transition from to = Inr next \<longleftrightarrow> CanTransition from to \<and> next = to"
  by (auto simp: Transition_def)

lemma Transition_Inl: "Transition from to = Inl e \<Longrightarrow> errors_is e ErrConflict \<and> \<not> CanTransition from to"
  by (auto simp: Transition_def split: if_splits)

lemma Transition_if:
  "(case Transition from to of Inl e \<Rightarrow> f e | Inr next \<Rightarrow> g next)
   = (if CanTransition from to then g to
      else f (wrap ErrConflict
             (''cannot transition order '' @ from @ '' '' @ map char_of [0xE2, 0x86, 0x92 :: nat]
              @ '' '' @ to)))"
  by (simp add: Transition_def)

text \<open>No status is reached twice: every path strictly descends in \<open>status_rank\<close>.\<close>

definition status_rank :: "string \<Rightarrow> nat" where
  "status_rank st =
     (if st = OrderPendingPayment then 3 else if st = OrderPaymentFailed then 2
      else if st = OrderPaid then 1 else 0)"

lemma CanTransition_rank: "CanTransition from to \<Longrightarrow> status_rank to < status_rank from"
  by (auto simp: CanTransition_iff status_rank_def)

section \<open>product.go and user.go\<close>

record Product =
  pr_ID :: uint
  pr_UserID :: uint
  pr_Name :: string
  pr_Description :: string
  pr_Price :: float64
  pr_Stock :: int
  pr_CreatedAt :: time
  pr_UpdatedAt :: time

definition EventProductCreated :: string where "EventProductCreated = ''product.created''"
definition EventProductUpdated :: string where "EventProductUpdated = ''product.updated''"
definition EventProductDeleted :: string where "EventProductDeleted = ''product.deleted''"

definition RoleUser :: string where "RoleUser = ''user''"
definition RoleAdmin :: string where "RoleAdmin = ''admin''"

record User =
  usr_ID :: uint
  usr_Name :: string
  usr_Email :: string
  usr_Role :: string
  usr_PasswordHash :: string
  usr_CreatedAt :: time
  usr_UpdatedAt :: time

record AuthTokens =
  AccessToken :: string
  RefreshToken :: string

record AuthResult =
  ar_User :: User
  ar_Tokens :: AuthTokens

lemmas product_consts [str_consts] =
  EventProductCreated_def EventProductUpdated_def EventProductDeleted_def RoleUser_def
  RoleAdmin_def

section \<open>Correctness\<close>

text \<open>The error code of an error is determined by the sentinel it carries; the ten codes and
  \<open>INTERNAL_ERROR\<close> are pairwise different.\<close>

lemma ErrorCode_sentinel:
  "ErrorCode e = (case error_sentinel e of None \<Rightarrow> ''INTERNAL_ERROR''
                  | Some x \<Rightarrow> ErrorCode (Sentinel x))"
  by (cases "error_sentinel e") (auto simp: ErrorCode_def errors_is_sentinel)

lemma ErrorCode_inj: "ErrorCode (Sentinel x) = ErrorCode (Sentinel y) \<Longrightarrow> x = y"
  by (cases x; cases y) (simp_all add: ErrorCode_def)

lemma ErrorCode_not_internal: "ErrorCode (Sentinel x) \<noteq> ''INTERNAL_ERROR''"
  by (cases x) (simp_all add: ErrorCode_def)

end
