(* ===== verification/Json.thy ===== *)
theory Json
  imports Domain
begin

text \<open>
  \<open>encoding/json\<close> and the dynamic type \<open>any\<close>, at the level of JSON trees.

  \<open>goval\<close> is a Go value held in an \<open>any\<close>, with its dynamic type; \<open>json\<close> is a JSON
  text read as a tree (a number token is an integer literal or the shortest literal that
  denotes a \<open>float64\<close>; \<open>JTime\<close> is the RFC 3339 string of an instant).  \<open>marshal\<close>
  fails on infinities and NaN as \<open>json.Marshal\<close> does; \<open>unmarshal\<close> decodes into \<open>any\<close>,
  where every number becomes a \<open>float64\<close>.  A byte sequence is \<open>Inl\<close> of the JSON tree it
  denotes, or \<open>Inr\<close> of bytes that are not JSON.  Also here: \<open>time.Format(time.RFC3339)\<close>.
\<close>

datatype json =
    JNull | JBool bool | JInt int | JFloat float64 | JStr string | JTime time
  | JArr "json list" | JObj "(string \<times> json) list"

datatype goval =
    GNil | GBool bool | GInt int | GInt64 int | GUint uint | GUint64 uint | GFloat float64
  | GStr string | GTime time | GSlice "goval list" | GMap "(string \<times> goval) list"

type_synonym bytes = "json + string"

section \<open>Time in RFC 3339\<close>

text \<open>The civil date of a day number (days since 1970-01-01), proleptic Gregorian.\<close>

definition civil_from_days :: "int \<Rightarrow> int \<times> int \<times> int" where
  "civil_from_days z =
     (let z' = z + 719468;
          era = z' div 146097;
          doe = z' mod 146097;
          yoe = (doe - doe div 1460 + doe div 36524 - doe div 146096) div 365;
          doy = doe - (365 * yoe + yoe div 4 - yoe div 100);
          mp = (5 * doy + 2) div 153;
          d = doy - (153 * mp + 2) div 5 + 1;
          m = (if mp < 10 then mp + 3 else mp - 9);
          y = yoe + era * 400 + (if m \<le> 2 then 1 else 0)
      in (y, m, d))"

definition pad :: "nat \<Rightarrow> int \<Rightarrow> string" where
  "pad w n = (let t = show_nat (nat n) in replicate (w - length t) (CHR ''0'') @ t)"

lemma pad_code [code]:
  "pad w n = (let t = show_pos (max 0 n) in replicate (w - length t) (CHR ''0'') @ t)"
proof -
  have "show_nat (nat n) = show_pos (max 0 n)" by (cases "0 \<le> n") (simp_all add: show_nat_int flip: show_nat_int [of 0])
  then show ?thesis by (simp add: pad_def)
qed

definition format_rfc3339 :: "time \<Rightarrow> string" where
  "format_rfc3339 t =
     (let secs = t div second; days = secs div 86400; sod = secs mod 86400
      in case civil_from_days days of (y, m, d) \<Rightarrow>
           pad 4 y @ ''-'' @ pad 2 m @ ''-'' @ pad 2 d @ ''T'' @ pad 2 (sod div 3600) @ '':''
           @ pad 2 (sod div 60 mod 60) @ '':'' @ pad 2 (sod mod 60) @ ''Z'')"

section \<open>Marshal and Unmarshal\<close>

definition unsupported_value :: go_error where
  "unsupported_value = Other ''json: unsupported value''"

fun marshal :: "goval \<Rightarrow> go_error + json" and
    marshal_list :: "goval list \<Rightarrow> go_error + json list" and
    marshal_fields :: "(string \<times> goval) list \<Rightarrow> go_error + (string \<times> json) list" where
  "marshal GNil = Inr JNull"
| "marshal (GBool b) = Inr (JBool b)"
| "marshal (GInt i) = Inr (JInt i)"
| "marshal (GInt64 i) = Inr (JInt i)"
| "marshal (GUint n) = Inr (JInt (uint n))"
| "marshal (GUint64 n) = Inr (JInt (uint n))"
| "marshal (GFloat f) = (case f of Fin m e \<Rightarrow> Inr (JFloat f) | _ \<Rightarrow> Inl unsupported_value)"
| "marshal (GStr t) = Inr (JStr t)"
| "marshal (GTime t) = Inr (JTime t)"
| "marshal (GSlice vs) =
     (case marshal_list vs of Inl e \<Rightarrow> Inl e | Inr js \<Rightarrow> Inr (JArr js))"
| "marshal (GMap kvs) =
     (case marshal_fields kvs of Inl e \<Rightarrow> Inl e | Inr kjs \<Rightarrow> Inr (JObj kjs))"
| "marshal_list [] = Inr []"
| "marshal_list (v # vs) =
     (case marshal v of Inl e \<Rightarrow> Inl e
      | Inr j \<Rightarrow> (case marshal_list vs of Inl e \<Rightarrow> Inl e | Inr js \<Rightarrow> Inr (j # js)))"
| "marshal_fields [] = Inr []"
| "marshal_fields ((k, v) # kvs) =
     (case marshal v of Inl e \<Rightarrow> Inl e
      | Inr j \<Rightarrow> (case marshal_fields kvs of Inl e \<Rightarrow> Inl e | Inr kjs \<Rightarrow> Inr ((k, j) # kjs)))"

fun unmarshal :: "json \<Rightarrow> goval" where
  "unmarshal JNull = GNil"
| "unmarshal (JBool b) = GBool b"
| "unmarshal (JInt i) = GFloat (f64_of_int i)"
| "unmarshal (JFloat f) = GFloat f"
| "unmarshal (JStr t) = GStr t"
| "unmarshal (JTime t) = GStr (format_rfc3339 t)"
| "unmarshal (JArr js) = GSlice (map unmarshal js)"
| "unmarshal (JObj kjs) = GMap (map (\<lambda>(k, j). (k, unmarshal j)) kjs)"

text \<open>\<open>json.Unmarshal(b, &m)\<close> for \<open>m map[string]any\<close>: an object, or \<open>null\<close> (which leaves
  the nil map); anything else is an error.\<close>

definition unmarshal_map :: "bytes \<Rightarrow> (string \<times> goval) list option" where
  "unmarshal_map b =
     (case b of
        Inl (JObj kjs) \<Rightarrow> Some (map (\<lambda>(k, j). (k, unmarshal j)) kjs)
      | Inl JNull \<Rightarrow> Some []
      | _ \<Rightarrow> None)"

text \<open>\<open>m[k]\<close> on a \<open>map[string]any\<close>: the zero value \<open>nil\<close> where the key is absent; of a
  repeated key the last occurrence counts.\<close>

definition lookup :: "(string \<times> goval) list \<Rightarrow> string \<Rightarrow> goval" where
  "lookup m k = (case map_of (rev m) k of None \<Rightarrow> GNil | Some v \<Rightarrow> v)"

lemma marshal_fields_all2:
  "marshal_fields kvs = Inr kjs
   \<Longrightarrow> list_all2 (\<lambda>(k, v) (k', j). k' = k \<and> marshal v = Inr j) kvs kjs"
  by (induction kvs arbitrary: kjs) (auto split: sum.splits)

lemma map_of_marshalled:
  "list_all2 (\<lambda>(k, v) (k', j). k' = k \<and> marshal v = Inr j) kvs kjs \<Longrightarrow> map_of kvs k = Some v
   \<Longrightarrow> \<exists>j. marshal v = Inr j \<and> map_of kjs k = Some j"
  by (induction kvs kjs rule: list_all2_induct) (auto split: if_splits)

lemma map_of_unmarshal:
  "map_of (map (\<lambda>(k, j). (k, unmarshal j)) kjs) k = map_option unmarshal (map_of kjs k)"
  by (induction kjs) auto

lemma lookup_unmarshal:
  "lookup (map (\<lambda>(k, j). (k, unmarshal j)) kjs) k
   = (case map_of (rev kjs) k of None \<Rightarrow> GNil | Some j \<Rightarrow> unmarshal j)"
  by (simp add: lookup_def rev_map map_of_unmarshal split: option.split)

text \<open>What a field of a marshalled map reads as after the round trip through JSON.\<close>

lemma lookup_roundtrip:
  assumes "marshal_fields kvs = Inr kjs" and "map_of (rev kvs) k = Some v"
  shows "\<exists>j. marshal v = Inr j \<and> lookup (map (\<lambda>(k, j). (k, unmarshal j)) kjs) k = unmarshal j"
proof -
  from marshal_fields_all2 [OF assms(1)]
  have "list_all2 (\<lambda>(k, v) (k', j). k' = k \<and> marshal v = Inr j) (rev kvs) (rev kjs)"
    by simp
  from map_of_marshalled [OF this assms(2)] show ?thesis
    by (auto simp: lookup_unmarshal)
qed

end
