(* ===== verification/Models.thy ===== *)
theory Models
  imports Json
begin

text \<open>
  The rows of the PostgreSQL tables (the \<open>model.go\<close> of each package, the columns of
  \<open>migrations/*.sql\<close>), the documents of MongoDB, the envelopes on Kafka and the values kept
  in Redis.  A nullable column or a Go pointer is an \<open>option\<close>.
\<close>

section \<open>PostgreSQL rows\<close>

record UserModel =
  u_ID :: uint
  u_Name :: string
  u_Email :: string
  u_PasswordHash :: string
  u_Role :: string
  u_CreatedAt :: time
  u_UpdatedAt :: time
  u_DeletedAt :: "time option"

record ProductModel =
  p_ID :: uint
  p_UserID :: uint
  p_Name :: string
  p_Description :: string
  p_Price :: float64
  p_Stock :: int
  p_CreatedAt :: time
  p_UpdatedAt :: time
  p_DeletedAt :: "time option"

record OrderModel =
  o_ID :: uint
  o_UserID :: uint
  o_Status :: string
  o_Total :: float64
  o_Currency :: string
  o_Version :: int
  o_CreatedAt :: time
  o_UpdatedAt :: time

record OrderItemModel =
  oi_ID :: uint
  oi_OrderID :: uint
  oi_ProductID :: uint
  oi_Qty :: int
  oi_UnitPrice :: float64

record ReservationModel =
  rv_ID :: uint
  rv_OrderID :: uint
  rv_ProductID :: uint
  rv_Qty :: int
  rv_Status :: string
  rv_CreatedAt :: time
  rv_UpdatedAt :: time

record PaymentModel =
  pay_ID :: uint
  pay_OrderID :: uint
  pay_IdempotencyKey :: string
  pay_Status :: string
  pay_Amount :: float64
  pay_ProviderRef :: string
  pay_Attempt :: int
  pay_CreatedAt :: time
  pay_UpdatedAt :: time

record IdempotencyModel =
  ik_ID :: uint
  ik_Key :: string
  ik_UserID :: uint
  ik_Method :: string
  ik_Path :: string
  ik_RequestHash :: string
  ik_ResponseStatus :: "int option"
  ik_ResponseBody :: "json option"
  ik_CreatedAt :: time

record EventRow =
  ev_ID :: uint
  ev_EventID :: string
  ev_AggregateType :: string
  ev_AggregateID :: uint
  ev_EventType :: string
  ev_Payload :: json
  ev_CreatedAt :: time
  ev_PublishedAt :: "time option"

record InboxRow =
  ib_EventID :: string
  ib_Consumer :: string
  ib_EventType :: string
  ib_ProcessedAt :: time

record LedgerEntry =
  le_ID :: uint
  le_ProductID :: uint
  le_OrderID :: "uint option"
  le_Delta :: int
  le_Reason :: string
  le_BalanceAfter :: "int option"
  le_CreatedAt :: time

record WishlistModel =
  w_ID :: uint
  w_UserID :: uint
  w_ProductID :: uint
  w_Note :: string
  w_CreatedAt :: time

section \<open>Kafka, MongoDB, Redis\<close>

record Event =
  e_ID :: string
  e_Type :: string
  e_Payload :: "(string \<times> goval) list"
  e_CreatedAt :: time

record Message =
  msg_Event :: Event
  msg_rawBody :: bytes

text \<open>A message on a topic: its partitioning key and its value.\<close>

type_synonym wire = "string \<times> bytes"

text \<open>An event on the dead-letter topic: the key, the envelope and the payload.\<close>

record DeadLetter =
  dl_Key :: string
  dl_ID :: string
  dl_Type :: string
  dl_CreatedAt :: time
  dl_reason :: string
  dl_rawMessage :: bytes
  dl_failedAt :: time

record AuditRecord =
  au_EventID :: string
  au_Type :: string
  au_Payload :: "(string \<times> goval) list"
  au_OccurredAt :: time
  au_ProcessedAt :: time
  au_Consumer :: string

record ListResult =
  lr_Items :: "Product list"
  lr_NextCursor :: uint
  lr_HasMore :: bool

text \<open>A value kept in Redis: a string, or the JSON text of a product or of a product page.\<close>

datatype cval = CStr string | CProduct Product | CList ListResult

text \<open>The goroutines that the product service starts and does not wait for.\<close>

datatype job =
    PublishJob string Product
  | IndexJob Product
  | DeleteIndexJob uint

end
