(* ===== verification/Store.thy ===== *)
theory Store
  imports Models
begin

text \<open>
  The state the program works on and the primitive effects.

  \<^item> \<open>db\<close>: the tables of PostgreSQL, each the list of its rows in insertion order.  The
    SQL engine is not part of the source; each SQL statement of the source is modelled by
    its documented effect on the tables (\<open>WHERE\<close> selects rows, a primary key, \<open>UNIQUE\<close>,
    \<open>REFERENCES\<close>, \<open>CHECK\<close>, \<open>VARCHAR(n)\<close> or \<open>INTEGER\<close> range violation is an error).
  \<^item> \<open>env\<close>: what the program cannot control, all of it arbitrary: which interactions with
    the outside fail and with which message (\<open>fault\<close>), what the clock and the UUID
    generator return, whether a commit whose acknowledgement is lost took effect, whether
    the context is cancelled, and the implementation-dependent conversion of a
    \<open>float64\<close> out of range.  Interactions are numbered by \<open>tick\<close>.
  \<^item> \<open>sys\<close>: the database with its sequences (not rolled back by a transaction), the Kafka
    topics, the MongoDB collection, Redis, the goroutines started and not yet run, and the
    local pause flag of the relay.

  \<open>transaction body\<close> is GORM's \<open>db.Transaction\<close>: the tables are restored when the body
  returns an error.  \<open>db_wp body Q d\<close> says that every successful run of the body from
  tables \<open>d\<close> ends with a value and tables that satisfy \<open>Q\<close>, whatever the environment
  does; \<open>transaction_atomic\<close> lifts it to transactions.
\<close>

section \<open>State\<close>

record db =
  users :: "UserModel list"
  products :: "ProductModel list"
  orders :: "OrderModel list"
  order_items :: "OrderItemModel list"
  reservations :: "ReservationModel list"
  payments :: "PaymentModel list"
  idempotency_keys :: "IdempotencyModel list"
  outbox_events :: "EventRow list"
  processed_events :: "InboxRow list"
  stock_ledger :: "LedgerEntry list"
  wishlists :: "WishlistModel list"

datatype seqname =
    SeqUsers | SeqProducts | SeqOrders | SeqOrderItems | SeqReservations | SeqPayments
  | SeqIdempotency | SeqOutbox | SeqLedger | SeqWishlists

record env =
  fault :: "nat \<Rightarrow> string option"
  commit_lost :: "nat \<Rightarrow> bool"
  clock :: "nat \<Rightarrow> time"
  uuid :: "nat \<Rightarrow> string"
  ctx_done :: "nat \<Rightarrow> bool"
  uint_conv :: "float64 \<Rightarrow> uint"

record sys =
  env :: env
  tick :: nat
  db :: db
  seqs :: "seqname \<Rightarrow> uint"
  topic_products :: "wire list"
  topic_dlq :: "DeadLetter list"
  mongo :: "AuditRecord list"
  redis :: "string \<Rightarrow> (cval \<times> time option) option"
  jobs :: "job list"
  relay_paused :: bool

type_synonym 'a io = "(go_error, sys, 'a) prog"

section \<open>Primitive effects\<close>

definition tock :: "sys \<Rightarrow> sys" where
  "tock s = s\<lparr>tick := Suc (tick s)\<rparr>"

lemma tock_simps [simp]:
  "env (tock s) = env s" "tick (tock s) = Suc (tick s)" "db (tock s) = db s"
  "seqs (tock s) = seqs s" "topic_products (tock s) = topic_products s"
  "topic_dlq (tock s) = topic_dlq s" "mongo (tock s) = mongo s" "redis (tock s) = redis s"
  "jobs (tock s) = jobs s" "relay_paused (tock s) = relay_paused s"
  by (simp_all add: tock_def)

text \<open>One interaction that may fail: a SQL statement, a call of Redis, Kafka or MongoDB.\<close>

definition interact :: "(sys \<Rightarrow> (go_error + 'a) \<times> sys) \<Rightarrow> 'a io" where
  "interact f s =
     (case fault (env s) (tick s) of
        Some m \<Rightarrow> (Inl (Other m), tock s)
      | None \<Rightarrow> f (tock s))"

definition now :: "time io" where
  "now s = (Inr (clock (env s) (tick s)), tock s)"

definition new_uuid :: "string io" where
  "new_uuid s = (Inr (uuid (env s) (tick s)), tock s)"

definition ctx_cancelled :: "bool io" where
  "ctx_cancelled s = (Inr (ctx_done (env s) (tick s)), tock s)"

definition get_uint_conv :: "(float64 \<Rightarrow> uint) io" where
  "get_uint_conv s = (Inr (uint_conv (env s)), s)"

definition sql_error :: "string \<Rightarrow> go_error" where
  "sql_error m = Other (''ERROR: '' @ m)"

text \<open>A statement: a function of the server's clock and the tables that returns a result and
  the new tables, or an error message.\<close>

definition sql :: "(time \<Rightarrow> db \<Rightarrow> string + 'a \<times> db) \<Rightarrow> 'a io" where
  "sql f = interact (\<lambda>s. case f (clock (env s) (tick s)) (db s) of
                             Inl m \<Rightarrow> (Inl (sql_error m), s)
                           | Inr (a, d) \<Rightarrow> (Inr a, s\<lparr>db := d\<rparr>))"

definition query :: "(db \<Rightarrow> 'a) \<Rightarrow> 'a io" where
  "query f = sql (\<lambda>t d. Inr (f d, d))"

definition duplicate_key :: string where
  "duplicate_key = ''duplicate key value violates unique constraint''"

text \<open>\<open>INSERT\<close> with a \<open>BIGSERIAL\<close> key: the sequence advances even if the row is refused.\<close>

definition insert_row :: "seqname \<Rightarrow> (uint \<Rightarrow> 'r) \<Rightarrow> ('r \<Rightarrow> db \<Rightarrow> string option) \<Rightarrow> ('r \<Rightarrow> db \<Rightarrow> db) \<Rightarrow> 'r io" where
  "insert_row q mk refuse add =
     interact (\<lambda>s. let i = seqs s q + 1; r = mk i in
       if 2 ^ 63 \<le> uint i then (Inl (sql_error ''nextval: reached maximum value of sequence''), s)
       else case refuse r (db s) of
              Some m \<Rightarrow> (Inl (sql_error m), s\<lparr>seqs := (seqs s)(q := i)\<rparr>)
            | None \<Rightarrow> (Inr r, s\<lparr>seqs := (seqs s)(q := i), db := add r (db s)\<rparr>))"

definition transaction :: "'a io \<Rightarrow> 'a io" where
  "transaction body s =
     (case fault (env s) (tick s) of
        Some m \<Rightarrow> (Inl (Other m), tock s)
      | None \<Rightarrow>
          (case body (tock s) of
             (Inl e, s') \<Rightarrow> (Inl e, s'\<lparr>db := db s\<rparr>)
           | (Inr a, s') \<Rightarrow>
               (case fault (env s') (tick s') of
                  None \<Rightarrow> (Inr a, tock s')
                | Some m \<Rightarrow>
                    (Inl (Other m),
                     if commit_lost (env s') (tick s') then tock s'
                     else (tock s')\<lparr>db := db s\<rparr>))))"

lemmas interact_defs = sql_def query_def interact_def

lemma wp_query:
  assumes "Q (f (db s)) (tock s)" and "\<And>m. E (Other m) (tock s)"
  shows "wp (query f) Q E s"
  using assms by (simp add: wp_def interact_defs split: option.split)

lemma wp_now [wp_simps]: "wp now Q E s = Q (clock (env s) (tick s)) (tock s)"
  by (simp add: wp_def now_def)

section \<open>Ranges and constraints\<close>

text \<open>\<open>INTEGER\<close> is 32 bits; \<open>VARCHAR(n)\<close> counts characters: the bytes that are not UTF-8
  continuation bytes.\<close>

definition is_int4 :: "int \<Rightarrow> bool" where
  "is_int4 i = (- (2 ^ 31) \<le> i \<and> i < 2 ^ 31)"

definition char_length :: "string \<Rightarrow> nat" where
  "char_length s = length (filter (\<lambda>c. \<not> (128 \<le> (of_char c :: int) \<and> (of_char c :: int) < 192)) s)"

definition check :: "bool \<Rightarrow> string \<Rightarrow> string option" where
  "check ok m = (if ok then None else Some m)"

fun first_violation :: "string option list \<Rightarrow> string option" where
  "first_violation [] = None"
| "first_violation (None # cs) = first_violation cs"
| "first_violation (Some m # cs) = Some m"

lemma first_violation_None [simp]:
  "first_violation (check ok m # cs) = None \<longleftrightarrow> ok \<and> first_violation cs = None"
  by (simp add: check_def)

definition value_too_long :: string where "value_too_long = ''value too long for type character varying''"
definition out_of_range :: string where "out_of_range = ''integer out of range''"
definition foreign_key :: string where "foreign_key = ''insert violates foreign key constraint''"
definition check_constraint :: string where "check_constraint = ''new row violates check constraint''"

section \<open>Reasoning about the tables\<close>

definition run_ok :: "'a io \<Rightarrow> db \<Rightarrow> 'a \<Rightarrow> db \<Rightarrow> bool" where
  "run_ok m d a d' = (\<exists>s s'. db s = d \<and> m s = (Inr a, s') \<and> db s' = d')"

definition db_wp :: "'a io \<Rightarrow> ('a \<Rightarrow> db \<Rightarrow> bool) \<Rightarrow> db \<Rightarrow> bool" where
  "db_wp m Q d = (\<forall>a d'. run_ok m d a d' \<longrightarrow> Q a d')"

lemma db_wpI: "(\<And>s a s'. db s = d \<Longrightarrow> m s = (Inr a, s') \<Longrightarrow> Q a (db s')) \<Longrightarrow> db_wp m Q d"
  by (auto simp: db_wp_def run_ok_def)

lemma db_wpD: "db_wp m Q (db s) \<Longrightarrow> m s = (Inr a, s') \<Longrightarrow> Q a (db s')"
  by (auto simp: db_wp_def run_ok_def)

named_theorems vcg \<open>rules for db_wp\<close>

lemma db_wp_mono: "db_wp m Q d \<Longrightarrow> (\<And>a d'. Q a d' \<Longrightarrow> Q' a d') \<Longrightarrow> db_wp m Q' d"
  by (simp add: db_wp_def)

lemma db_wp_conj: "db_wp m Q d \<Longrightarrow> db_wp m Q' d \<Longrightarrow> db_wp m (\<lambda>a d'. Q a d' \<and> Q' a d') d"
  by (simp add: db_wp_def)

lemma db_wp_ret [vcg]: "Q a d \<Longrightarrow> db_wp (ret a) Q d"
  by (rule db_wpI) (simp add: ret_def)

lemma db_wp_throw [vcg]: "db_wp (throw e) Q d"
  by (rule db_wpI) (simp add: throw_def)

lemma db_wp_of_sum [vcg]: "(\<And>a. r = Inr a \<Longrightarrow> Q a d) \<Longrightarrow> db_wp (of_sum r) Q d"
  by (rule db_wpI) (simp add: of_sum_def)

lemma db_wp_bindE [vcg]: "db_wp m (\<lambda>a. db_wp (f a) Q) d \<Longrightarrow> db_wp (bindE m f) Q d"
proof (rule db_wpI)
  fix s a s'
  assume wp: "db_wp m (\<lambda>a. db_wp (f a) Q) d" and d: "db s = d" and r: "bindE m f s = (Inr a, s')"
  from r obtain b s1 where m: "m s = (Inr b, s1)" and f: "f b s1 = (Inr a, s')"
    by (auto simp: bindE_def split: prod.splits sum.splits)
  from wp d m have "db_wp (f b) Q (db s1)" by (auto dest: db_wpD)
  from this f show "Q a (db s')" by (rule db_wpD)
qed

lemma db_wp_if [vcg]:
  "(b \<Longrightarrow> db_wp m Q d) \<Longrightarrow> (\<not> b \<Longrightarrow> db_wp n Q d) \<Longrightarrow> db_wp (if b then m else n) Q d"
  by simp

lemma db_wp_option [vcg]:
  "(x = None \<Longrightarrow> db_wp m Q d) \<Longrightarrow> (\<And>a. x = Some a \<Longrightarrow> db_wp (f a) Q d)
   \<Longrightarrow> db_wp (case x of None \<Rightarrow> m | Some a \<Rightarrow> f a) Q d"
  by (cases x) simp_all

lemma db_wp_sum [vcg]:
  "(\<And>e. x = Inl e \<Longrightarrow> db_wp (f e) Q d) \<Longrightarrow> (\<And>a. x = Inr a \<Longrightarrow> db_wp (g a) Q d)
   \<Longrightarrow> db_wp (case x of Inl e \<Rightarrow> f e | Inr a \<Rightarrow> g a) Q d"
  by (cases x) simp_all

lemma db_wp_prod [vcg]:
  "(\<And>a b. x = (a, b) \<Longrightarrow> db_wp (f a b) Q d) \<Longrightarrow> db_wp (case x of (a, b) \<Rightarrow> f a b) Q d"
  by (cases x) simp

lemma db_wp_interact:
  assumes "\<And>s a s'. db s = d \<Longrightarrow> f s = (Inr a, s') \<Longrightarrow> Q a (db s')"
  shows "db_wp (interact f) Q d"
proof (rule db_wpI)
  fix s a s'
  assume "db s = d" and "interact f s = (Inr a, s')"
  then show "Q a (db s')"
    by (intro assms [of "tock s"]) (auto simp: interact_def split: option.splits)
qed

lemma db_wp_sql [vcg]:
  "(\<And>t a d'. f t d = Inr (a, d') \<Longrightarrow> Q a d') \<Longrightarrow> db_wp (sql f) Q d"
  unfolding sql_def
  by (rule db_wp_interact) (auto split: sum.splits prod.splits)

lemma db_wp_query [vcg]: "Q (f d) d \<Longrightarrow> db_wp (query f) Q d"
  unfolding query_def by (rule db_wp_sql) simp

lemma db_wp_insert_row [vcg]:
  "(\<And>i. refuse (mk i) d = None \<Longrightarrow> Q (mk i) (add (mk i) d)) \<Longrightarrow> db_wp (insert_row q mk refuse add) Q d"
  unfolding insert_row_def
  by (rule db_wp_interact) (auto simp: Let_def split: if_splits option.splits)

lemma db_wp_now [vcg]: "(\<And>t. Q t d) \<Longrightarrow> db_wp now Q d"
  by (rule db_wpI) (auto simp: now_def)

lemma db_wp_new_uuid [vcg]: "(\<And>t. Q t d) \<Longrightarrow> db_wp new_uuid Q d"
  by (rule db_wpI) (auto simp: new_uuid_def)

lemma db_wp_get_uint_conv [vcg]: "(\<And>c. Q c d) \<Longrightarrow> db_wp get_uint_conv Q d"
  by (rule db_wpI) (auto simp: get_uint_conv_def)

lemma db_wp_for_each:
  assumes "I xs d"
    and "\<And>x xs d. I (x # xs) d \<Longrightarrow> db_wp (f x) (\<lambda>_. I xs) d"
    and "\<And>d. I [] d \<Longrightarrow> Q () d"
  shows "db_wp (for_each f xs) Q d"
  using assms(1)
proof (induction xs arbitrary: d)
  case Nil
  then show ?case by (auto intro: db_wp_ret assms(3))
next
  case (Cons x xs)
  have "db_wp (f x) (\<lambda>_. I xs) d" using Cons.prems by (rule assms(2))
  then have "db_wp (f x) (\<lambda>_. db_wp (for_each f xs) Q) d" by (rule db_wp_mono) (rule Cons.IH)
  then show ?case by (simp add: db_wp_bindE)
qed

text \<open>Atomicity: a transaction either leaves the tables as they were, or applies one
  successful run of its body; it applies it if it reports success.\<close>

lemma transaction_atomic:
  fixes s :: sys
  assumes "transaction body s = (r, s')"
  shows "(\<exists>a. run_ok body (db s) a (db s') \<and> (r = Inr a \<or> (\<exists>e. r = Inl e)))
       \<or> (db s' = db s \<and> (\<exists>e. r = Inl e))"
proof (cases "fault (env s) (tick s)")
  case (Some m)
  with assms show ?thesis by (auto simp: transaction_def)
next
  case None
  obtain rb sb where b: "body (tock s) = (rb, sb)" by fastforce
  show ?thesis
  proof (cases rb)
    case (Inl e)
    with assms None b show ?thesis by (auto simp: transaction_def)
  next
    case (Inr a)
    have "run_ok body (db s) a (db sb)"
      unfolding run_ok_def using b Inr by (intro exI [of _ "tock s"] exI [of _ sb]) simp
    with assms None b Inr show ?thesis
      by (auto simp: transaction_def split: option.splits if_splits)
  qed
qed

lemma db_wp_transaction [vcg]: "db_wp body Q d \<Longrightarrow> db_wp (transaction body) Q d"
proof (rule db_wpI)
  fix s a s'
  assume wp: "db_wp body Q d" and d: "db s = d" and r: "transaction body s = (Inr a, s')"
  from transaction_atomic [OF r] have "run_ok body (db s) a (db s')" by auto
  with wp d show "Q a (db s')" by (simp add: db_wp_def)
qed

text \<open>A predicate on the tables that the successful runs of the body keep is kept by the
  transaction, also when it fails.\<close>

lemma transaction_preserves:
  "(\<And>d. J d \<Longrightarrow> db_wp body (\<lambda>_. J) d) \<Longrightarrow> preserves (\<lambda>s. J (db s)) (transaction body)"
proof (rule preservesI)
  fix s :: sys
  assume step: "\<And>d. J d \<Longrightarrow> db_wp body (\<lambda>_. J) d" and J: "J (db s)"
  obtain r s' where r: "transaction body s = (r, s')" by fastforce
  from transaction_atomic [OF r] step [OF J] J have "J (db s')"
    by (auto simp: db_wp_def)
  then show "wp (transaction body) (\<lambda>_ s. J (db s)) (\<lambda>_ s. J (db s)) s"
    by (simp add: wp_def r split: sum.split)
qed

lemma sql_preserves:
  "(\<And>t d a d'. J d \<Longrightarrow> f t d = Inr (a, d') \<Longrightarrow> J d') \<Longrightarrow> preserves (\<lambda>s. J (db s)) (sql f)"
  by (rule preservesI)
    (fastforce simp: wp_def sql_def interact_def split: option.splits sum.splits prod.splits)

lemma query_preserves [intro]: "preserves (\<lambda>s. J (db s)) (query f)"
  unfolding query_def by (rule sql_preserves) auto

lemma now_preserves [intro]: "preserves (\<lambda>s. J (db s)) now"
  by (rule preservesI) (simp add: wp_def now_def)

section \<open>Runs without faults\<close>

definition no_faults :: "env \<Rightarrow> bool" where
  "no_faults e = (\<forall>n. fault e n = None)"

lemma no_faultsD [simp]: "no_faults e \<Longrightarrow> fault e n = None"
  by (simp add: no_faults_def)

lemma wp_query_live: "no_faults (env s) \<Longrightarrow> wp (query f) Q E s = Q (f (db s)) (tock s)"
  by (simp add: wp_def interact_defs)

end
