(* ===== verification/Ledger.thy ===== *)
theory Ledger
  imports Store
begin

text \<open>
  Package \<open>internal/platform/ledger\<close>: the append-only stock ledger.  \<open>Append\<close> writes one
  movement inside the transaction of its caller.  Its rule says that a successful run adds
  exactly one row, at the end, and changes no other table; \<open>ledger_sum\<close> is the net movement
  of a product.
\<close>

definition ReasonHold :: string where "ReasonHold = ''hold''"
definition ReasonRelease :: string where "ReasonRelease = ''release''"
definition ReasonCommit :: string where "ReasonCommit = ''commit''"
definition ReasonAdjust :: string where "ReasonAdjust = ''adjust''"

lemmas ledger_consts [str_consts] =
  ReasonHold_def ReasonRelease_def ReasonCommit_def ReasonAdjust_def

lemma reason_distinct [simp]:
  "ReasonHold \<noteq> ReasonRelease" "ReasonHold \<noteq> ReasonCommit" "ReasonRelease \<noteq> ReasonHold"
  "ReasonRelease \<noteq> ReasonCommit" "ReasonCommit \<noteq> ReasonHold" "ReasonCommit \<noteq> ReasonRelease"
  by (simp_all add: str_consts)

definition ledger_refuse :: "LedgerEntry \<Rightarrow> db \<Rightarrow> string option" where
  "ledger_refuse e d = first_violation
     [check (le_ID e \<notin> set (map le_ID (stock_ledger d))) duplicate_key,
      check (is_int4 (le_Delta e) \<and> (case le_BalanceAfter e of None \<Rightarrow> True | Some b \<Rightarrow> is_int4 b))
        out_of_range,
      check (char_length (le_Reason e) \<le> 32) value_too_long,
      check (le_ProductID e \<in> set (map p_ID (products d))) foreign_key,
      check (case le_OrderID e of None \<Rightarrow> True | Some oid \<Rightarrow> oid \<in> set (map o_ID (orders d)))
        foreign_key]"

definition add_ledger :: "LedgerEntry \<Rightarrow> db \<Rightarrow> db" where
  "add_ledger e d = d\<lparr>stock_ledger := stock_ledger d @ [e]\<rparr>"

definition Append :: "uint \<Rightarrow> uint option \<Rightarrow> int \<Rightarrow> string \<Rightarrow> int option \<Rightarrow> unit io" where
  "Append productID orderID delta reason balanceAfter =
     bindE now (\<lambda>t.
     bindE (insert_row SeqLedger
              (\<lambda>i. \<lparr>le_ID = i, le_ProductID = productID, le_OrderID = orderID, le_Delta = delta,
                    le_Reason = reason, le_BalanceAfter = balanceAfter, le_CreatedAt = t\<rparr>)
              ledger_refuse add_ledger) (\<lambda>_.
     ret ()))"

lemma Append_rule [vcg]:
  assumes "\<And>e. le_ProductID e = productID \<Longrightarrow> le_OrderID e = orderID \<Longrightarrow> le_Delta e = delta
     \<Longrightarrow> le_Reason e = reason \<Longrightarrow> le_BalanceAfter e = balanceAfter \<Longrightarrow> ledger_refuse e d = None
     \<Longrightarrow> Q () (add_ledger e d)"
  shows "db_wp (Append productID orderID delta reason balanceAfter) Q d"
  unfolding Append_def by (intro vcg assms) simp_all

section \<open>Net movements\<close>

definition ledger_sum :: "uint \<Rightarrow> LedgerEntry list \<Rightarrow> int" where
  "ledger_sum pid es = sum_list (map le_Delta (filter (\<lambda>e. le_ProductID e = pid) es))"

definition ledger_order_sum :: "uint \<Rightarrow> uint \<Rightarrow> LedgerEntry list \<Rightarrow> int" where
  "ledger_order_sum pid oid es =
     sum_list (map le_Delta (filter (\<lambda>e. le_ProductID e = pid \<and> le_OrderID e = Some oid) es))"

lemma ledger_sum_append [table_simps]:
  "ledger_sum pid (es @ fs) = ledger_sum pid es + ledger_sum pid fs"
  by (simp add: ledger_sum_def)

lemma ledger_sum_Cons [table_simps]:
  "ledger_sum pid (e # es) = (if le_ProductID e = pid then le_Delta e else 0) + ledger_sum pid es"
  by (simp add: ledger_sum_def)

lemma ledger_sum_Nil [simp]: "ledger_sum pid [] = 0"
  by (simp add: ledger_sum_def)

lemma ledger_order_sum_append [table_simps]:
  "ledger_order_sum pid oid (es @ fs) = ledger_order_sum pid oid es + ledger_order_sum pid oid fs"
  by (simp add: ledger_order_sum_def)

lemma ledger_order_sum_Cons [table_simps]:
  "ledger_order_sum pid oid (e # es) =
     (if le_ProductID e = pid \<and> le_OrderID e = Some oid then le_Delta e else 0)
     + ledger_order_sum pid oid es"
  by (simp add: ledger_order_sum_def)

lemma ledger_order_sum_Nil [simp]: "ledger_order_sum pid oid [] = 0"
  by (simp add: ledger_order_sum_def)

end
