(* ===== verification/Kafka.thy ===== *)
theory Kafka
  imports Store
begin

text \<open>
  Package \<open>internal/platform/kafka\<close>: the event envelope, the producer and the decoding of
  a fetched message.  The broker is not part of the source: a topic is the list of the
  messages written to it, a write may fail, and a write whose acknowledgement is lost may
  have reached the topic.  A body that does not decode gives the zero \<open>Event\<close>.
\<close>

definition zero_time :: time where
  "zero_time = - 62135596800 * second"

definition zero_Event :: Event where
  "zero_Event = \<lparr>e_ID = [], e_Type = [], e_Payload = [], e_CreatedAt = zero_time\<rparr>"

definition NewEvent :: "string \<Rightarrow> (string \<times> goval) list \<Rightarrow> Event io" where
  "NewEvent eventType payload =
     bindE new_uuid (\<lambda>u. bindE now (\<lambda>t.
     ret \<lparr>e_ID = u, e_Type = eventType, e_Payload = payload, e_CreatedAt = t\<rparr>))"

definition marshal_event :: "Event \<Rightarrow> go_error + json" where
  "marshal_event e =
     marshal (GMap [(''id'', GStr (e_ID e)), (''type'', GStr (e_Type e)),
                    (''payload'', GMap (e_Payload e)), (''createdAt'', GTime (e_CreatedAt e))])"

text \<open>\<open>writer.WriteMessages\<close>\<close>

definition WriteMessages :: "wire \<Rightarrow> unit io" where
  "WriteMessages m s =
     (case fault (env s) (tick s) of
        None \<Rightarrow> (Inr (), (tock s)\<lparr>topic_products := topic_products s @ [m]\<rparr>)
      | Some msg \<Rightarrow>
          (Inl (Other msg),
           if commit_lost (env s) (tick s) then (tock s)\<lparr>topic_products := topic_products s @ [m]\<rparr>
           else tock s))"

definition Publish :: "string \<Rightarrow> Event \<Rightarrow> unit io" where
  "Publish key event =
     (case marshal_event event of
        Inl e \<Rightarrow> throw (Wrapped (''marshal event: '' @ error_text e) e)
      | Inr body \<Rightarrow>
          bindE (attempt (WriteMessages (key, Inl body))) (\<lambda>r.
          case r of
            Inl e \<Rightarrow> throw (Wrapped (''kafka write: '' @ error_text e) e)
          | Inr _ \<Rightarrow> ret ()))"

text \<open>\<open>json.Unmarshal(raw.Value, &event)\<close>: field names match without regard to case, an
  unknown field is ignored, \<open>null\<close> leaves a field alone, a value of another type is an
  error.\<close>

fun decode_field :: "string \<Rightarrow> json \<Rightarrow> Event \<Rightarrow> Event option" where
  "decode_field k j e =
     (let f = ToLower k in
      if j = JNull then
        (if f = ''payload'' then Some (e\<lparr>e_Payload := []\<rparr>) else Some e)
      else if f = ''id'' then
        (case j of JStr t \<Rightarrow> Some (e\<lparr>e_ID := t\<rparr>) | JTime t \<Rightarrow> Some (e\<lparr>e_ID := format_rfc3339 t\<rparr>)
         | _ \<Rightarrow> None)
      else if f = ''type'' then
        (case j of JStr t \<Rightarrow> Some (e\<lparr>e_Type := t\<rparr>) | JTime t \<Rightarrow> Some (e\<lparr>e_Type := format_rfc3339 t\<rparr>)
         | _ \<Rightarrow> None)
      else if f = ''payload'' then
        (case unmarshal_map (Inl j) of None \<Rightarrow> None
         | Some m \<Rightarrow> Some (e\<lparr>e_Payload := e_Payload e @ m\<rparr>))
      else if f = ''createdat'' then
        (case j of JTime t \<Rightarrow> Some (e\<lparr>e_CreatedAt := t\<rparr>) | _ \<Rightarrow> None)
      else Some e)"

fun decode_fields :: "(string \<times> json) list \<Rightarrow> Event \<Rightarrow> Event option" where
  "decode_fields [] e = Some e"
| "decode_fields ((k, j) # kjs) e =
     (case decode_field k j e of None \<Rightarrow> None | Some e' \<Rightarrow> decode_fields kjs e')"

definition unmarshal_event :: "bytes \<Rightarrow> Event option" where
  "unmarshal_event b =
     (case b of
        Inl (JObj kjs) \<Rightarrow> decode_fields kjs zero_Event
      | Inl JNull \<Rightarrow> Some zero_Event
      | _ \<Rightarrow> None)"

definition Fetch :: "wire \<Rightarrow> Message" where
  "Fetch m =
     \<lparr>msg_Event = (case unmarshal_event (snd m) of None \<Rightarrow> zero_Event | Some e \<Rightarrow> e),
      msg_rawBody = snd m\<rparr>"

section \<open>Correctness\<close>

lemma field_names [simp]:
  "ToLower ''id'' = ''id''" "ToLower ''type'' = ''type''" "ToLower ''payload'' = ''payload''"
  "ToLower ''createdAt'' = ''createdat''"
  by code_simp+

text \<open>What a consumer decodes from a published event: its identifier, type and time, and the
  payload with every number read as a \<open>float64\<close>.\<close>

lemma Fetch_published:
  assumes "marshal_event e = Inr body"
  obtains m where "marshal_fields (e_Payload e) = Inr m"
    and "msg_Event (Fetch (key, Inl body))
         = e\<lparr>e_Payload := map (\<lambda>(k, j). (k, unmarshal j)) m\<rparr>"
    and "msg_rawBody (Fetch (key, Inl body)) = Inl body"
proof -
  from assms obtain m where m: "marshal_fields (e_Payload e) = Inr m"
    and "body = JObj [(''id'', JStr (e_ID e)), (''type'', JStr (e_Type e)), (''payload'', JObj m),
                      (''createdAt'', JTime (e_CreatedAt e))]"
    by (auto simp: marshal_event_def split: sum.splits)
  then have "msg_Event (Fetch (key, Inl body)) = e\<lparr>e_Payload := map (\<lambda>(k, j). (k, unmarshal j)) m\<rparr>"
    by (simp add: Fetch_def unmarshal_event_def zero_Event_def unmarshal_map_def)
  with m show thesis by (rule that) (simp add: Fetch_def)
qed

lemma wp_WriteMessages [wp_simps]:
  "wp (WriteMessages m) Q E s =
     (case fault (env s) (tick s) of
        None \<Rightarrow> Q () ((tock s)\<lparr>topic_products := topic_products s @ [m]\<rparr>)
      | Some msg \<Rightarrow> E (Other msg)
          (if commit_lost (env s) (tick s) then (tock s)\<lparr>topic_products := topic_products s @ [m]\<rparr>
           else tock s))"
  by (simp add: wp_def WriteMessages_def split: option.split)

lemma Publish_db: "wp (Publish key event) (\<lambda>_ s'. db s' = db s) (\<lambda>_ s'. db s' = db s) s"
  by (simp add: Publish_def wp_simps split: sum.split option.split)

lemma db_wp_Publish [vcg]: "Q () d \<Longrightarrow> db_wp (Publish key event) Q d"
  by (rule db_wpI) (use wp_InrD [OF Publish_db] in fastforce)

text \<open>A publication that reports success has appended exactly the event; one that reports an
  error has appended it or nothing.\<close>

lemma Publish_topic:
  "wp (Publish key event)
     (\<lambda>_ s'. \<exists>body. marshal_event event = Inr body
              \<and> topic_products s' = topic_products s @ [(key, Inl body)])
     (\<lambda>_ s'. topic_products s' = topic_products s
           \<or> (\<exists>body. marshal_event event = Inr body
                \<and> topic_products s' = topic_products s @ [(key, Inl body)])) s"
  by (simp add: Publish_def wp_simps split: sum.split option.split)

end
