(* ===== verification/Redis.thy ===== *)
theory Redis
  imports Store
begin

text \<open>
  Package \<open>internal/platform/redis\<close>: \<open>Get\<close>, \<open>Set\<close> and \<open>Del\<close> of the client (connecting and
  closing are not modelled).  Redis is not part of the source: an entry is a value with an
  optional expiry; a time to live of 0 never expires; \<open>Get\<close> of a missing or expired key is
  the error \<open>redis.Nil\<close>; every call may fail.

  The interface \<open>kv_store\<close> is what the clients (the pause flag of the relay, the refresh
  token store, the product cache) rely on; its lemmas are the read-after-write facts.
\<close>

definition redis_nil :: go_error where "redis_nil = Other ''redis: nil''"

definition live :: "time \<Rightarrow> (cval \<times> time option) option \<Rightarrow> cval option" where
  "live t v = (case v of
       None \<Rightarrow> None
     | Some (c, None) \<Rightarrow> Some c
     | Some (c, Some x) \<Rightarrow> if t < x then Some c else None)"

definition redis_get :: "string \<Rightarrow> cval io" where
  "redis_get k = interact (\<lambda>s. case live (clock (env s) (tick s)) (redis s k) of
                                 None \<Rightarrow> (Inl redis_nil, s)
                               | Some v \<Rightarrow> (Inr v, s))"

definition redis_set :: "string \<Rightarrow> cval \<Rightarrow> duration \<Rightarrow> unit io" where
  "redis_set k v ttl = interact (\<lambda>s.
     (Inr (), s\<lparr>redis := (redis s)(k \<mapsto>
        (v, if ttl \<le> 0 then None else Some (clock (env s) (tick s) + ttl)))\<rparr>))"

definition redis_del :: "string list \<Rightarrow> unit io" where
  "redis_del ks = interact (\<lambda>s.
     (Inr (), s\<lparr>redis := (\<lambda>k. if k \<in> set ks then None else redis s k)\<rparr>))"

text \<open>The key-value part of the state; no other part changes.\<close>

definition frame :: "sys \<Rightarrow> sys \<Rightarrow> bool" where
  "frame s s' = (env s' = env s \<and> db s' = db s \<and> seqs s' = seqs s
     \<and> topic_products s' = topic_products s \<and> topic_dlq s' = topic_dlq s \<and> mongo s' = mongo s
     \<and> jobs s' = jobs s \<and> relay_paused s' = relay_paused s)"

lemma frame_refl [simp]: "frame s s"
  by (simp add: frame_def)

lemma frame_tock [simp]: "frame s (tock s)"
  by (simp add: frame_def)

lemma frame_trans: "frame s s' \<Longrightarrow> frame s' s'' \<Longrightarrow> frame s s''"
  by (simp add: frame_def)

locale kv_store =
  fixes get :: "string \<Rightarrow> cval io"
    and put :: "string \<Rightarrow> cval \<Rightarrow> duration \<Rightarrow> unit io"
    and del :: "string list \<Rightarrow> unit io"
    and entries :: "sys \<Rightarrow> string \<Rightarrow> (cval \<times> time option) option"
  assumes get_law: "wp (get k)
       (\<lambda>v s'. frame s s' \<and> entries s' = entries s \<and> (\<exists>x. entries s k = Some (v, x)))
       (\<lambda>_ s'. frame s s' \<and> entries s' = entries s) s"
    and put_law: "wp (put k v ttl)
       (\<lambda>_ s'. frame s s' \<and> (\<exists>x. entries s' = (entries s)(k \<mapsto> (v, x))))
       (\<lambda>_ s'. frame s s' \<and> entries s' = entries s) s"
    and del_law: "wp (del ks)
       (\<lambda>_ s'. frame s s' \<and> entries s' = (\<lambda>k. if k \<in> set ks then None else entries s k))
       (\<lambda>_ s'. frame s s' \<and> entries s' = entries s) s"
begin

lemma get_value: "get k s = (Inr v, s') \<Longrightarrow> \<exists>x. entries s k = Some (v, x)"
  using get_law by (fastforce dest: wp_InrD)

lemma get_after_del:
  assumes "del ks s = (Inr (), s1)" and "k \<in> set ks" and "entries s2 = entries s1"
  shows "get k s2 \<noteq> (Inr v, s3)"
proof
  assume "get k s2 = (Inr v, s3)"
  from get_value [OF this] assms(3) obtain x where "entries s1 k = Some (v, x)" by auto
  moreover from wp_InrD [OF del_law assms(1)] assms(2) have "entries s1 k = None" by simp
  ultimately show False by simp
qed

lemma get_after_put:
  assumes "put k v ttl s = (Inr (), s1)" and "entries s2 = entries s1" and "get k s2 = (Inr w, s3)"
  shows "w = v"
proof -
  from wp_InrD [OF put_law assms(1)] obtain x where "entries s1 k = Some (v, x)" by auto
  moreover from get_value [OF assms(3)] assms(2) obtain y where "entries s1 k = Some (w, y)" by auto
  ultimately show ?thesis by simp
qed

text \<open>A property of all entries is kept by deletions and by writes of values that have it.\<close>

definition entries_ok :: "(string \<Rightarrow> cval \<Rightarrow> bool) \<Rightarrow> sys \<Rightarrow> bool" where
  "entries_ok P s = (\<forall>k v x. entries s k = Some (v, x) \<longrightarrow> P k v)"

lemma entries_ok_put: "entries_ok P s \<Longrightarrow> P k v \<Longrightarrow>
    wp (put k v ttl) (\<lambda>_. entries_ok P) (\<lambda>_. entries_ok P) s"
  by (rule wp_mono [OF put_law]) (auto simp: entries_ok_def split: if_splits)

lemma entries_ok_del: "entries_ok P s \<Longrightarrow> wp (del ks) (\<lambda>_. entries_ok P) (\<lambda>_. entries_ok P) s"
  by (rule wp_mono [OF del_law]) (auto simp: entries_ok_def)

lemma entries_ok_get: "entries_ok P s \<Longrightarrow>
    wp (get k) (\<lambda>v s'. P k v \<and> entries_ok P s') (\<lambda>_. entries_ok P) s"
  by (rule wp_mono [OF get_law]) (auto simp: entries_ok_def)

end

interpretation rd: kv_store redis_get redis_set redis_del redis
proof unfold_locales
  show "wp (redis_get k)
       (\<lambda>v s'. frame s s' \<and> redis s' = redis s \<and> (\<exists>x. redis s k = Some (v, x)))
       (\<lambda>_ s'. frame s s' \<and> redis s' = redis s) s" for k s
    by (auto simp: wp_def redis_get_def interact_def live_def split: option.splits if_splits)
next
  show "wp (redis_set k v ttl)
       (\<lambda>_ s'. frame s s' \<and> (\<exists>x. redis s' = (redis s)(k \<mapsto> (v, x))))
       (\<lambda>_ s'. frame s s' \<and> redis s' = redis s) s" for k v ttl s
    by (auto simp: wp_def redis_set_def interact_def frame_def split: option.splits)
next
  show "wp (redis_del ks)
       (\<lambda>_ s'. frame s s' \<and> redis s' = (\<lambda>k. if k \<in> set ks then None else redis s k))
       (\<lambda>_ s'. frame s s' \<and> redis s' = redis s) s" for ks s
    by (auto simp: wp_def redis_del_def interact_def frame_def split: option.splits)
qed

lemma db_wp_redis_get [vcg]: "(\<And>v. Q v d) \<Longrightarrow> db_wp (redis_get k) Q d"
  by (rule db_wpI) (auto simp: redis_get_def interact_def split: option.splits)

lemma db_wp_redis_set [vcg]: "Q () d \<Longrightarrow> db_wp (redis_set k v ttl) Q d"
  by (rule db_wpI) (auto simp: redis_set_def interact_def split: option.splits)

lemma db_wp_redis_del [vcg]: "Q () d \<Longrightarrow> db_wp (redis_del ks) Q d"
  by (rule db_wpI) (auto simp: redis_del_def interact_def split: option.splits)

end
