(* ===== verification/Outbox.thy ===== *)
theory Outbox
  imports Kafka Redis
begin

text \<open>
  Package \<open>internal/platform/outbox\<close>: the transactional outbox.

  \<open>Enqueue\<close> inserts an unpublished event row in the transaction of its caller; the relay
  publishes unpublished rows, oldest first and at most \<open>batchSize\<close> per cycle, and marks a
  row after its publication.  The mutex of \<open>RelayOnce\<close> makes a cycle atomic with respect
  to the other cycles of the process; the row locks of \<open>SKIP LOCKED\<close> are released when the
  statement ends, so they are not modelled.  The pause flag is shared through Redis
  (\<open>PauseStore\<close>) with a local mirror as the fallback.

  Two interfaces: \<open>publisher\<close> (what the relay needs of a producer; interpreted on the Kafka
  producer) and \<open>live_publisher\<close>, which adds that a publication succeeds when the broker
  does not fail.  The lemmas on the relay: an event is marked only after it was
  published (\<open>relay_inv\<close>), a cycle changes no other column, and without faults it publishes
  the batch in order.
\<close>

section \<open>Writer\<close>

definition outbox_refuse :: "EventRow \<Rightarrow> db \<Rightarrow> string option" where
  "outbox_refuse r d = first_violation
     [check (ev_ID r \<notin> set (map ev_ID (outbox_events d))) duplicate_key,
      check (ev_EventID r \<notin> set (map ev_EventID (outbox_events d))) duplicate_key,
      check (char_length (ev_AggregateType r) \<le> 64) value_too_long,
      check (char_length (ev_EventType r) \<le> 64) value_too_long]"

definition add_outbox :: "EventRow \<Rightarrow> db \<Rightarrow> db" where
  "add_outbox r d = d\<lparr>outbox_events := outbox_events d @ [r]\<rparr>"

definition Enqueue :: "string \<Rightarrow> uint \<Rightarrow> string \<Rightarrow> (string \<times> goval) list \<Rightarrow> string io" where
  "Enqueue aggregateType aggregateID eventType payload =
     (case marshal (GMap payload) of
        Inl e \<Rightarrow> throw (Wrapped (''marshal outbox payload: '' @ error_text e) e)
      | Inr body \<Rightarrow>
          bindE new_uuid (\<lambda>eventID. bindE now (\<lambda>t.
          bindE (insert_row SeqOutbox
                   (\<lambda>i. \<lparr>ev_ID = i, ev_EventID = eventID, ev_AggregateType = aggregateType,
                         ev_AggregateID = aggregateID, ev_EventType = eventType,
                         ev_Payload = body, ev_CreatedAt = t, ev_PublishedAt = None\<rparr>)
                   outbox_refuse add_outbox) (\<lambda>_.
          ret eventID))))"

text \<open>What a successful \<open>Enqueue\<close> adds: one unpublished row that carries the payload.\<close>

definition enqueued :: "string \<Rightarrow> uint \<Rightarrow> string \<Rightarrow> (string \<times> goval) list \<Rightarrow> EventRow \<Rightarrow> bool" where
  "enqueued aggregateType aggregateID eventType payload r =
     (ev_AggregateType r = aggregateType \<and> ev_AggregateID r = aggregateID
      \<and> ev_EventType r = eventType \<and> marshal (GMap payload) = Inr (ev_Payload r)
      \<and> ev_PublishedAt r = None)"

lemma Enqueue_rule [vcg]:
  assumes "\<And>r. enqueued ty i ev payload r \<Longrightarrow> outbox_refuse r d = None
     \<Longrightarrow> Q (ev_EventID r) (add_outbox r d)"
  shows "db_wp (Enqueue ty i ev payload) Q d"
  unfolding Enqueue_def
proof (intro vcg, goal_cases)
  case (1 body u t i)
  from assms [OF _ 1(2)] 1(1) show ?case by (simp add: enqueued_def)
qed

section \<open>Relay\<close>

type_synonym publish = "string \<Rightarrow> Event \<Rightarrow> unit io"

definition batchSize :: nat where "batchSize = 50"

definition pauseKey :: string where "pauseKey = ''outbox:relay:paused''"

definition set_relay_paused :: "bool \<Rightarrow> unit io" where
  "set_relay_paused b s = (Inr (), s\<lparr>relay_paused := b\<rparr>)"

definition get_relay_paused :: "bool io" where
  "get_relay_paused s = (Inr (relay_paused s), s)"

definition SetPaused :: "bool \<Rightarrow> bool \<Rightarrow> unit io" where
  "SetPaused has_store paused =
     bindE (set_relay_paused paused) (\<lambda>_.
     if \<not> has_store then ret ()
     else ignore (redis_set pauseKey (CStr (if paused then ''1'' else ''0'')) 0))"

definition Paused :: "bool \<Rightarrow> bool io" where
  "Paused has_store =
     (if has_store
      then bindE (attempt (redis_get pauseKey)) (\<lambda>r.
           case r of
             Inr v \<Rightarrow> ret (v = CStr ''1'')
           | Inl _ \<Rightarrow> get_relay_paused)
      else get_relay_paused)"

definition unpublished :: "EventRow \<Rightarrow> bool" where
  "unpublished r = (ev_PublishedAt r = None)"

definition PendingCount :: "nat io" where
  "PendingCount = query (\<lambda>d. length (filter unpublished (outbox_events d)))"

definition ListPending :: "int \<Rightarrow> EventRow list io" where
  "ListPending limit =
     (let limit = (if limit \<le> 0 \<or> 100 < limit then 20 else limit)
      in query (\<lambda>d. take (nat limit) (sort_key ev_CreatedAt (filter unpublished (outbox_events d)))))"

definition select_batch :: "db \<Rightarrow> EventRow list" where
  "select_batch d = take batchSize (sort_key ev_CreatedAt (filter unpublished (outbox_events d)))"

definition row_event :: "EventRow \<Rightarrow> (string \<times> goval) list \<Rightarrow> Event" where
  "row_event r payload =
     \<lparr>e_ID = ev_EventID r, e_Type = ev_EventType r, e_Payload = payload,
      e_CreatedAt = ev_CreatedAt r\<rparr>"

definition row_key :: "EventRow \<Rightarrow> string" where
  "row_key r = ev_AggregateType r @ '':'' @ show_uint (ev_AggregateID r)"

definition mark_published :: "uint \<Rightarrow> time \<Rightarrow> db \<Rightarrow> db" where
  "mark_published i t d =
     d\<lparr>outbox_events := update_where (\<lambda>r. ev_ID r = i \<and> unpublished r)
                          (\<lambda>r. r\<lparr>ev_PublishedAt := Some t\<rparr>) (outbox_events d)\<rparr>"

definition update_published :: "uint \<Rightarrow> time \<Rightarrow> nat io" where
  "update_published i t =
     sql (\<lambda>_ d. Inr (length (filter (\<lambda>r. ev_ID r = i \<and> unpublished r) (outbox_events d)),
                     mark_published i t d))"

primrec relay_rows :: "publish \<Rightarrow> EventRow list \<Rightarrow> nat \<Rightarrow> (nat \<times> go_error option) io" where
  "relay_rows publish [] published = ret (published, None)"
| "relay_rows publish (row # rows) published =
     (case unmarshal_map (Inl (ev_Payload row)) of
        None \<Rightarrow> relay_rows publish rows published
      | Some payload \<Rightarrow>
          bindE (attempt (publish (row_key row) (row_event row payload))) (\<lambda>r.
          case r of
            Inl e \<Rightarrow> ret (published, Some (Wrapped (''publish '' @ ev_EventID row @ '': '' @ error_text e) e))
          | Inr _ \<Rightarrow>
              bindE now (\<lambda>t.
              bindE (attempt (update_published (ev_ID row) t)) (\<lambda>r.
              case r of
                Inl e \<Rightarrow> ret (published, Some e)
              | Inr n \<Rightarrow> relay_rows publish rows (if n = 0 then published else Suc published)))))"

definition RelayOnce :: "publish \<Rightarrow> (nat \<times> go_error option) io" where
  "RelayOnce publish =
     bindE (attempt (query select_batch)) (\<lambda>r.
     case r of
       Inl e \<Rightarrow> ret (0, Some e)
     | Inr rows \<Rightarrow>
         if rows = [] then ret (0, None)
         else bindE (attempt PendingCount) (\<lambda>_. relay_rows publish rows 0))"

text \<open>One tick of \<open>Run\<close>.\<close>

definition relay_tick :: "bool \<Rightarrow> publish \<Rightarrow> unit io" where
  "relay_tick has_store publish =
     bindE (Paused has_store) (\<lambda>p.
     if p then ret () else bindE (RelayOnce publish) (\<lambda>_. ret ()))"


section \<open>The relay and its publisher\<close>

definition strip :: "EventRow \<Rightarrow> EventRow" where
  "strip r = r\<lparr>ev_PublishedAt := None\<rparr>"

lemma strip_simps [simp]:
  "ev_ID (strip r) = ev_ID r" "ev_EventID (strip r) = ev_EventID r"
  "ev_EventType (strip r) = ev_EventType r" "ev_AggregateID (strip r) = ev_AggregateID r"
  "ev_AggregateType (strip r) = ev_AggregateType r" "ev_Payload (strip r) = ev_Payload r"
  "ev_CreatedAt (strip r) = ev_CreatedAt r" "strip (r\<lparr>ev_PublishedAt := p\<rparr>) = strip r"
  by (simp_all add: strip_def)

lemma strip_unpublished [simp]: "unpublished r \<Longrightarrow> strip r = r"
  by (simp add: strip_def unpublished_def)

definition outbox_ok :: "db \<Rightarrow> bool" where
  "outbox_ok d = (distinct (map ev_ID (outbox_events d)) \<and> distinct (map ev_EventID (outbox_events d)))"

lemma outbox_mark [simp]:
  "map strip (outbox_events (mark_published i t d)) = map strip (outbox_events d)"
  "map ev_ID (outbox_events (mark_published i t d)) = map ev_ID (outbox_events d)"
  "map ev_EventID (outbox_events (mark_published i t d)) = map ev_EventID (outbox_events d)"
  by (simp_all add: mark_published_def table_simps)

text \<open>What a cycle may do to the tables: mark unpublished rows of the outbox.\<close>

definition marked :: "EventRow \<Rightarrow> EventRow \<Rightarrow> bool" where
  "marked r r' = (r' = r \<or> unpublished r \<and> ev_PublishedAt r' \<noteq> None \<and> strip r' = strip r)"

definition relayed :: "db \<Rightarrow> db \<Rightarrow> bool" where
  "relayed d d' = (\<exists>rows. d' = d\<lparr>outbox_events := rows\<rparr> \<and> list_all2 marked (outbox_events d) rows)"

lemma marked_refl [simp]: "marked r r"
  by (simp add: marked_def)

lemma marked_trans: "marked a b \<Longrightarrow> marked b c \<Longrightarrow> marked a c"
  by (auto simp: marked_def)

lemma relayed_refl [simp]: "relayed d d"
  by (auto simp: relayed_def list_all2_refl intro!: exI [of _ "outbox_events d"])

lemma relayed_trans: "relayed a b \<Longrightarrow> relayed b c \<Longrightarrow> relayed a c"
proof -
  have "list_all2 marked xs ys \<Longrightarrow> list_all2 marked ys zs \<Longrightarrow> list_all2 marked xs zs" for xs ys zs
    by (rule list_all2_trans [of marked marked marked]) (rule marked_trans)
  then show "relayed a b \<Longrightarrow> relayed b c \<Longrightarrow> ?thesis" by (fastforce simp: relayed_def)
qed

lemma relayed_mark [simp]: "relayed d (mark_published i t d)"
proof -
  have "list_all2 marked rows
      (update_where (\<lambda>r. ev_ID r = i \<and> unpublished r) (\<lambda>r. r\<lparr>ev_PublishedAt := Some t\<rparr>) rows)" for rows
    by (induction rows) (auto simp: marked_def)
  then show ?thesis by (auto simp: relayed_def mark_published_def)
qed

lemma relayed_strip: "relayed d d' \<Longrightarrow> map strip (outbox_events d') = map strip (outbox_events d)"
proof -
  have "list_all2 marked rows rows' \<Longrightarrow> map strip rows' = map strip rows" for rows rows'
    by (induction rows rows' rule: list_all2_induct) (auto simp: marked_def)
  then show "relayed d d' \<Longrightarrow> ?thesis" by (auto simp: relayed_def)
qed

lemma outbox_ok_mark [simp]: "outbox_ok (mark_published i t d) = outbox_ok d"
  by (simp add: outbox_ok_def)

lemma outbox_ok_add:
  "outbox_ok d \<Longrightarrow> outbox_refuse r d = None \<Longrightarrow> outbox_ok (add_outbox r d)"
  by (auto simp: outbox_ok_def outbox_refuse_def add_outbox_def)

lemma wp_update_published:
  assumes "Q (length (filter (\<lambda>r. ev_ID r = i \<and> unpublished r) (outbox_events (db s))))
             ((tock s)\<lparr>db := mark_published i t (db s)\<rparr>)"
    and "\<And>m. E (Other m) (tock s)"
  shows "wp (update_published i t) Q E s"
  using assms by (simp add: update_published_def wp_def interact_defs split: option.split)

lemma set_select_batch: "set (select_batch d) \<subseteq> set (outbox_events d)"
  unfolding select_batch_def by (rule subset_trans [OF set_take_subset]) auto

lemma select_batch_unpublished: "r \<in> set (select_batch d) \<Longrightarrow> unpublished r"
  unfolding select_batch_def by (auto dest!: in_set_takeD)

lemma select_batch_distinct: "outbox_ok d \<Longrightarrow> distinct (map ev_ID (select_batch d))"
proof -
  assume ok: "outbox_ok d"
  have "distinct (map ev_ID (sort_key ev_CreatedAt (filter unpublished (outbox_events d))))"
    using ok by (auto simp: outbox_ok_def distinct_map distinct_sort intro: inj_on_subset)
  then show ?thesis unfolding select_batch_def by (simp add: take_map [symmetric])
qed

locale publisher =
  fixes publish :: publish
    and encode :: "string \<Rightarrow> Event \<Rightarrow> wire option"
  assumes publish_effect:
    "wp (publish k e)
       (\<lambda>_ s'. db s' = db s \<and> env s' = env s
             \<and> (\<exists>m. encode k e = Some m \<and> topic_products s' = topic_products s @ [m]))
       (\<lambda>_ s'. db s' = db s \<and> env s' = env s
             \<and> (topic_products s' = topic_products s
                \<or> (\<exists>m. encode k e = Some m \<and> topic_products s' = topic_products s @ [m]))) s"
begin

definition row_wire :: "EventRow \<Rightarrow> wire option" where
  "row_wire r = (case unmarshal_map (Inl (ev_Payload r)) of
       None \<Rightarrow> None | Some payload \<Rightarrow> encode (row_key r) (row_event r payload))"

definition relay_inv :: "sys \<Rightarrow> bool" where
  "relay_inv s = (\<forall>r\<in>set (outbox_events (db s)). \<not> unpublished r
       \<longrightarrow> (\<exists>m. row_wire r = Some m \<and> m \<in> set (topic_products s)))"

lemma row_strip [simp]: "row_key (strip r) = row_key r" "row_event (strip r) p = row_event r p"
  by (simp_all add: row_key_def row_event_def)

lemma row_wire_strip: "row_wire (strip r) = row_wire r"
  by (simp add: row_wire_def split: option.split)

lemma relay_inv_tock [simp]: "relay_inv (tock s) = relay_inv s"
  by (simp add: relay_inv_def)

lemma relay_inv_mono:
  "relay_inv s \<Longrightarrow> db s' = db s \<Longrightarrow> set (topic_products s) \<subseteq> set (topic_products s') \<Longrightarrow> relay_inv s'"
  by (fastforce simp: relay_inv_def)

text \<open>Marking a row whose message is on the topic keeps the invariant.\<close>

lemma relay_inv_mark:
  assumes "relay_inv s" and "outbox_ok (db s)" and "strip row \<in> strip ` set (outbox_events (db s))"
    and "row_wire row = Some m" and "m \<in> set (topic_products s)"
  shows "relay_inv (s\<lparr>db := mark_published (ev_ID row) t (db s)\<rparr>)"
  unfolding relay_inv_def
proof (intro ballI impI)
  fix r'
  assume "r' \<in> set (outbox_events (db (s\<lparr>db := mark_published (ev_ID row) t (db s)\<rparr>)))"
    and "\<not> unpublished r'"
  then have "r' \<in> set (update_where (\<lambda>r. ev_ID r = ev_ID row \<and> unpublished r)
                          (\<lambda>r. r\<lparr>ev_PublishedAt := Some t\<rparr>) (outbox_events (db s)))"
    by (simp add: mark_published_def)
  then show "\<exists>m. row_wire r' = Some m
      \<and> m \<in> set (topic_products (s\<lparr>db := mark_published (ev_ID row) t (db s)\<rparr>))"
  proof (cases rule: in_update_whereE)
    case (1 r)
    from assms(3) obtain r0 where r0: "r0 \<in> set (outbox_events (db s))" "strip row = strip r0"
      by auto
    then have "ev_ID r0 = ev_ID row" by (metis strip_simps(1))
    with 1 r0 assms(2) have "r = r0" by (auto simp: outbox_ok_def intro: key_unique [of ev_ID])
    with 1 r0 have "strip r' = strip row" by simp
    with assms(4) have "row_wire r' = Some m" by (metis row_wire_strip)
    with assms(5) show ?thesis by simp
  next
    case 2
    with assms(1) \<open>\<not> unpublished r'\<close> show ?thesis by (simp add: relay_inv_def)
  qed
qed

definition rows_known :: "EventRow list \<Rightarrow> EventRow list \<Rightarrow> bool" where
  "rows_known rows table = (\<forall>row\<in>set rows. strip row \<in> set (map strip table))"

lemma relay_rows_inv:
  assumes "relay_inv s" and "outbox_ok (db s)" and "rows_known rows (outbox_events (db s))"
  shows "wp (relay_rows publish rows n)
           (\<lambda>_ s'. relay_inv s' \<and> outbox_ok (db s')
                \<and> relayed (db s) (db s'))
           (\<lambda>_ _. False) s"
  using assms
proof (induction rows arbitrary: n s)
  case Nil
  then show ?case by (simp add: wp_simps)
next
  case (Cons row rows)
  show ?case
  proof (cases "unmarshal_map (Inl (ev_Payload row))")
    case None
    from Cons.prems(3) have "rows_known rows (outbox_events (db s))" by (simp add: rows_known_def)
    from Cons.IH [OF Cons.prems(1,2) this] None show ?thesis by simp
  next
    case (Some payload)
    let ?Q = "\<lambda>s'. relay_inv s' \<and> outbox_ok (db s')
                \<and> relayed (db s) (db s')"
    have mark: "wp (update_published (ev_ID row) t)
                  (\<lambda>k. wp (relay_rows publish rows (if k = 0 then n else Suc n)) (\<lambda>_. ?Q) (\<lambda>_ _. False))
                  (\<lambda>e. wp (ret (n, Some e)) (\<lambda>_. ?Q) (\<lambda>_ _. False)) s2"
      if s2: "db s2 = db s" "relay_inv s2" "encode (row_key row) (row_event row payload) = Some m"
        "m \<in> set (topic_products s2)" for s2 t m
    proof (rule wp_update_published)
      let ?s3 = "(tock s2)\<lparr>db := mark_published (ev_ID row) t (db s2)\<rparr>"
      have "relay_inv ?s3"
        using relay_inv_mark [of "tock s2" row m t] s2 Cons.prems Some
        by (auto simp: row_wire_def rows_known_def)
      moreover have "rows_known rows (outbox_events (db ?s3))" "outbox_ok (db ?s3)"
        using Cons.prems s2(1) by (simp_all add: rows_known_def del: set_map)
      ultimately show "wp (relay_rows publish rows
          (if length (filter (\<lambda>r. ev_ID r = ev_ID row \<and> unpublished r) (outbox_events (db s2))) = 0
           then n else Suc n)) (\<lambda>_. ?Q) (\<lambda>_ _. False) ?s3"
        using s2(1) relayed_trans [OF relayed_mark]
        by (intro wp_mono [OF Cons.IH [of ?s3]]) auto
    qed (use s2 Cons.prems in \<open>auto simp: wp_simps\<close>)
    have "wp (publish (row_key row) (row_event row payload))
            (\<lambda>_ s1. db s1 = db s \<and> relay_inv s1
                \<and> (\<exists>m. encode (row_key row) (row_event row payload) = Some m
                       \<and> m \<in> set (topic_products s1)))
            (\<lambda>_. ?Q) s"
      using Cons.prems(1,2)
      by (intro wp_mono [OF publish_effect]) (auto elim!: relay_inv_mono)
    then show ?thesis
      using Some
      by (auto simp: wp_simps intro!: mark elim!: wp_mono)
  qed
qed

text \<open>Everything a cycle puts on the topic is the message of a row of the outbox.\<close>

definition from_rows :: "EventRow set \<Rightarrow> sys \<Rightarrow> sys \<Rightarrow> bool" where
  "from_rows R s s' = (\<forall>w\<in>set (topic_products s').
     w \<in> set (topic_products s) \<or> (\<exists>row\<in>R. row_wire row = Some w))"

lemma from_rows_cong [simp]:
  "from_rows R s (tock s1) = from_rows R s s1" "from_rows R s (s1\<lparr>db := d\<rparr>) = from_rows R s s1"
  by (simp_all add: from_rows_def)

lemma from_rows_trans: "from_rows R s s1 \<Longrightarrow> from_rows R s1 s2 \<Longrightarrow> from_rows R s s2"
  unfolding from_rows_def by blast

lemma relay_rows_topic:
  "set rows \<subseteq> R \<Longrightarrow> wp (relay_rows publish rows n) (\<lambda>_. from_rows R s) (\<lambda>_ _. False) s"
proof (induction rows arbitrary: n s)
  case Nil
  then show ?case by (simp add: wp_simps from_rows_def)
next
  case (Cons row rows)
  have tail: "wp (relay_rows publish rows k) (\<lambda>_. from_rows R s) (\<lambda>_ _. False) s2"
    if "from_rows R s s2" for s2 k
    using Cons.prems from_rows_trans [OF that] by (intro wp_mono [OF Cons.IH]) auto
  have pub: "wp (publish (row_key row) (row_event row payload)) (\<lambda>_. from_rows R s) (\<lambda>_. from_rows R s) s"
    if "unmarshal_map (Inl (ev_Payload row)) = Some payload" for payload
  proof -
    have wire: "row \<in> R" "row_wire row = encode (row_key row) (row_event row payload)"
      using Cons.prems that by (simp_all add: row_wire_def)
    have new: "from_rows R s s1" if "encode (row_key row) (row_event row payload) = Some m"
      "topic_products s1 = topic_products s @ [m]" for m s1
      using that wire unfolding from_rows_def by auto
    have "from_rows R s s1" if "topic_products s1 = topic_products s" for s1
      using that by (simp add: from_rows_def)
    with new show ?thesis by (intro wp_mono [OF publish_effect]) blast+
  qed
  show ?case
  proof (cases "unmarshal_map (Inl (ev_Payload row))")
    case None
    have "from_rows R s s" by (simp add: from_rows_def)
    with None show ?thesis by (simp add: tail)
  next
    case (Some payload)
    then show ?thesis
      by (auto simp: wp_simps intro!: wp_mono [OF pub] wp_update_published tail)
  qed
qed

lemma RelayOnce_topic:
  "wp (RelayOnce publish) (\<lambda>_. from_rows (set (outbox_events (db s))) s) (\<lambda>_ _. False) s"
proof -
  have "wp (relay_rows publish (select_batch (db s)) 0)
      (\<lambda>_. from_rows (set (outbox_events (db s))) (tock (tock s))) (\<lambda>_ _. False) (tock (tock s))"
    by (rule relay_rows_topic) (rule set_select_batch)
  then show ?thesis
    unfolding RelayOnce_def PendingCount_def
    by (auto simp: wp_simps from_rows_def intro!: wp_query elim!: wp_mono)
qed

text \<open>A cycle keeps "marked implies published" and every column but the mark, whatever
  fails.\<close>

lemma RelayOnce_inv:
  assumes "relay_inv s" and "outbox_ok (db s)"
  shows "wp (RelayOnce publish)
           (\<lambda>_ s'. relay_inv s' \<and> outbox_ok (db s')
                \<and> relayed (db s) (db s'))
           (\<lambda>_ _. False) s"
proof -
  have known: "rows_known (select_batch (db s)) (outbox_events (db s))"
    using set_select_batch by (fastforce simp: rows_known_def)
  note rows = relay_rows_inv [of "tock (tock s)" "select_batch (db s)" 0]
  show ?thesis
    unfolding RelayOnce_def PendingCount_def
    using assms known rows by (auto simp: wp_simps intro!: wp_query)
qed

end

text \<open>Without faults a cycle publishes its whole batch, in order, and marks it.\<close>

locale live_publisher = publisher +
  assumes publish_live: "no_faults (env s) \<Longrightarrow> encode k e = Some m \<Longrightarrow>
    wp (publish k e)
      (\<lambda>_ s'. db s' = db s \<and> env s' = env s \<and> topic_products s' = topic_products s @ [m])
      (\<lambda>_ _. False) s"
begin

definition drained :: "EventRow list \<Rightarrow> wire list \<Rightarrow> sys \<Rightarrow> sys \<Rightarrow> bool" where
  "drained rows ms s s' = (topic_products s' = topic_products s @ ms \<and> env s' = env s
     \<and> outbox_ok (db s') = outbox_ok (db s)
     \<and> filter unpublished (outbox_events (db s'))
       = filter (\<lambda>r. ev_ID r \<notin> ev_ID ` set rows) (filter unpublished (outbox_events (db s))))"

lemma drainedD:
  assumes "drained rows ms s s'" and "r \<in> set (outbox_events (db s'))" and "unpublished r"
  shows "r \<in> set (outbox_events (db s)) \<and> ev_ID r \<notin> ev_ID ` set rows"
proof -
  have "r \<in> set (filter unpublished (outbox_events (db s')))" using assms(2,3) by simp
  with assms(1) show ?thesis unfolding drained_def by auto
qed

lemma pending_mark:
  "filter unpublished (outbox_events (mark_published i t d))
   = filter (\<lambda>r. ev_ID r \<noteq> i) (filter unpublished (outbox_events d))"
proof -
  have "filter unpublished (update_where (\<lambda>r. ev_ID r = i \<and> unpublished r) (\<lambda>r. r\<lparr>ev_PublishedAt := Some t\<rparr>) rows)
      = filter (\<lambda>r. ev_ID r \<noteq> i) (filter unpublished rows)" for rows
    by (induction rows) (auto simp: unpublished_def)
  then show ?thesis by (simp add: mark_published_def)
qed

lemma mark_others:
  "r \<in> set (outbox_events d) \<Longrightarrow> ev_ID r \<noteq> i \<Longrightarrow> r \<in> set (outbox_events (mark_published i t d))"
  by (auto simp: mark_published_def set_update_where)

lemma relay_rows_live:
  assumes "no_faults (env s)" and "set rows \<subseteq> set (outbox_events (db s))"
    and "\<forall>r\<in>set rows. unpublished r" and "distinct (map ev_ID rows)"
    and "list_all2 (\<lambda>r m. row_wire r = Some m) rows ms"
  shows "wp (relay_rows publish rows n)
           (\<lambda>res s'. res = (n + length rows, None) \<and> drained rows ms s s') (\<lambda>_ _. False) s"
  using assms(5) assms(1-4)
proof (induction rows ms arbitrary: n s rule: list_all2_induct)
  case Nil
  then show ?case by (simp add: wp_simps drained_def)
next
  case (Cons row rows m ms)
  then obtain payload where p: "unmarshal_map (Inl (ev_Payload row)) = Some payload"
    "encode (row_key row) (row_event row payload) = Some m"
    by (auto simp: row_wire_def split: option.splits)
  have row: "row \<in> set (outbox_events (db s))" "unpublished row" using Cons.prems by auto
  have mark: "wp (update_published (ev_ID row) t)
       (\<lambda>k. wp (relay_rows publish rows (if k = 0 then n else Suc n))
          (\<lambda>res s'. res = (Suc (n + length rows), None) \<and> drained (row # rows) (m # ms) s s')
          (\<lambda>_ _. False))
       (\<lambda>e. wp (ret (n, Some e))
          (\<lambda>res s'. res = (Suc (n + length rows), None) \<and> drained (row # rows) (m # ms) s s')
          (\<lambda>_ _. False)) s2"
    if s2: "db s2 = db s" "env s2 = env s" "topic_products s2 = topic_products s @ [m]" for s2 t
  proof -
    let ?s3 = "(tock s2)\<lparr>db := mark_published (ev_ID row) t (db s2)\<rparr>"
    let ?k = "length (filter (\<lambda>r. ev_ID r = ev_ID row \<and> unpublished r) (outbox_events (db s2)))"
    have "row \<in> set (filter (\<lambda>r. ev_ID r = ev_ID row \<and> unpublished r) (outbox_events (db s)))"
      using row by simp
    then have k: "?k \<noteq> 0" using s2(1) by (metis length_0_conv list.set(1) empty_iff)
    have "wp (relay_rows publish rows (Suc n))
            (\<lambda>res s'. res = (Suc n + length rows, None) \<and> drained rows ms ?s3 s') (\<lambda>_ _. False) ?s3"
      using Cons.prems s2 by (intro Cons.IH) (auto simp: image_iff intro!: mark_others)
    then have "wp (relay_rows publish rows (Suc n))
          (\<lambda>res s'. res = (Suc (n + length rows), None) \<and> drained (row # rows) (m # ms) s s')
          (\<lambda>_ _. False) ?s3"
      by (rule wp_mono) (auto simp: drained_def s2 pending_mark intro!: filter_cong)
    with k show ?thesis
      using s2(2) Cons.prems(1)
      by (simp add: update_published_def wp_def interact_defs)
  qed
  show ?case
    using p
    by (auto simp: wp_simps intro!: wp_mono [OF publish_live [OF Cons.prems(1)]]
        mark)
qed

lemma RelayOnce_live:
  assumes "no_faults (env s)" and "outbox_ok (db s)"
    and "list_all2 (\<lambda>r m. row_wire r = Some m) (select_batch (db s)) ms"
  shows "wp (RelayOnce publish)
           (\<lambda>res s'. res = (length (select_batch (db s)), None) \<and> drained (select_batch (db s)) ms s s')
           (\<lambda>_ _. False) s"
proof -
  have "wp (relay_rows publish (select_batch (db s)) 0)
           (\<lambda>res s'. res = (0 + length (select_batch (db s)), None)
                   \<and> drained (select_batch (db s)) ms (tock (tock s)) s')
           (\<lambda>_ _. False) (tock (tock s))"
    using assms set_select_batch select_batch_unpublished select_batch_distinct
    by (intro relay_rows_live) auto
  then show ?thesis
    using assms
    by (auto simp: RelayOnce_def PendingCount_def wp_simps wp_query_live drained_def elim!: wp_mono)
qed

end

text \<open>The Kafka producer is such a publisher.\<close>

definition event_wire :: "string \<Rightarrow> Event \<Rightarrow> wire option" where
  "event_wire key e = (case marshal_event e of Inl _ \<Rightarrow> None | Inr body \<Rightarrow> Some (key, Inl body))"

lemma Publish_frame:
  "wp (Publish k e)
     (\<lambda>_ s'. db s' = db s \<and> env s' = env s
           \<and> (\<exists>m. event_wire k e = Some m \<and> topic_products s' = topic_products s @ [m]))
     (\<lambda>_ s'. db s' = db s \<and> env s' = env s
           \<and> (topic_products s' = topic_products s
              \<or> (\<exists>m. event_wire k e = Some m \<and> topic_products s' = topic_products s @ [m]))) s"
  by (auto simp: Publish_def event_wire_def wp_simps split: sum.split option.split)

interpretation kafka: live_publisher Publish event_wire
proof unfold_locales
  show "wp (Publish k e)
     (\<lambda>_ s'. db s' = db s \<and> env s' = env s
           \<and> (\<exists>m. event_wire k e = Some m \<and> topic_products s' = topic_products s @ [m]))
     (\<lambda>_ s'. db s' = db s \<and> env s' = env s
           \<and> (topic_products s' = topic_products s
              \<or> (\<exists>m. event_wire k e = Some m \<and> topic_products s' = topic_products s @ [m]))) s" for k e s
    by (rule Publish_frame)
next
  show "wp (Publish k e)
      (\<lambda>_ s'. db s' = db s \<and> env s' = env s \<and> topic_products s' = topic_products s @ [m])
      (\<lambda>_ _. False) s"
    if "no_faults (env s)" and "event_wire k e = Some m" for k e m s
    using that by (auto simp: Publish_def event_wire_def wp_simps split: sum.splits option.split)
qed

end
