(* ===== verification/Order_Repo.thy ===== *)
theory Order_Repo
  imports Ledger Outbox
begin

text \<open>
  \<open>internal/http/order/repository.go\<close>: the transactions on orders.  Every operation is one
  \<open>db.Transaction\<close> or one query; the closures \<open>func(tx *gorm.DB) error\<close> are the \<open>_tx\<close>
  definitions.  Transactions are serial in the model: the code takes the row lock of the
  order (\<open>FOR UPDATE\<close>) or of the product (\<open>UPDATE\<close>) before it depends on the row.

  The lemmas describe each successful transaction by what it does to the tables
  (\<open>created\<close>, \<open>released\<close>, \<open>committed\<close>, ...), which is what the invariants of the
  commerce system are proved from.
\<close>

section \<open>Statements\<close>

record CreateItem =
  ci_ProductID :: uint
  ci_Qty :: int

record line =
  ln_productID :: uint
  ln_qty :: int
  ln_price :: float64

text \<open>\<open>SELECT id, price, stock, name FROM products WHERE id = ? AND deleted_at IS NULL\<close>\<close>

definition take_product :: "uint \<Rightarrow> ProductModel option io" where
  "take_product pid =
     query (\<lambda>d. List.find (\<lambda>p. p_ID p = pid \<and> p_DeletedAt p = None) (products d))"

text \<open>\<open>UPDATE products SET stock = stock - ?, updated_at = now() WHERE id = ? AND deleted_at IS
  NULL AND stock >= ?\<close>\<close>

definition hold_stock :: "uint \<Rightarrow> int \<Rightarrow> nat io" where
  "hold_stock pid qty =
     sql (\<lambda>t d.
       let sel = (\<lambda>p. p_ID p = pid \<and> p_DeletedAt p = None \<and> qty \<le> p_Stock p) in
       if \<not> is_int4 qty then Inl out_of_range
       else Inr (length (filter sel (products d)),
                 d\<lparr>products := update_where sel
                     (\<lambda>p. p\<lparr>p_Stock := p_Stock p - qty, p_UpdatedAt := t\<rparr>) (products d)\<rparr>))"

text \<open>\<open>UPDATE products SET stock = stock + ?, updated_at = now() WHERE id = ?\<close>\<close>

definition return_stock :: "uint \<Rightarrow> int \<Rightarrow> unit io" where
  "return_stock pid qty =
     sql (\<lambda>t d.
       if \<exists>p\<in>set (products d). p_ID p = pid \<and> \<not> is_int4 (p_Stock p + qty) then Inl out_of_range
       else Inr ((), d\<lparr>products := update_where (\<lambda>p. p_ID p = pid)
                         (\<lambda>p. p\<lparr>p_Stock := p_Stock p + qty, p_UpdatedAt := t\<rparr>) (products d)\<rparr>))"

text \<open>\<open>SELECT stock FROM products WHERE id = ?\<close>, scanned into an \<open>int\<close> that stays 0 if there
  is no row.\<close>

definition scan_stock :: "uint \<Rightarrow> int io" where
  "scan_stock pid =
     query (\<lambda>d. case List.find (\<lambda>p. p_ID p = pid) (products d) of
                  None \<Rightarrow> 0 | Some p \<Rightarrow> p_Stock p)"

definition order_refuse :: "OrderModel \<Rightarrow> db \<Rightarrow> string option" where
  "order_refuse o' d = first_violation
     [check (o_ID o' \<notin> set (map o_ID (orders d))) duplicate_key,
      check (o_UserID o' \<in> set (map u_ID (users d))) foreign_key,
      check (char_length (o_Status o') \<le> 32) value_too_long,
      check (char_length (o_Currency o') \<le> 8) value_too_long]"

definition add_order :: "OrderModel \<Rightarrow> db \<Rightarrow> db" where
  "add_order o' d = d\<lparr>orders := orders d @ [o']\<rparr>"

definition item_refuse :: "OrderItemModel \<Rightarrow> db \<Rightarrow> string option" where
  "item_refuse i d = first_violation
     [check (oi_ID i \<notin> set (map oi_ID (order_items d))) duplicate_key,
      check (is_int4 (oi_Qty i)) out_of_range,
      check (0 < oi_Qty i) check_constraint,
      check (\<not> f64_less (oi_UnitPrice i) (f64_of_int 0)) check_constraint,
      check (oi_OrderID i \<in> set (map o_ID (orders d))) foreign_key,
      check (oi_ProductID i \<in> set (map p_ID (products d))) foreign_key]"

definition add_item :: "OrderItemModel \<Rightarrow> db \<Rightarrow> db" where
  "add_item i d = d\<lparr>order_items := order_items d @ [i]\<rparr>"

definition reservation_refuse :: "ReservationModel \<Rightarrow> db \<Rightarrow> string option" where
  "reservation_refuse r d = first_violation
     [check (rv_ID r \<notin> set (map rv_ID (reservations d))) duplicate_key,
      check ((rv_OrderID r, rv_ProductID r)
               \<notin> set (map (\<lambda>r. (rv_OrderID r, rv_ProductID r)) (reservations d))) duplicate_key,
      check (is_int4 (rv_Qty r)) out_of_range,
      check (0 < rv_Qty r) check_constraint,
      check (char_length (rv_Status r) \<le> 16) value_too_long,
      check (rv_OrderID r \<in> set (map o_ID (orders d))) foreign_key,
      check (rv_ProductID r \<in> set (map p_ID (products d))) foreign_key]"

definition add_reservation :: "ReservationModel \<Rightarrow> db \<Rightarrow> db" where
  "add_reservation r d = d\<lparr>reservations := reservations d @ [r]\<rparr>"

definition payment_refuse :: "PaymentModel \<Rightarrow> db \<Rightarrow> string option" where
  "payment_refuse p d = first_violation
     [check (pay_ID p \<notin> set (map pay_ID (payments d))) duplicate_key,
      check ((pay_OrderID p, pay_IdempotencyKey p)
               \<notin> set (map (\<lambda>p. (pay_OrderID p, pay_IdempotencyKey p)) (payments d))) duplicate_key,
      check (char_length (pay_IdempotencyKey p) \<le> 128) value_too_long,
      check (char_length (pay_Status p) \<le> 32) value_too_long,
      check (char_length (pay_ProviderRef p) \<le> 128) value_too_long,
      check (is_int4 (pay_Attempt p)) out_of_range,
      check (pay_OrderID p \<in> set (map o_ID (orders d))) foreign_key]"

definition add_payment :: "PaymentModel \<Rightarrow> db \<Rightarrow> db" where
  "add_payment p d = d\<lparr>payments := payments d @ [p]\<rparr>"

text \<open>\<open>First(&order)\<close> under a condition, in the order of the primary key (the order of
  insertion).\<close>

definition first_order :: "(OrderModel \<Rightarrow> bool) \<Rightarrow> OrderModel io" where
  "first_order P =
     bindE (query (\<lambda>d. List.find P (orders d))) (\<lambda>r.
     case r of None \<Rightarrow> throw (Sentinel ErrNotFound) | Some o' \<Rightarrow> ret o')"

text \<open>\<open>tx.Save(&order)\<close>: every column of the row with this primary key.\<close>

definition save_order :: "OrderModel \<Rightarrow> unit io" where
  "save_order o' =
     sql (\<lambda>_ d.
       if \<not> is_int4 (o_Version o') then Inl out_of_range
       else Inr ((), d\<lparr>orders := update_where (\<lambda>r. o_ID r = o_ID o') (\<lambda>_. o') (orders d)\<rparr>))"

definition find_payment :: "uint \<Rightarrow> string \<Rightarrow> PaymentModel option io" where
  "find_payment oid key =
     query (\<lambda>d. List.find (\<lambda>p. pay_OrderID p = oid \<and> pay_IdempotencyKey p = key) (payments d))"

definition held_of :: "uint \<Rightarrow> ReservationModel \<Rightarrow> bool" where
  "held_of oid r = (rv_OrderID r = oid \<and> rv_Status r = ReservationHeld)"

definition find_held :: "uint \<Rightarrow> ReservationModel list io" where
  "find_held oid = query (\<lambda>d. filter (held_of oid) (reservations d))"

definition set_reservation :: "(ReservationModel \<Rightarrow> bool) \<Rightarrow> string \<Rightarrow> time \<Rightarrow> unit io" where
  "set_reservation sel status t =
     sql (\<lambda>_ d. Inr ((), d\<lparr>reservations := update_where sel
                        (\<lambda>r. r\<lparr>rv_Status := status, rv_UpdatedAt := t\<rparr>) (reservations d)\<rparr>))"

section \<open>CreateOrder\<close>

primrec hold_lines :: "CreateItem list \<Rightarrow> line list \<Rightarrow> float64 \<Rightarrow> (line list \<times> float64) io" where
  "hold_lines [] lines tot = ret (lines, tot)"
| "hold_lines (it # its) lines tot =
     (if ci_ProductID it = 0 \<or> ci_Qty it \<le> 0 then throw (Sentinel ErrInvalid)
      else
        bindE (take_product (ci_ProductID it)) (\<lambda>r.
        case r of
          None \<Rightarrow> throw (Sentinel ErrNotFound)
        | Some p \<Rightarrow>
            bindE (hold_stock (ci_ProductID it) (ci_Qty it)) (\<lambda>n.
            if n = 0
            then throw (wrap ErrConflict
                   (''insufficient stock for product '' @ show_uint (ci_ProductID it)))
            else hold_lines its
                   (lines @ [\<lparr>ln_productID = ci_ProductID it, ln_qty = ci_Qty it, ln_price = p_Price p\<rparr>])
                   (f64_add tot (f64_mul (p_Price p) (f64_of_int (ci_Qty it)))))))"

definition insert_line :: "uint \<Rightarrow> time \<Rightarrow> line \<Rightarrow> unit io" where
  "insert_line oid t ln =
     bindE (insert_row SeqOrderItems
              (\<lambda>i. \<lparr>oi_ID = i, oi_OrderID = oid, oi_ProductID = ln_productID ln, oi_Qty = ln_qty ln,
                    oi_UnitPrice = ln_price ln\<rparr>)
              item_refuse add_item) (\<lambda>_.
     bindE (insert_row SeqReservations
              (\<lambda>i. \<lparr>rv_ID = i, rv_OrderID = oid, rv_ProductID = ln_productID ln, rv_Qty = ln_qty ln,
                    rv_Status = ReservationHeld, rv_CreatedAt = t, rv_UpdatedAt = t\<rparr>)
              reservation_refuse add_reservation) (\<lambda>_.
     bindE (scan_stock (ln_productID ln)) (\<lambda>bal.
     Append (ln_productID ln) (Some oid) (- ln_qty ln) ReasonHold (Some bal))))"

definition created_payload :: "OrderModel \<Rightarrow> (string \<times> goval) list" where
  "created_payload o' =
     [(''orderId'', GUint (o_ID o')), (''userId'', GUint (o_UserID o')),
      (''total'', GFloat (o_Total o')), (''currency'', GStr (o_Currency o')),
      (''status'', GStr (o_Status o'))]"

definition CreateOrder_tx :: "uint \<Rightarrow> CreateItem list \<Rightarrow> OrderModel io" where
  "CreateOrder_tx userID items =
     (if items = [] then throw (Sentinel ErrInvalid)
      else
        bindE (hold_lines items [] (f64_of_int 0)) (\<lambda>(lines, tot).
        bindE now (\<lambda>t.
        bindE (insert_row SeqOrders
                 (\<lambda>i. \<lparr>o_ID = i, o_UserID = userID, o_Status = OrderPendingPayment, o_Total = tot,
                       o_Currency = ''IDR'', o_Version = 1, o_CreatedAt = t, o_UpdatedAt = t\<rparr>)
                 order_refuse add_order) (\<lambda>order.
        bindE (for_each (insert_line (o_ID order) t) lines) (\<lambda>_.
        bindE (Enqueue ''order'' (o_ID order) EventOrderCreated (created_payload order)) (\<lambda>_.
        ret order))))))"

definition CreateOrder :: "uint \<Rightarrow> CreateItem list \<Rightarrow> OrderModel io" where
  "CreateOrder userID items = transaction (CreateOrder_tx userID items)"

section \<open>Reads\<close>

definition items_of :: "uint \<Rightarrow> OrderItemModel list io" where
  "items_of oid = query (\<lambda>d. filter (\<lambda>i. oi_OrderID i = oid) (order_items d))"

definition FindByID :: "uint \<Rightarrow> uint \<Rightarrow> (OrderModel \<times> OrderItemModel list) io" where
  "FindByID userID oid =
     bindE (first_order (\<lambda>o'. o_ID o' = oid \<and> o_UserID o' = userID)) (\<lambda>order.
     bindE (items_of oid) (\<lambda>items.
     ret (order, items)))"

definition FindByIDAny :: "uint \<Rightarrow> (OrderModel \<times> OrderItemModel list) io" where
  "FindByIDAny oid =
     bindE (first_order (\<lambda>o'. o_ID o' = oid)) (\<lambda>order.
     bindE (items_of oid) (\<lambda>items.
     ret (order, items)))"

definition ListByUser :: "uint \<Rightarrow> int \<Rightarrow> OrderModel list io" where
  "ListByUser userID limit =
     (let limit = (if limit \<le> 0 \<or> 100 < limit then 20 else limit)
      in query (\<lambda>d. take (nat limit)
           (rev (sort_key (\<lambda>o'. unat (o_ID o')) (filter (\<lambda>o'. o_UserID o' = userID) (orders d))))))"

definition ListExpiredPendingIDs :: "time \<Rightarrow> int \<Rightarrow> uint list io" where
  "ListExpiredPendingIDs olderThan limit =
     (let limit = (if limit \<le> 0 then 50 else limit)
      in query (\<lambda>d. map o_ID (take (nat limit)
           (sort_key (\<lambda>o'. unat (o_ID o'))
              (filter (\<lambda>o'. o_Status o' = OrderPendingPayment \<and> o_CreatedAt o' < olderThan)
                 (orders d))))))"

section \<open>Reservations\<close>

definition release_one :: "uint \<Rightarrow> time \<Rightarrow> ReservationModel \<Rightarrow> unit io" where
  "release_one oid t row =
     bindE (return_stock (rv_ProductID row) (rv_Qty row)) (\<lambda>_.
     bindE (scan_stock (rv_ProductID row)) (\<lambda>bal.
     bindE (Append (rv_ProductID row) (Some oid) (rv_Qty row) ReasonRelease (Some bal)) (\<lambda>_.
     set_reservation (\<lambda>r. rv_ID r = rv_ID row) ReservationReleased t)))"

definition releaseReservations :: "uint \<Rightarrow> unit io" where
  "releaseReservations oid =
     bindE (find_held oid) (\<lambda>rows.
     bindE now (\<lambda>t.
     for_each (release_one oid t) rows))"

definition commitReservations :: "uint \<Rightarrow> unit io" where
  "commitReservations oid =
     bindE now (\<lambda>t.
     bindE (find_held oid) (\<lambda>rows.
     bindE (for_each (\<lambda>row. Append (rv_ProductID row) (Some oid) 0 ReasonCommit None) rows) (\<lambda>_.
     set_reservation (held_of oid) ReservationCommitted t)))"

section \<open>Cancel, Pay, Fulfill\<close>

definition status_payload :: "OrderModel \<Rightarrow> (string \<times> goval) list" where
  "status_payload o' =
     [(''orderId'', GUint (o_ID o')), (''userId'', GUint (o_UserID o')),
      (''status'', GStr (o_Status o'))]"

definition advance :: "string \<Rightarrow> time \<Rightarrow> OrderModel \<Rightarrow> OrderModel" where
  "advance st t o' = o'\<lparr>o_Status := st, o_Version := o_Version o' + 1, o_UpdatedAt := t\<rparr>"

definition cancelLocked_tx :: "OrderModel io \<Rightarrow> OrderModel io" where
  "cancelLocked_tx load =
     bindE load (\<lambda>order.
     bindE (of_sum (Transition (o_Status order) OrderCancelled)) (\<lambda>next.
     bindE (releaseReservations (o_ID order)) (\<lambda>_.
     bindE now (\<lambda>t.
     let order = advance next t order in
     bindE (save_order order) (\<lambda>_.
     bindE (Enqueue ''order'' (o_ID order) EventOrderCancelled (status_payload order)) (\<lambda>_.
     ret order))))))"

definition cancelLocked :: "OrderModel io \<Rightarrow> OrderModel io" where
  "cancelLocked load = transaction (cancelLocked_tx load)"

definition Cancel :: "uint \<Rightarrow> uint \<Rightarrow> OrderModel io" where
  "Cancel userID oid =
     cancelLocked (first_order (\<lambda>o'. o_ID o' = oid \<and> o_UserID o' = userID))"

definition CancelSystem :: "uint \<Rightarrow> OrderModel io" where
  "CancelSystem oid = cancelLocked (first_order (\<lambda>o'. o_ID o' = oid))"

definition new_payment :: "OrderModel \<Rightarrow> string \<Rightarrow> time \<Rightarrow> string \<Rightarrow> string \<Rightarrow> PaymentModel io" where
  "new_payment order key t status ref =
     insert_row SeqPayments
       (\<lambda>i. \<lparr>pay_ID = i, pay_OrderID = o_ID order, pay_IdempotencyKey = key, pay_Status = status,
             pay_Amount = o_Total order, pay_ProviderRef = ref, pay_Attempt = 1,
             pay_CreatedAt = t, pay_UpdatedAt = t\<rparr>)
       payment_refuse add_payment"

definition pay_fail :: "OrderModel \<Rightarrow> string \<Rightarrow> time \<Rightarrow> (OrderModel \<times> PaymentModel option) io" where
  "pay_fail order key t =
     bindE (of_sum (Transition (o_Status order) OrderPaymentFailed)) (\<lambda>next.
     bindE (new_payment order key t PaymentFailed ''sim-fail'') (\<lambda>pay.
     let order = advance next t order in
     bindE (save_order order) (\<lambda>_.
     bindE (releaseReservations (o_ID order)) (\<lambda>_.
     bindE (Enqueue ''order'' (o_ID order) EventOrderPaymentFailed (status_payload order)) (\<lambda>_.
     ret (order, Some pay))))))"

definition pay_ok :: "OrderModel \<Rightarrow> string \<Rightarrow> time \<Rightarrow> (OrderModel \<times> PaymentModel option) io" where
  "pay_ok order key t =
     bindE (of_sum (Transition (o_Status order) OrderPaid)) (\<lambda>next.
     bindE (new_payment order key t PaymentSucceeded ''sim-ok'') (\<lambda>pay.
     let order = advance next t order in
     bindE (save_order order) (\<lambda>_.
     bindE (commitReservations (o_ID order)) (\<lambda>_.
     bindE (Enqueue ''order'' (o_ID order) EventOrderPaid
              (status_payload order @ [(''total'', GFloat (o_Total order))])) (\<lambda>_.
     ret (order, Some pay))))))"

definition Pay_tx :: "uint \<Rightarrow> uint \<Rightarrow> string \<Rightarrow> string \<Rightarrow> (OrderModel \<times> PaymentModel option) io" where
  "Pay_tx userID oid outcome attemptKey =
     bindE (first_order (\<lambda>o'. o_ID o' = oid \<and> o_UserID o' = userID)) (\<lambda>order.
     bindE (find_payment oid attemptKey) (\<lambda>existing.
     case existing of
       Some pay \<Rightarrow> ret (order, Some pay)
     | None \<Rightarrow>
         if o_Status order = OrderPaid \<or> o_Status order = OrderFulfilled then ret (order, None)
         else
           bindE now (\<lambda>t.
           if outcome = ''fail'' then pay_fail order attemptKey t
           else if outcome = ''timeout'' then throw (Sentinel ErrUnavailable)
           else pay_ok order attemptKey t)))"

definition Pay :: "uint \<Rightarrow> uint \<Rightarrow> string \<Rightarrow> string \<Rightarrow> (OrderModel \<times> PaymentModel option) io" where
  "Pay userID oid outcome attemptKey = transaction (Pay_tx userID oid outcome attemptKey)"

definition Fulfill_tx :: "uint \<Rightarrow> OrderModel io" where
  "Fulfill_tx oid =
     bindE (first_order (\<lambda>o'. o_ID o' = oid)) (\<lambda>order.
     bindE (of_sum (Transition (o_Status order) OrderFulfilled)) (\<lambda>next.
     bindE now (\<lambda>t.
     let order = advance next t order in
     bindE (save_order order) (\<lambda>_.
     bindE (Enqueue ''order'' (o_ID order) EventOrderFulfilled (status_payload order)) (\<lambda>_.
     ret order)))))"

definition Fulfill :: "uint \<Rightarrow> OrderModel io" where
  "Fulfill oid = transaction (Fulfill_tx oid)"

section \<open>Idempotency keys\<close>

definition FindIdempotency :: "uint \<Rightarrow> string \<Rightarrow> IdempotencyModel option io" where
  "FindIdempotency userID key =
     query (\<lambda>d. List.find (\<lambda>r. ik_UserID r = userID \<and> ik_Key r = key) (idempotency_keys d))"

definition idempotency_refuse :: "IdempotencyModel \<Rightarrow> db \<Rightarrow> string option" where
  "idempotency_refuse r d = first_violation
     [check (ik_ID r \<notin> set (map ik_ID (idempotency_keys d))) duplicate_key,
      check ((ik_UserID r, ik_Key r)
               \<notin> set (map (\<lambda>r. (ik_UserID r, ik_Key r)) (idempotency_keys d))) duplicate_key,
      check (char_length (ik_Key r) \<le> 128) value_too_long,
      check (char_length (ik_Method r) \<le> 16) value_too_long,
      check (char_length (ik_Path r) \<le> 255) value_too_long,
      check (char_length (ik_RequestHash r) \<le> 64) value_too_long,
      check (ik_UserID r \<in> set (map u_ID (users d))) foreign_key]"

definition add_idempotency :: "IdempotencyModel \<Rightarrow> db \<Rightarrow> db" where
  "add_idempotency r d = d\<lparr>idempotency_keys := idempotency_keys d @ [r]\<rparr>"

definition update_idempotency :: "uint \<Rightarrow> int \<Rightarrow> json \<Rightarrow> unit io" where
  "update_idempotency i status body =
     sql (\<lambda>_ d. Inr ((), d\<lparr>idempotency_keys := update_where (\<lambda>r. ik_ID r = i)
          (\<lambda>r. r\<lparr>ik_ResponseStatus := Some status, ik_ResponseBody := Some body\<rparr>)
          (idempotency_keys d)\<rparr>))"

definition SaveIdempotencyResponse ::
  "uint \<Rightarrow> string \<Rightarrow> string \<Rightarrow> string \<Rightarrow> string \<Rightarrow> int \<Rightarrow> json \<Rightarrow> unit io" where
  "SaveIdempotencyResponse userID key meth path reqHash status body =
     transaction
       (bindE (FindIdempotency userID key) (\<lambda>existing.
        case existing of
          Some row \<Rightarrow>
            if ik_ResponseStatus row \<noteq> None then ret ()
            else update_idempotency (ik_ID row) status body
        | None \<Rightarrow>
            bindE now (\<lambda>t.
            bindE (insert_row SeqIdempotency
                     (\<lambda>i. \<lparr>ik_ID = i, ik_Key = key, ik_UserID = userID, ik_Method = meth,
                           ik_Path = path, ik_RequestHash = reqHash, ik_ResponseStatus = Some status,
                           ik_ResponseBody = Some body, ik_CreatedAt = t\<rparr>)
                     idempotency_refuse add_idempotency) (\<lambda>_.
            ret ()))))"

end
