(* ===== verification/Inbox.thy ===== *)
theory Inbox
  imports Store
begin

text \<open>
  Package \<open>internal/platform/inbox\<close>: consumer-side deduplication by the table
  \<open>processed_events\<close>, unique on \<open>(event_id, consumer)\<close>.

  The interface \<open>dedupe\<close> is what the workers rely on: a claim that succeeds records the
  pair, a claim of a recorded pair answers \<open>False\<close> and changes nothing, and recording never
  forgets.  It is interpreted on \<open>Claim\<close> and, for the check-then-record form, on
  \<open>AlreadyProcessed\<close> and \<open>MarkProcessed\<close>.
\<close>

definition inbox_key :: "InboxRow \<Rightarrow> string \<times> string" where
  "inbox_key r = (ib_EventID r, ib_Consumer r)"

definition processed :: "db \<Rightarrow> string \<Rightarrow> string \<Rightarrow> bool" where
  "processed d consumer eventID = ((eventID, consumer) \<in> set (map inbox_key (processed_events d)))"

definition inbox_ok :: "db \<Rightarrow> bool" where
  "inbox_ok d = distinct (map inbox_key (processed_events d))"

definition AlreadyProcessed :: "string \<Rightarrow> string \<Rightarrow> bool io" where
  "AlreadyProcessed consumer eventID =
     bindE (query (\<lambda>d. length (filter (\<lambda>r. ib_EventID r = eventID \<and> ib_Consumer r = consumer)
                                 (processed_events d)))) (\<lambda>n.
     ret (0 < n))"

text \<open>\<open>INSERT ... ON CONFLICT (event_id, consumer) DO NOTHING\<close>, with the number of rows
  affected.\<close>

definition insert_inbox :: "string \<Rightarrow> string \<Rightarrow> string \<Rightarrow> time \<Rightarrow> nat io" where
  "insert_inbox consumer eventID eventType t =
     sql (\<lambda>_ d.
       if 64 < char_length consumer \<or> 64 < char_length eventType then Inl value_too_long
       else if processed d consumer eventID then Inr (0, d)
       else Inr (Suc 0, d\<lparr>processed_events := processed_events d @
                    [\<lparr>ib_EventID = eventID, ib_Consumer = consumer, ib_EventType = eventType,
                      ib_ProcessedAt = t\<rparr>]\<rparr>))"

definition MarkProcessed :: "string \<Rightarrow> string \<Rightarrow> string \<Rightarrow> unit io" where
  "MarkProcessed consumer eventID eventType =
     bindE now (\<lambda>t. bindE (insert_inbox consumer eventID eventType t) (\<lambda>_. ret ()))"

definition Claim :: "string \<Rightarrow> string \<Rightarrow> string \<Rightarrow> bool io" where
  "Claim consumer eventID eventType =
     bindE now (\<lambda>t. bindE (insert_inbox consumer eventID eventType t) (\<lambda>n. ret (n \<noteq> 0)))"

definition add_inbox :: "InboxRow \<Rightarrow> db \<Rightarrow> db" where
  "add_inbox r d = d\<lparr>processed_events := processed_events d @ [r]\<rparr>"

lemma processed_add_inbox [simp]:
  "processed (add_inbox r d) c e = (processed d c e \<or> (e, c) = inbox_key r)"
  by (auto simp: processed_def add_inbox_def)

lemma inbox_ok_add [simp]:
  "inbox_ok (add_inbox r d) = (inbox_ok d \<and> \<not> processed d (ib_Consumer r) (ib_EventID r))"
  by (auto simp: inbox_ok_def add_inbox_def processed_def inbox_key_def)

lemma insert_inbox_rule [vcg]:
  assumes "processed d consumer eventID \<Longrightarrow> Q 0 d"
    and "\<And>r. \<not> processed d consumer eventID \<Longrightarrow> ib_EventID r = eventID \<Longrightarrow> ib_Consumer r = consumer
         \<Longrightarrow> ib_EventType r = eventType \<Longrightarrow> Q (Suc 0) (add_inbox r d)"
  shows "db_wp (insert_inbox consumer eventID eventType t) Q d"
  unfolding insert_inbox_def
  by (rule vcg) (auto simp: add_inbox_def [symmetric] split: if_splits intro: assms)

lemma AlreadyProcessed_rule [vcg]:
  "Q (processed d consumer eventID) d \<Longrightarrow> db_wp (AlreadyProcessed consumer eventID) Q d"
  unfolding AlreadyProcessed_def
  by (intro vcg)
    (auto simp: processed_def inbox_key_def filter_empty_conv image_iff elim!: back_subst [of "\<lambda>b. Q b d"])

lemma Claim_rule [vcg]:
  assumes "processed d consumer eventID \<Longrightarrow> Q False d"
    and "\<And>r. \<not> processed d consumer eventID \<Longrightarrow> ib_EventID r = eventID \<Longrightarrow> ib_Consumer r = consumer
         \<Longrightarrow> Q True (add_inbox r d)"
  shows "db_wp (Claim consumer eventID eventType) Q d"
  unfolding Claim_def by (intro vcg) (simp_all add: assms)

lemma MarkProcessed_rule [vcg]:
  assumes "processed d consumer eventID \<Longrightarrow> Q () d"
    and "\<And>r. \<not> processed d consumer eventID \<Longrightarrow> ib_EventID r = eventID \<Longrightarrow> ib_Consumer r = consumer
         \<Longrightarrow> Q () (add_inbox r d)"
  shows "db_wp (MarkProcessed consumer eventID eventType) Q d"
  unfolding MarkProcessed_def by (intro vcg) (simp_all add: assms)

section \<open>The interface the workers use\<close>

locale dedupe =
  fixes seen :: "db \<Rightarrow> string \<Rightarrow> string \<Rightarrow> bool"
    and claim :: "string \<Rightarrow> string \<Rightarrow> string \<Rightarrow> bool io"
    and ok :: "db \<Rightarrow> bool"
  assumes claim_answers: "db_wp (claim c e t) (\<lambda>b d'. b = (\<not> seen d c e)) d"
    and claim_records: "db_wp (claim c e t) (\<lambda>_ d'. seen d' c e) d"
    and claim_keeps: "db_wp (claim c e t) (\<lambda>_ d'. seen d c' e' \<longrightarrow> seen d' c' e') d"
    and claim_only: "db_wp (claim c e t) (\<lambda>_ d'. (c', e') \<noteq> (c, e) \<longrightarrow> seen d' c' e' = seen d c' e') d"
    and claim_idle: "seen d c e \<Longrightarrow> db_wp (claim c e t) (\<lambda>_ d'. d' = d) d"
    and claim_ok: "ok d \<Longrightarrow> db_wp (claim c e t) (\<lambda>_. ok) d"
begin

text \<open>Work guarded by a claim is skipped, without any effect, once the pair is recorded.\<close>

definition guarded :: "string \<Rightarrow> string \<Rightarrow> string \<Rightarrow> unit io \<Rightarrow> unit io" where
  "guarded c e t work = bindE (claim c e t) (\<lambda>fresh. if fresh then work else ret ())"

lemma guarded_skips: "seen d c e \<Longrightarrow> db_wp (guarded c e t work) (\<lambda>_ d'. d' = d) d"
  unfolding guarded_def
  by (rule db_wp_bindE, rule db_wp_mono [OF db_wp_conj [OF claim_answers claim_idle]])
    (auto intro: db_wp_ret)

lemma guarded_records:
  assumes "\<And>d. seen d c e \<Longrightarrow> db_wp work (\<lambda>_ d'. seen d' c e) d"
  shows "db_wp (guarded c e t work) (\<lambda>_ d'. seen d' c e) d"
  unfolding guarded_def
  by (rule db_wp_bindE, rule db_wp_mono [OF claim_records]) (auto intro: db_wp_ret assms)

text \<open>A redelivery after a successful run leaves the tables alone.\<close>

lemma guarded_twice:
  assumes "\<And>d. seen d c e \<Longrightarrow> db_wp work (\<lambda>_ d'. seen d' c e) d"
    and "run_ok (guarded c e t work) d u d'" and "run_ok (guarded c e t work) d' u' d''"
  shows "d'' = d'"
proof -
  from guarded_records [OF assms(1), of t d] assms(2) have "seen d' c e"
    by (simp add: db_wp_def)
  from guarded_skips [OF this, of t work] assms(3) show ?thesis by (simp add: db_wp_def)
qed

end

interpretation inbox: dedupe processed Claim inbox_ok
  by unfold_locales (intro vcg; auto simp: inbox_key_def)+

end
