(* ===== verification/Order_Schema.thy ===== *)
theory Order_Schema
  imports Order_Repo Inbox
begin

text \<open>
  The schema of the commerce tables as an invariant: primary keys and \<open>UNIQUE\<close> columns are
  distinct, foreign keys resolve.  The database checks it row by row (\<open>*_refuse\<close>); here it
  is shown to be kept by every statement and so by every function composed of them
  (\<open>keeps\<close>).
\<close>

definition keeps :: "(db \<Rightarrow> bool) \<Rightarrow> 'a io \<Rightarrow> bool" where
  "keeps J m = (\<forall>d. J d \<longrightarrow> db_wp m (\<lambda>_. J) d)"

named_theorems keeps_intro \<open>rules for keeps\<close>

lemma keepsI: "(\<And>d. J d \<Longrightarrow> db_wp m (\<lambda>_. J) d) \<Longrightarrow> keeps J m"
  by (simp add: keeps_def)

lemma keepsD: "keeps J m \<Longrightarrow> J d \<Longrightarrow> db_wp m (\<lambda>_. J) d"
  by (simp add: keeps_def)

lemma keeps_ret [keeps_intro]: "keeps J (ret a)"
  by (rule keepsI) (rule vcg)

lemma keeps_throw [keeps_intro]: "keeps J (throw e)"
  by (rule keepsI) (rule vcg)

lemma keeps_of_sum [keeps_intro]: "keeps J (of_sum r)"
  by (rule keepsI) (rule vcg)

lemma keeps_bindE [keeps_intro]: "keeps J m \<Longrightarrow> (\<And>a. keeps J (f a)) \<Longrightarrow> keeps J (bindE m f)"
  unfolding keeps_def by (blast intro: db_wp_bindE db_wp_mono)

lemma keeps_if [keeps_intro]:
  "(b \<Longrightarrow> keeps J m) \<Longrightarrow> (\<not> b \<Longrightarrow> keeps J n) \<Longrightarrow> keeps J (if b then m else n)"
  by simp

lemma keeps_option [keeps_intro]:
  "(x = None \<Longrightarrow> keeps J m) \<Longrightarrow> (\<And>a. x = Some a \<Longrightarrow> keeps J (f a))
   \<Longrightarrow> keeps J (case x of None \<Rightarrow> m | Some a \<Rightarrow> f a)"
  by (cases x) simp_all

lemma keeps_sum [keeps_intro]:
  "(\<And>e. x = Inl e \<Longrightarrow> keeps J (f e)) \<Longrightarrow> (\<And>a. x = Inr a \<Longrightarrow> keeps J (g a))
   \<Longrightarrow> keeps J (case x of Inl e \<Rightarrow> f e | Inr a \<Rightarrow> g a)"
  by (cases x) simp_all

lemma keeps_prod [keeps_intro]:
  "(\<And>a b. x = (a, b) \<Longrightarrow> keeps J (f a b)) \<Longrightarrow> keeps J (case x of (a, b) \<Rightarrow> f a b)"
  by (cases x) simp

lemma keeps_for_each [keeps_intro]: "(\<And>x. keeps J (f x)) \<Longrightarrow> keeps J (for_each f xs)"
  by (rule keepsI, rule db_wp_for_each [where I = "\<lambda>_. J"]) (auto dest: keepsD)

lemma keeps_query [keeps_intro]: "keeps J (query f)"
  by (rule keepsI) (rule vcg)

lemma keeps_now [keeps_intro]: "keeps J now"
  by (rule keepsI) (rule vcg)

lemma keeps_new_uuid [keeps_intro]: "keeps J new_uuid"
  by (rule keepsI) (rule vcg)

lemma keeps_get_uint_conv [keeps_intro]: "keeps J get_uint_conv"
  by (rule keepsI) (rule vcg)

lemma keeps_sql: "(\<And>t d a d'. J d \<Longrightarrow> f t d = Inr (a, d') \<Longrightarrow> J d') \<Longrightarrow> keeps J (sql f)"
  by (rule keepsI) (rule vcg)

lemma keeps_insert_row:
  "(\<And>i d. J d \<Longrightarrow> refuse (mk i) d = None \<Longrightarrow> J (add (mk i) d)) \<Longrightarrow> keeps J (insert_row q mk refuse add)"
  by (rule keepsI) (rule vcg)

lemma keeps_transaction [keeps_intro]: "keeps J m \<Longrightarrow> keeps J (transaction m)"
  by (intro keepsI db_wp_transaction) (rule keepsD)

lemma keeps_preserves: "keeps J m \<Longrightarrow> preserves (\<lambda>s. J (db s)) (transaction m)"
  by (rule transaction_preserves) (rule keepsD)

section \<open>The schema\<close>

definition keys_ok :: "db \<Rightarrow> bool" where
  "keys_ok d = (distinct (map p_ID (products d)) \<and> distinct (map o_ID (orders d))
     \<and> distinct (map oi_ID (order_items d)) \<and> distinct (map rv_ID (reservations d))
     \<and> distinct (map (\<lambda>r. (rv_OrderID r, rv_ProductID r)) (reservations d))
     \<and> distinct (map pay_ID (payments d))
     \<and> distinct (map (\<lambda>p. (pay_OrderID p, pay_IdempotencyKey p)) (payments d))
     \<and> distinct (map le_ID (stock_ledger d)) \<and> outbox_ok d \<and> inbox_ok d)"

definition refs_ok :: "db \<Rightarrow> bool" where
  "refs_ok d = (set (map oi_OrderID (order_items d)) \<subseteq> set (map o_ID (orders d))
     \<and> set (map rv_OrderID (reservations d)) \<subseteq> set (map o_ID (orders d))
     \<and> set (map pay_OrderID (payments d)) \<subseteq> set (map o_ID (orders d))
     \<and> set (map rv_ProductID (reservations d)) \<subseteq> set (map p_ID (products d))
     \<and> set (map le_ProductID (stock_ledger d)) \<subseteq> set (map p_ID (products d))
     \<and> (\<forall>e\<in>set (stock_ledger d). \<forall>oid. le_OrderID e = Some oid \<longrightarrow> oid \<in> set (map o_ID (orders d))))"

definition schema_ok :: "db \<Rightarrow> bool" where
  "schema_ok d = (keys_ok d \<and> refs_ok d)"

lemma keys_okD:
  assumes "keys_ok d"
  shows "distinct (map p_ID (products d))" "distinct (map o_ID (orders d))"
    "distinct (map rv_ID (reservations d))" "outbox_ok d" "inbox_ok d"
    "distinct (map (\<lambda>p. (pay_OrderID p, pay_IdempotencyKey p)) (payments d))"
  using assms by (simp_all add: keys_ok_def)

lemma map_p_ID_update [table_simps]:
  "map p_ID (update_where P (\<lambda>p. p\<lparr>p_Stock := f p, p_UpdatedAt := t\<rparr>) ps) = map p_ID ps"
  by (simp add: table_simps)

lemma map_rv_update [table_simps]:
  "map rv_ID (update_where P (\<lambda>r. r\<lparr>rv_Status := st, rv_UpdatedAt := t\<rparr>) rs) = map rv_ID rs"
  "map (\<lambda>r. (rv_OrderID r, rv_ProductID r))
       (update_where P (\<lambda>r. r\<lparr>rv_Status := st, rv_UpdatedAt := t\<rparr>) rs)
   = map (\<lambda>r. (rv_OrderID r, rv_ProductID r)) rs"
  "map rv_OrderID (update_where P (\<lambda>r. r\<lparr>rv_Status := st, rv_UpdatedAt := t\<rparr>) rs) = map rv_OrderID rs"
  "map rv_ProductID (update_where P (\<lambda>r. r\<lparr>rv_Status := st, rv_UpdatedAt := t\<rparr>) rs)
   = map rv_ProductID rs"
  by (simp_all add: table_simps)

lemma map_o_ID_save [table_simps]:
  "map o_ID (update_where (\<lambda>r. o_ID r = o_ID o') (\<lambda>_. o') os) = map o_ID os"
  by (induction os) auto

lemma keys_ok_simps [table_simps]:
  "outbox_ok (d\<lparr>products := ps\<rparr>) = outbox_ok d" "inbox_ok (d\<lparr>products := ps\<rparr>) = inbox_ok d"
  "outbox_ok (d\<lparr>orders := os\<rparr>) = outbox_ok d" "inbox_ok (d\<lparr>orders := os\<rparr>) = inbox_ok d"
  "outbox_ok (d\<lparr>order_items := is\<rparr>) = outbox_ok d" "inbox_ok (d\<lparr>order_items := is\<rparr>) = inbox_ok d"
  "outbox_ok (d\<lparr>reservations := rs\<rparr>) = outbox_ok d" "inbox_ok (d\<lparr>reservations := rs\<rparr>) = inbox_ok d"
  "outbox_ok (d\<lparr>payments := pays\<rparr>) = outbox_ok d" "inbox_ok (d\<lparr>payments := pays\<rparr>) = inbox_ok d"
  "outbox_ok (d\<lparr>stock_ledger := es\<rparr>) = outbox_ok d" "inbox_ok (d\<lparr>stock_ledger := es\<rparr>) = inbox_ok d"
  "outbox_ok (d\<lparr>processed_events := ib\<rparr>) = outbox_ok d"
  "inbox_ok (d\<lparr>outbox_events := ob\<rparr>) = inbox_ok d"
  "outbox_ok (d\<lparr>idempotency_keys := ks\<rparr>) = outbox_ok d"
  "inbox_ok (d\<lparr>idempotency_keys := ks\<rparr>) = inbox_ok d"
  by (simp_all add: outbox_ok_def inbox_ok_def)

lemmas schema_defs = schema_ok_def keys_ok_def refs_ok_def

lemma schema_hold_stock [keeps_intro]: "keeps schema_ok (hold_stock pid qty)"
  unfolding hold_stock_def
  by (rule keeps_sql) (auto simp: schema_defs Let_def table_simps simp del: set_map split: if_splits)

lemma schema_return_stock [keeps_intro]: "keeps schema_ok (return_stock pid qty)"
  unfolding return_stock_def
  by (rule keeps_sql) (auto simp: schema_defs Let_def table_simps simp del: set_map split: if_splits)

lemma schema_take_product [keeps_intro]: "keeps schema_ok (take_product pid)"
  unfolding take_product_def by (rule keeps_intro)

lemma schema_scan_stock [keeps_intro]: "keeps schema_ok (scan_stock pid)"
  unfolding scan_stock_def by (rule keeps_intro)

lemma schema_insert_item [keeps_intro]: "keeps schema_ok (insert_row q mk item_refuse add_item)"
  by (rule keeps_insert_row) (simp add: schema_defs item_refuse_def add_item_def table_simps)

lemma schema_insert_reservation [keeps_intro]:
  "keeps schema_ok (insert_row q mk reservation_refuse add_reservation)"
  by (rule keeps_insert_row)
    (simp add: schema_defs reservation_refuse_def add_reservation_def table_simps)

lemma schema_insert_order [keeps_intro]: "keeps schema_ok (insert_row q mk order_refuse add_order)"
  by (rule keeps_insert_row)
    (auto simp add: schema_defs order_refuse_def add_order_def table_simps)

lemma schema_insert_payment [keeps_intro]:
  "keeps schema_ok (insert_row q mk payment_refuse add_payment)"
  by (rule keeps_insert_row) (simp add: schema_defs payment_refuse_def add_payment_def table_simps)

lemma schema_Append [keeps_intro]: "keeps schema_ok (Append pid oid delta reason bal)"
  unfolding Append_def
  by (intro keeps_intro keeps_insert_row)
    (auto simp add: schema_defs ledger_refuse_def add_ledger_def table_simps split: option.splits)

lemma schema_Enqueue [keeps_intro]: "keeps schema_ok (Enqueue ty i ev payload)"
  unfolding Enqueue_def
  by (intro keeps_intro keeps_insert_row)
    (auto simp add: schema_defs outbox_refuse_def outbox_ok_def add_outbox_def table_simps)

lemma schema_set_reservation [keeps_intro]: "keeps schema_ok (set_reservation P st t)"
  unfolding set_reservation_def
  by (rule keeps_sql) (auto simp: schema_defs table_simps simp del: set_map)

lemma schema_save_order [keeps_intro]: "keeps schema_ok (save_order o')"
  unfolding save_order_def
  by (rule keeps_sql) (auto simp: schema_defs table_simps simp del: set_map split: if_splits)

lemma schema_first_order [keeps_intro]: "keeps schema_ok (first_order P)"
  unfolding first_order_def by (intro keeps_intro)

lemma schema_find_payment [keeps_intro]: "keeps schema_ok (find_payment oid key)"
  unfolding find_payment_def by (intro keeps_intro)

lemma schema_find_held [keeps_intro]: "keeps schema_ok (find_held oid)"
  unfolding find_held_def by (intro keeps_intro)

lemma schema_Claim [keeps_intro]: "keeps schema_ok (Claim c e t)"
proof (rule keepsI)
  fix d assume "schema_ok d"
  then show "db_wp (Claim c e t) (\<lambda>_. schema_ok) d"
    by (intro Claim_rule) (auto simp: schema_defs add_inbox_def inbox_ok_def processed_def
        inbox_key_def table_simps)
qed

section \<open>The transactions keep the schema\<close>

lemma schema_hold_lines [keeps_intro]: "keeps schema_ok (hold_lines its ls tot)"
  by (induction its arbitrary: ls tot) (auto intro!: keeps_intro)

lemma schema_insert_line [keeps_intro]: "keeps schema_ok (insert_line oid t ln)"
  unfolding insert_line_def by (intro keeps_intro)

lemma schema_CreateOrder [keeps_intro]: "keeps schema_ok (CreateOrder_tx userID items)"
  unfolding CreateOrder_tx_def by (intro keeps_intro)

lemma schema_release [keeps_intro]: "keeps schema_ok (releaseReservations oid)"
  unfolding releaseReservations_def release_one_def by (intro keeps_intro)

lemma schema_commit [keeps_intro]: "keeps schema_ok (commitReservations oid)"
  unfolding commitReservations_def by (intro keeps_intro)

lemma schema_cancel [keeps_intro]: "keeps schema_ok load \<Longrightarrow> keeps schema_ok (cancelLocked_tx load)"
  unfolding cancelLocked_tx_def Let_def by (intro keeps_intro)

lemma schema_Pay [keeps_intro]: "keeps schema_ok (Pay_tx userID oid outcome key)"
  unfolding Pay_tx_def pay_fail_def pay_ok_def new_payment_def Let_def by (intro keeps_intro)

lemma schema_Fulfill [keeps_intro]: "keeps schema_ok (Fulfill_tx oid)"
  unfolding Fulfill_tx_def Let_def by (intro keeps_intro)

end
