(* ===== verification/Order_Spec.thy ===== *)
theory Order_Spec
  imports Order_Schema
begin

text \<open>
  What the transactions on orders do to the tables.  Each effect is a relation between the
  tables before and after a successful run, stated without the statements, the loops and
  the order in which the code issues them:

  \<^item> \<open>shifted f\<close>: the stock of every product moved by \<open>f\<close> of its id;
  \<^item> \<open>released oid\<close>, \<open>committed oid\<close>: the held reservations of the order were released (the
    stock returned, one ledger row each) or committed (one ledger row each);
  \<^item> \<open>advanced oid st\<close>: the order has the status \<open>st\<close> and the next version;
  \<^item> \<open>created\<close>: a pending order with its items, held reservations and ledger rows.
\<close>

section \<open>Stock movements\<close>

definition facts :: "ProductModel \<Rightarrow> ProductModel" where
  "facts p = p\<lparr>p_Stock := 0, p_UpdatedAt := 0\<rparr>"

definition shifted :: "(uint \<Rightarrow> int) \<Rightarrow> ProductModel list \<Rightarrow> ProductModel list \<Rightarrow> bool" where
  "shifted f = list_all2 (\<lambda>p p'. facts p' = facts p \<and> p_Stock p' = p_Stock p + f (p_ID p))"

definition qty_of :: "uint \<Rightarrow> (uint \<times> int) list \<Rightarrow> int" where
  "qty_of pid ls = sum_list (map (\<lambda>(p, q). if p = pid then q else 0) ls)"

definition stock_of :: "uint \<Rightarrow> db \<Rightarrow> int" where
  "stock_of pid d = (case List.find (\<lambda>p. p_ID p = pid) (products d) of None \<Rightarrow> 0 | Some p \<Rightarrow> p_Stock p)"

lemma qty_of_simps [simp]:
  "qty_of pid [] = 0" "qty_of pid ((p, q) # ls) = (if p = pid then q else 0) + qty_of pid ls"
  "qty_of pid (ls @ ks) = qty_of pid ls + qty_of pid ks"
  by (simp_all add: qty_of_def)

lemma qty_of_nonneg: "(\<And>p q. (p, q) \<in> set ls \<Longrightarrow> 0 \<le> q) \<Longrightarrow> 0 \<le> qty_of pid ls"
proof (induction ls)
  case (Cons x ls)
  have "0 \<le> qty_of pid ls" using Cons.prems by (intro Cons.IH) auto
  moreover have "0 \<le> snd x" using Cons.prems [of "fst x" "snd x"] by simp
  ultimately show ?case by (cases x) auto
qed simp

lemma facts_ID: "facts p = facts q \<Longrightarrow> p_ID p = p_ID q"
  by (cases p; cases q) (simp add: facts_def)

lemma facts_update [simp]: "facts (p\<lparr>p_Stock := a, p_UpdatedAt := t\<rparr>) = facts p"
  by (simp add: facts_def)

lemma shifted_zero [simp]: "shifted (\<lambda>_. 0) ps ps"
  by (simp add: shifted_def list_all2_refl)

lemma shifted_trans: "shifted f ps qs \<Longrightarrow> shifted g qs rs \<Longrightarrow> shifted (\<lambda>i. f i + g i) ps rs"
  unfolding shifted_def
  by (erule (1) list_all2_trans [rotated]) (auto dest: facts_ID)

lemma shifted_ids: "shifted f ps qs \<Longrightarrow> map p_ID qs = map p_ID ps"
  unfolding shifted_def
  by (induction ps qs rule: list_all2_induct) (auto dest: facts_ID)

lemma shifted_update:
  "(\<And>p. p \<in> set ps \<Longrightarrow> P p \<longleftrightarrow> p_ID p = pid)
   \<Longrightarrow> shifted (\<lambda>i. if pid = i then q else 0) ps
        (update_where P (\<lambda>p. p\<lparr>p_Stock := p_Stock p + q, p_UpdatedAt := t\<rparr>) ps)"
  unfolding shifted_def by (induction ps) auto

lemma shifted_find:
  "shifted f ps qs \<Longrightarrow>
   (case List.find (\<lambda>p. p_ID p = pid) qs of None \<Rightarrow> 0 | Some p \<Rightarrow> p_Stock p)
   = (case List.find (\<lambda>p. p_ID p = pid) ps of None \<Rightarrow> 0 | Some p \<Rightarrow> p_Stock p + f pid)"
  unfolding shifted_def
  by (induction ps qs rule: list_all2_induct) (auto dest: facts_ID)

lemma find_None_key: "List.find (\<lambda>r. k r = x) rs = None \<longleftrightarrow> x \<notin> set (map k rs)"
  by (induction rs) auto

lemma shifted_stock_of:
  assumes "shifted f (products d) (products d')"
  shows "stock_of pid d' = stock_of pid d + (if pid \<in> set (map p_ID (products d)) then f pid else 0)"
  using shifted_find [OF assms, of pid] find_None_key [of p_ID pid "products d"]
  by (cases "List.find (\<lambda>p. p_ID p = pid) (products d)") (auto simp: stock_of_def)

lemma shifted_nonneg:
  "shifted f ps qs \<Longrightarrow> (\<And>p. p \<in> set ps \<Longrightarrow> 0 \<le> p_Stock p + f (p_ID p)) \<Longrightarrow> q \<in> set qs \<Longrightarrow> 0 \<le> p_Stock q"
  unfolding shifted_def
  by (induction ps qs rule: list_all2_induct) auto

section \<open>Effects on reservations\<close>

definition rv_pair :: "ReservationModel \<Rightarrow> uint \<times> int" where
  "rv_pair r = (rv_ProductID r, rv_Qty r)"

definition restatus :: "string \<Rightarrow> time \<Rightarrow> ReservationModel \<Rightarrow> ReservationModel" where
  "restatus st t r = r\<lparr>rv_Status := st, rv_UpdatedAt := t\<rparr>"

definition movement :: "uint \<Rightarrow> string \<Rightarrow> (ReservationModel \<Rightarrow> int) \<Rightarrow> ReservationModel \<Rightarrow> LedgerEntry \<Rightarrow> bool" where
  "movement oid reason delta r e = (le_ProductID e = rv_ProductID r \<and> le_OrderID e = Some oid
     \<and> le_Delta e = delta r \<and> le_Reason e = reason)"

definition released_rows :: "uint \<Rightarrow> time \<Rightarrow> ReservationModel list \<Rightarrow> db \<Rightarrow> db \<Rightarrow> bool" where
  "released_rows oid t rows d d' = (\<exists>ps es.
     d' = d\<lparr>products := ps,
            reservations := update_where (\<lambda>r. rv_ID r \<in> set (map rv_ID rows))
              (restatus ReservationReleased t) (reservations d),
            stock_ledger := stock_ledger d @ es\<rparr>
     \<and> shifted (\<lambda>i. qty_of i (map rv_pair rows)) (products d) ps
     \<and> list_all2 (movement oid ReasonRelease rv_Qty) rows es)"

definition released :: "uint \<Rightarrow> db \<Rightarrow> db \<Rightarrow> bool" where
  "released oid d d' = (\<exists>ps es t.
     d' = d\<lparr>products := ps,
            reservations := update_where (held_of oid) (restatus ReservationReleased t) (reservations d),
            stock_ledger := stock_ledger d @ es\<rparr>
     \<and> shifted (\<lambda>i. qty_of i (map rv_pair (filter (held_of oid) (reservations d)))) (products d) ps
     \<and> list_all2 (movement oid ReasonRelease rv_Qty) (filter (held_of oid) (reservations d)) es)"

definition committed_rows :: "uint \<Rightarrow> ReservationModel list \<Rightarrow> db \<Rightarrow> db \<Rightarrow> bool" where
  "committed_rows oid rows d d' = (\<exists>es. d' = d\<lparr>stock_ledger := stock_ledger d @ es\<rparr>
     \<and> list_all2 (movement oid ReasonCommit (\<lambda>_. 0)) rows es)"

definition committed :: "uint \<Rightarrow> db \<Rightarrow> db \<Rightarrow> bool" where
  "committed oid d d' = (\<exists>es t.
     d' = d\<lparr>reservations := update_where (held_of oid) (restatus ReservationCommitted t) (reservations d),
            stock_ledger := stock_ledger d @ es\<rparr>
     \<and> list_all2 (movement oid ReasonCommit (\<lambda>_. 0)) (filter (held_of oid) (reservations d)) es)"

lemma restatus_simps [simp]:
  "rv_ID (restatus st t r) = rv_ID r" "rv_OrderID (restatus st t r) = rv_OrderID r"
  "rv_ProductID (restatus st t r) = rv_ProductID r" "rv_Qty (restatus st t r) = rv_Qty r"
  "rv_Status (restatus st t r) = st" "rv_CreatedAt (restatus st t r) = rv_CreatedAt r"
  "restatus st t (restatus st t r) = restatus st t r"
  by (simp_all add: restatus_def)

lemma released_rows_Nil [simp]: "released_rows oid t [] d d"
proof -
  have "update_where (\<lambda>_. False) f rs = rs" for f and rs :: "ReservationModel list"
    by (induction rs) auto
  then show ?thesis
    unfolding released_rows_def
    by (intro exI [of _ "products d"] exI [of _ "[]"]) simp
qed

lemma released_rows_append:
  assumes "released_rows oid t xs d d1" and "released_rows oid t ys d1 d2"
  shows "released_rows oid t (xs @ ys) d d2"
proof -
  let ?f = "restatus ReservationReleased t"
  from assms obtain ps es ps' es' where
    1: "d1 = d\<lparr>products := ps, reservations := update_where (\<lambda>r. rv_ID r \<in> set (map rv_ID xs)) ?f
              (reservations d), stock_ledger := stock_ledger d @ es\<rparr>"
      "shifted (\<lambda>i. qty_of i (map rv_pair xs)) (products d) ps"
      "list_all2 (movement oid ReasonRelease rv_Qty) xs es"
    and 2: "d2 = d1\<lparr>products := ps', reservations := update_where (\<lambda>r. rv_ID r \<in> set (map rv_ID ys)) ?f
              (reservations d1), stock_ledger := stock_ledger d1 @ es'\<rparr>"
      "shifted (\<lambda>i. qty_of i (map rv_pair ys)) (products d1) ps'"
      "list_all2 (movement oid ReasonRelease rv_Qty) ys es'"
    by (auto simp: released_rows_def)
  have "update_where (\<lambda>r. rv_ID r \<in> B) ?f (update_where (\<lambda>r. rv_ID r \<in> A) ?f rs)
        = update_where (\<lambda>r. rv_ID r \<in> A \<union> B) ?f rs" for A B rs
    by (induction rs) auto
  moreover from 1 2 have "shifted (\<lambda>i. qty_of i (map rv_pair (xs @ ys))) (products d) ps'"
    by (auto dest: shifted_trans)
  ultimately show ?thesis
    using 1 2 unfolding released_rows_def
    by (intro exI [of _ ps'] exI [of _ "es @ es'"]) (simp add: list_all2_appendI)
qed

section \<open>Rules for the statements\<close>

lemma take_product_rule [vcg]:
  "Q (List.find (\<lambda>p. p_ID p = pid \<and> p_DeletedAt p = None) (products d)) d
   \<Longrightarrow> db_wp (take_product pid) Q d"
  unfolding take_product_def by (rule vcg)

lemma scan_stock_rule [vcg]: "Q (stock_of pid d) d \<Longrightarrow> db_wp (scan_stock pid) Q d"
  unfolding scan_stock_def stock_of_def by (rule vcg)

lemma first_order_rule [vcg]:
  "(\<And>o'. o' \<in> set (orders d) \<Longrightarrow> P o' \<Longrightarrow> Q o' d) \<Longrightarrow> db_wp (first_order P) Q d"
  unfolding first_order_def by (intro vcg) (auto dest: find_SomeD)

lemma find_payment_rule [vcg]:
  "(\<And>p. p \<in> set (payments d) \<Longrightarrow> pay_OrderID p = oid \<Longrightarrow> pay_IdempotencyKey p = key \<Longrightarrow> Q (Some p) d)
   \<Longrightarrow> ((\<And>p. p \<in> set (payments d) \<Longrightarrow> pay_OrderID p = oid \<Longrightarrow> pay_IdempotencyKey p \<noteq> key) \<Longrightarrow> Q None d)
   \<Longrightarrow> db_wp (find_payment oid key) Q d"
  unfolding find_payment_def
  by (rule vcg, cases "List.find (\<lambda>p. pay_OrderID p = oid \<and> pay_IdempotencyKey p = key) (payments d)")
    (auto dest: find_SomeD find_NoneD)

lemma find_held_rule [vcg]: "Q (filter (held_of oid) (reservations d)) d \<Longrightarrow> db_wp (find_held oid) Q d"
  unfolding find_held_def by (rule vcg)

lemma save_order_rule [vcg]:
  "Q () (d\<lparr>orders := update_where (\<lambda>r. o_ID r = o_ID o') (\<lambda>_. o') (orders d)\<rparr>)
   \<Longrightarrow> db_wp (save_order o') Q d"
  unfolding save_order_def by (rule vcg) (auto split: if_splits)

lemma set_reservation_rule [vcg]:
  "Q () (d\<lparr>reservations := update_where P (restatus st t) (reservations d)\<rparr>)
   \<Longrightarrow> db_wp (set_reservation P st t) Q d"
  unfolding set_reservation_def restatus_def by (rule vcg) auto

lemma return_stock_rule [vcg]:
  assumes "\<And>ps. shifted (\<lambda>i. if pid = i then qty else 0) (products d) ps
     \<Longrightarrow> Q () (d\<lparr>products := ps\<rparr>)"
  shows "db_wp (return_stock pid qty) Q d"
  unfolding return_stock_def
  by (rule vcg) (auto split: if_splits intro!: assms shifted_update)

lemma release_one_rule:
  "(\<And>d'. released_rows oid t [row] d d' \<Longrightarrow> Q () d') \<Longrightarrow> db_wp (release_one oid t row) Q d"
  unfolding release_one_def
proof (intro vcg, goal_cases)
  case (1 ps e)
  from 1(2-) show ?case
    by (intro 1(1)) (auto simp: released_rows_def add_ledger_def movement_def rv_pair_def
        intro!: exI [of _ ps] exI [of _ "[e]"])
qed

lemma release_each_rule:
  assumes "distinct (map rv_ID (reservations d))" and "\<And>d'. released oid d d' \<Longrightarrow> Q () d'"
  shows "db_wp (for_each (release_one oid t) (filter (held_of oid) (reservations d))) Q d"
proof -
  let ?rows = "filter (held_of oid) (reservations d)"
  have sel: "rv_ID r \<in> set (map rv_ID ?rows) \<longleftrightarrow> held_of oid r" if "r \<in> set (reservations d)" for r
    using that assms(1) by (auto dest: key_unique)
  then have upd: "update_where (\<lambda>r. rv_ID r \<in> set (map rv_ID ?rows)) f (reservations d)
      = update_where (held_of oid) f (reservations d)" for f
    by (auto simp: update_where_def)
  have "Q () d'" if "released_rows oid t ?rows d d'" for d'
    using that assms(2) by (auto simp: released_rows_def released_def upd simp del: set_map)
  then show ?thesis
    by (intro db_wp_for_each [where I = "\<lambda>xs d'. \<exists>dn. ?rows = dn @ xs \<and> released_rows oid t dn d d'"])
      (auto intro!: release_one_rule intro: released_rows_append)
qed

lemma releaseReservations_rule [vcg]:
  assumes "distinct (map rv_ID (reservations d))" and "\<And>d'. released oid d d' \<Longrightarrow> Q () d'"
  shows "db_wp (releaseReservations oid) Q d"
  unfolding releaseReservations_def by (intro vcg release_each_rule assms)

lemma committed_rows_append:
  assumes "committed_rows oid xs d d1" and "committed_rows oid ys d1 d2"
  shows "committed_rows oid (xs @ ys) d d2"
proof -
  from assms obtain es es' where "d1 = d\<lparr>stock_ledger := stock_ledger d @ es\<rparr>"
    "d2 = d1\<lparr>stock_ledger := stock_ledger d1 @ es'\<rparr>"
    "list_all2 (movement oid ReasonCommit (\<lambda>_. 0)) xs es"
    "list_all2 (movement oid ReasonCommit (\<lambda>_. 0)) ys es'"
    by (auto simp: committed_rows_def)
  then show ?thesis
    unfolding committed_rows_def by (intro exI [of _ "es @ es'"]) (simp add: list_all2_appendI)
qed

lemma commit_one_rule:
  "(\<And>d'. committed_rows oid [row] d d' \<Longrightarrow> Q () d')
   \<Longrightarrow> db_wp (Append (rv_ProductID row) (Some oid) 0 ReasonCommit None) Q d"
proof (intro vcg, goal_cases)
  case (1 e)
  then show ?case
    by (intro 1(1)) (auto simp: committed_rows_def add_ledger_def movement_def intro!: exI [of _ "[e]"])
qed

lemma commitReservations_rule [vcg]:
  assumes "\<And>d'. committed oid d d' \<Longrightarrow> Q () d'"
  shows "db_wp (commitReservations oid) Q d"
  unfolding commitReservations_def
proof (intro vcg)
  fix t
  let ?rows = "filter (held_of oid) (reservations d)"
  have fin: "Q () (d'\<lparr>reservations := update_where (held_of oid) (restatus ReservationCommitted t)
      (reservations d')\<rparr>)" if I: "committed_rows oid ?rows d d'" for d'
  proof -
    from I obtain es where es: "d' = d\<lparr>stock_ledger := stock_ledger d @ es\<rparr>"
      "list_all2 (movement oid ReasonCommit (\<lambda>_. 0)) ?rows es" by (auto simp: committed_rows_def)
    then show ?thesis
      by (intro assms) (auto simp: committed_def intro!: exI [of _ es] exI [of _ t])
  qed
  have "committed_rows oid [] d d" by (auto simp: committed_rows_def intro: exI [of _ "[]"])
  with fin show "db_wp (for_each (\<lambda>row. Append (rv_ProductID row) (Some oid) 0 ReasonCommit None) ?rows)
     (\<lambda>_. db_wp (set_reservation (held_of oid) ReservationCommitted t) Q) d"
    by (intro db_wp_for_each [where I = "\<lambda>xs d'. \<exists>dn. ?rows = dn @ xs \<and> committed_rows oid dn d d'"])
      (auto intro!: commit_one_rule set_reservation_rule intro: committed_rows_append)
qed

section \<open>Moves of the state machine\<close>

text \<open>A transaction that moves the order \<open>oid\<close> along the state machine: what it does to the
  reservations (\<open>S\<close>), the new status, the payments it records and its event.\<close>

definition transitioned ::
  "(db \<Rightarrow> db \<Rightarrow> bool) \<Rightarrow> uint \<Rightarrow> string \<Rightarrow> string \<Rightarrow> PaymentModel list \<Rightarrow> db \<Rightarrow> db \<Rightarrow> bool" where
  "transitioned S oid st ev pays d d' = (\<exists>order t row payload d1.
     order \<in> set (orders d) \<and> o_ID order = oid \<and> CanTransition (o_Status order) st \<and> S d d1
     \<and> enqueued ''order'' oid ev payload row \<and> map_of (rev payload) ''orderId'' = Some (GUint oid)
     \<and> (\<forall>p\<in>set pays. pay_OrderID p = oid \<and> pay_Amount p = o_Total order)
     \<and> d' = d1\<lparr>orders := update_where (\<lambda>r. o_ID r = oid) (advance st t) (orders d),
               payments := payments d @ pays, outbox_events := outbox_events d @ [row]\<rparr>)"

lemma advance_simps [simp]:
  "o_ID (advance st t o') = o_ID o'" "o_UserID (advance st t o') = o_UserID o'"
  "o_Status (advance st t o') = st" "o_Total (advance st t o') = o_Total o'"
  "o_Version (advance st t o') = o_Version o' + 1" "o_Currency (advance st t o') = o_Currency o'"
  by (simp_all add: advance_def)

lemma save_is_advance:
  assumes "distinct (map o_ID os)" and "order \<in> set os"
  shows "update_where (\<lambda>r. o_ID r = o_ID order) (\<lambda>_. advance st t order) os
       = update_where (\<lambda>r. o_ID r = o_ID order) (advance st t) os"
  using assms by (auto simp: update_where_def dest: key_unique)

lemma transitionedI:
  "order \<in> set (orders d) \<Longrightarrow> o_ID order = oid \<Longrightarrow> CanTransition (o_Status order) st \<Longrightarrow> S d dm
   \<Longrightarrow> enqueued ''order'' oid ev payload row \<Longrightarrow> map_of (rev payload) ''orderId'' = Some (GUint oid)
   \<Longrightarrow> (\<And>p. p \<in> set pays \<Longrightarrow> pay_OrderID p = oid \<and> pay_Amount p = o_Total order)
   \<Longrightarrow> d' = dm\<lparr>orders := update_where (\<lambda>r. o_ID r = oid) (advance st t) (orders d),
               payments := payments d @ pays, outbox_events := outbox_events d @ [row]\<rparr>
   \<Longrightarrow> transitioned S oid st ev pays d d'"
  unfolding transitioned_def by blast

text \<open>Releasing and committing do not look at the orders and the payments.\<close>

definition frames :: "(db \<Rightarrow> db \<Rightarrow> bool) \<Rightarrow> bool" where
  "frames S = (\<forall>d ps os d2. S (d\<lparr>payments := ps, orders := os\<rparr>) d2
     \<longrightarrow> (\<exists>d1. S d d1 \<and> d2 = d1\<lparr>payments := ps, orders := os\<rparr>))"

lemma frames_released: "frames (released oid)"
  unfolding frames_def
proof (intro allI impI)
  fix d ps os d2
  assume S: "released oid (d\<lparr>payments := ps, orders := os\<rparr>) d2"
  let ?d1 = "d2\<lparr>orders := orders d, payments := payments d\<rparr>"
  from S have "released oid d ?d1"
    unfolding released_def by (elim exE conjE) (intro exI conjI, auto intro!: db.equality)
  moreover from S have "d2 = ?d1\<lparr>payments := ps, orders := os\<rparr>"
    by (auto simp: released_def intro!: db.equality)
  ultimately show "\<exists>d1. released oid d d1 \<and> d2 = d1\<lparr>payments := ps, orders := os\<rparr>" by blast
qed

lemma frames_committed: "frames (committed oid)"
  unfolding frames_def
proof (intro allI impI)
  fix d ps os d2
  assume S: "committed oid (d\<lparr>payments := ps, orders := os\<rparr>) d2"
  let ?d1 = "d2\<lparr>orders := orders d, payments := payments d\<rparr>"
  from S have "committed oid d ?d1"
    unfolding committed_def by (elim exE conjE) (intro exI conjI, auto intro!: db.equality)
  moreover from S have "d2 = ?d1\<lparr>payments := ps, orders := os\<rparr>"
    by (auto simp: committed_def intro!: db.equality)
  ultimately show "\<exists>d1. committed oid d d1 \<and> d2 = d1\<lparr>payments := ps, orders := os\<rparr>" by blast
qed

lemma released_same:
  "released oid d d1 \<Longrightarrow> orders d1 = orders d \<and> payments d1 = payments d
     \<and> outbox_events d1 = outbox_events d"
  by (auto simp: released_def)

lemma committed_same:
  "committed oid d d1 \<Longrightarrow> orders d1 = orders d \<and> payments d1 = payments d
     \<and> outbox_events d1 = outbox_events d"
  by (auto simp: committed_def)

lemma status_payload_id [simp]:
  "map_of (rev (status_payload o')) ''orderId'' = Some (GUint (o_ID o'))"
  "map_of (rev (status_payload o' @ [(''total'', v)])) ''orderId'' = Some (GUint (o_ID o'))"
  by (simp_all add: status_payload_def)

lemma cancelLocked_rule:
  assumes ok: "keys_ok d"
    and Q: "\<And>order t d'. order \<in> set (orders d) \<Longrightarrow> P order
      \<Longrightarrow> transitioned (released (o_ID order)) (o_ID order) OrderCancelled EventOrderCancelled [] d d'
      \<Longrightarrow> Q (advance OrderCancelled t order) d'"
  shows "db_wp (cancelLocked_tx (first_order P)) Q d"
  unfolding cancelLocked_tx_def Let_def
proof (intro vcg, goal_cases)
  case 1
  from ok show ?case by (simp add: keys_ok_def)
next
  case (2 order st d1 t row)
  from ok have "distinct (map o_ID (orders d))" by (simp add: keys_ok_def)
  note save = save_is_advance [OF this 2(1)]
  have st: "CanTransition (o_Status order) OrderCancelled" "st = OrderCancelled"
    using 2(3) by simp_all
  have "transitioned (released (o_ID order)) (o_ID order) OrderCancelled EventOrderCancelled [] d
     (add_outbox row (d1\<lparr>orders := update_where (\<lambda>r. o_ID r = o_ID (advance st t order))
        (\<lambda>_. advance st t order) (orders d1)\<rparr>))"
    using 2 st released_same [OF 2(4)] save
    by (intro transitionedI [where order = order and row = row and t = t and dm = d1
          and payload = "status_payload (advance st t order)"])
      (auto simp: add_outbox_def intro!: db.equality)
  from Q [OF 2(1,2) this] st show ?case by simp
qed

lemma framesE:
  assumes "frames S" and "S ((add_payment pay d)\<lparr>orders := os\<rparr>) d2"
  obtains d1 where "S d d1" and "d2 = d1\<lparr>payments := payments d @ [pay], orders := os\<rparr>"
  using assms unfolding frames_def add_payment_def by blast

lemma add_payment_simps [simp]:
  "orders (add_payment p d) = orders d" "reservations (add_payment p d) = reservations d"
  "outbox_events (add_payment p d) = outbox_events d"
  by (simp_all add: add_payment_def)

definition simulated :: "OrderModel \<Rightarrow> string \<Rightarrow> string \<Rightarrow> PaymentModel \<Rightarrow> bool" where
  "simulated order key status pay = (pay_OrderID pay = o_ID order \<and> pay_IdempotencyKey pay = key
     \<and> pay_Status pay = status \<and> pay_Amount pay = o_Total order \<and> pay_Attempt pay = 1)"

lemma new_payment_rule [vcg]:
  "(\<And>pay. simulated order key status pay \<Longrightarrow> payment_refuse pay d = None \<Longrightarrow> Q pay (add_payment pay d))
   \<Longrightarrow> db_wp (new_payment order key t status ref) Q d"
  unfolding new_payment_def by (rule vcg) (simp add: simulated_def)

text \<open>The two outcomes of a charge share one shape: a payment, the new status, the effect on
  the reservations, the event.\<close>

lemma charged:
  assumes "keys_ok d" and "order \<in> set (orders d)" and "CanTransition (o_Status order) st"
    and "simulated order key status pay" and "frames S" and "\<And>d d1. S d d1 \<Longrightarrow> outbox_events d1 = outbox_events d"
    and "S ((add_payment pay d)\<lparr>orders := update_where (\<lambda>r. o_ID r = o_ID order)
            (\<lambda>_. advance st t order) (orders d)\<rparr>) d2"
    and "enqueued ''order'' (o_ID order) ev payload row"
    and "map_of (rev payload) ''orderId'' = Some (GUint (o_ID order))"
  shows "transitioned S (o_ID order) st ev [pay] d (add_outbox row d2)"
proof -
  have "distinct (map o_ID (orders d))" using assms(1) by (simp add: keys_ok_def)
  note save = save_is_advance [OF this assms(2)]
  obtain d1 where "S d d1"
    "d2 = d1\<lparr>payments := payments d @ [pay], orders := update_where (\<lambda>r. o_ID r = o_ID order)
            (\<lambda>_. advance st t order) (orders d)\<rparr>"
    using framesE [OF assms(5,7)] by blast
  then show ?thesis
    using assms save
    by (intro transitionedI [where order = order and row = row and t = t and dm = d1 and payload = payload])
      (auto simp: add_outbox_def simulated_def intro!: db.equality)
qed

lemma pay_fail_rule:
  assumes ok: "keys_ok d" and o': "order \<in> set (orders d)"
    and Q: "\<And>st pay d'. simulated order key PaymentFailed pay \<Longrightarrow> payment_refuse pay d = None
      \<Longrightarrow> transitioned (released (o_ID order)) (o_ID order) OrderPaymentFailed EventOrderPaymentFailed
            [pay] d d' \<Longrightarrow> Q (advance OrderPaymentFailed t order, Some pay) d'"
  shows "db_wp (pay_fail order key t) Q d"
  unfolding pay_fail_def Let_def
proof (intro vcg, goal_cases)
  case 1
  from ok show ?case by (simp add: keys_ok_def)
next
  case (2 st pay d2 row)
  then have "transitioned (released (o_ID order)) (o_ID order) OrderPaymentFailed EventOrderPaymentFailed
            [pay] d (add_outbox row d2)"
    using ok o' released_same by (intro charged [OF _ _ _ _ frames_released]) auto
  with 2 show ?case by (auto intro: Q)
qed

lemma pay_ok_rule:
  assumes ok: "keys_ok d" and o': "order \<in> set (orders d)"
    and Q: "\<And>st pay d'. simulated order key PaymentSucceeded pay \<Longrightarrow> payment_refuse pay d = None
      \<Longrightarrow> transitioned (committed (o_ID order)) (o_ID order) OrderPaid EventOrderPaid [pay] d d'
      \<Longrightarrow> Q (advance OrderPaid t order, Some pay) d'"
  shows "db_wp (pay_ok order key t) Q d"
  unfolding pay_ok_def Let_def
proof (intro vcg, goal_cases)
  case (1 st pay d2 row)
  then have "transitioned (committed (o_ID order)) (o_ID order) OrderPaid EventOrderPaid
            [pay] d (add_outbox row d2)"
    using ok o' committed_same by (intro charged [OF _ _ _ _ frames_committed]) auto
  with 1 show ?case by (auto intro: Q)
qed

text \<open>\<open>Pay\<close>: a replay, an order already paid, or one of the two outcomes.\<close>

lemma Pay_rule:
  assumes "keys_ok d"
    and "\<And>order pay. order \<in> set (orders d) \<Longrightarrow> o_ID order = oid \<Longrightarrow> o_UserID order = userID
      \<Longrightarrow> pay \<in> set (payments d) \<Longrightarrow> pay_OrderID pay = oid \<Longrightarrow> pay_IdempotencyKey pay = key
      \<Longrightarrow> Q (order, Some pay) d"
    and "\<And>order. order \<in> set (orders d) \<Longrightarrow> o_ID order = oid \<Longrightarrow> o_UserID order = userID
      \<Longrightarrow> o_Status order = OrderPaid \<or> o_Status order = OrderFulfilled \<Longrightarrow> Q (order, None) d"
    and "\<And>order pay t d'. order \<in> set (orders d) \<Longrightarrow> o_ID order = oid \<Longrightarrow> o_UserID order = userID
      \<Longrightarrow> outcome = ''fail'' \<Longrightarrow> simulated order key PaymentFailed pay
      \<Longrightarrow> transitioned (released oid) oid OrderPaymentFailed EventOrderPaymentFailed [pay] d d'
      \<Longrightarrow> Q (advance OrderPaymentFailed t order, Some pay) d'"
    and "\<And>order pay t d'. order \<in> set (orders d) \<Longrightarrow> o_ID order = oid \<Longrightarrow> o_UserID order = userID
      \<Longrightarrow> outcome \<notin> {''fail'', ''timeout''} \<Longrightarrow> simulated order key PaymentSucceeded pay
      \<Longrightarrow> transitioned (committed oid) oid OrderPaid EventOrderPaid [pay] d d'
      \<Longrightarrow> Q (advance OrderPaid t order, Some pay) d'"
  shows "db_wp (Pay_tx userID oid outcome key) Q d"
  unfolding Pay_tx_def
  by (intro vcg pay_fail_rule pay_ok_rule assms(1)) (auto intro: assms(2-))

lemma Fulfill_rule:
  assumes ok: "keys_ok d"
    and Q: "\<And>order t d'. order \<in> set (orders d) \<Longrightarrow> o_ID order = oid
      \<Longrightarrow> transitioned (=) oid OrderFulfilled EventOrderFulfilled [] d d'
      \<Longrightarrow> Q (advance OrderFulfilled t order) d'"
  shows "db_wp (Fulfill_tx oid) Q d"
  unfolding Fulfill_tx_def Let_def
proof (intro vcg, goal_cases)
  case (1 order st t row)
  from ok have "distinct (map o_ID (orders d))" by (simp add: keys_ok_def)
  note save = save_is_advance [OF this 1(1)]
  have st: "CanTransition (o_Status order) OrderFulfilled" "st = OrderFulfilled"
    using 1(3) by simp_all
  have "transitioned (=) oid OrderFulfilled EventOrderFulfilled [] d
     (add_outbox row (d\<lparr>orders := update_where (\<lambda>r. o_ID r = o_ID (advance st t order))
        (\<lambda>_. advance st t order) (orders d)\<rparr>))"
    using 1 st save
    by (intro transitionedI [where order = order and row = row and t = t and dm = d
          and payload = "status_payload (advance st t order)"])
      (auto simp: add_outbox_def intro!: db.equality)
  from Q [OF 1(1,2) this] st show ?case by simp
qed

section \<open>Creation\<close>

definition ln_pair :: "line \<Rightarrow> uint \<times> int" where
  "ln_pair l = (ln_productID l, ln_qty l)"

definition ci_pair :: "CreateItem \<Rightarrow> uint \<times> int" where
  "ci_pair it = (ci_ProductID it, ci_Qty it)"

definition add_price :: "float64 \<Rightarrow> line \<Rightarrow> float64" where
  "add_price tot l = f64_add tot (f64_mul (ln_price l) (f64_of_int (ln_qty l)))"

definition line_total :: "line list \<Rightarrow> float64" where
  "line_total ls = foldl add_price (f64_of_int 0) ls"

definition on_sale :: "ProductModel list \<Rightarrow> line \<Rightarrow> bool" where
  "on_sale ps l = (\<exists>p\<in>set ps. p_ID p = ln_productID l \<and> p_DeletedAt p = None \<and> p_Price p = ln_price l)"

definition held_lines ::
  "CreateItem list \<Rightarrow> line list \<Rightarrow> float64 \<Rightarrow> line list \<times> float64 \<Rightarrow> db \<Rightarrow> db \<Rightarrow> bool" where
  "held_lines its ls0 tot0 res d d' = (\<exists>ls ps.
     res = (ls0 @ ls, foldl add_price tot0 ls) \<and> map ln_pair ls = map ci_pair its
     \<and> (\<forall>it\<in>set its. ci_ProductID it \<noteq> 0 \<and> 0 < ci_Qty it) \<and> (\<forall>l\<in>set ls. on_sale (products d) l)
     \<and> d' = d\<lparr>products := ps\<rparr> \<and> shifted (\<lambda>i. - qty_of i (map ln_pair ls)) (products d) ps)"

lemma facts_same: "facts p = facts q \<Longrightarrow> p_DeletedAt p = p_DeletedAt q \<and> p_Price p = p_Price q"
  by (cases p; cases q) (simp add: facts_def)

lemma on_sale_shifted: "shifted f ps qs \<Longrightarrow> on_sale qs l \<Longrightarrow> on_sale ps l"
proof -
  assume s: "shifted f ps qs" and "on_sale qs l"
  then obtain q where q: "q \<in> set qs" "p_ID q = ln_productID l" "p_DeletedAt q = None"
    "p_Price q = ln_price l" by (auto simp: on_sale_def)
  from s q(1) obtain p where "p \<in> set ps" "facts q = facts p"
    unfolding shifted_def by (induction ps qs rule: list_all2_induct) auto
  with q facts_same [of q p] facts_ID [of q p] show "on_sale ps l" by (auto simp: on_sale_def)
qed

lemma hold_stock_rule:
  assumes "distinct (map p_ID (products d))" and "\<And>ps. Q 0 (d\<lparr>products := ps\<rparr>)"
    and "\<And>n ps. shifted (\<lambda>i. if pid = i then - qty else 0) (products d) ps
       \<Longrightarrow> Q (Suc n) (d\<lparr>products := ps\<rparr>)"
  shows "db_wp (hold_stock pid qty) Q d"
  unfolding hold_stock_def
proof (rule vcg)
  fix t a d'
  let ?sel = "\<lambda>p. p_ID p = pid \<and> p_DeletedAt p = None \<and> qty \<le> p_Stock p"
  let ?upd = "update_where ?sel (\<lambda>p. p\<lparr>p_Stock := p_Stock p + - qty, p_UpdatedAt := t\<rparr>) (products d)"
  assume "(let sel = ?sel in if \<not> is_int4 qty then Inl out_of_range
      else Inr (length (filter sel (products d)), d\<lparr>products := update_where sel
              (\<lambda>p. p\<lparr>p_Stock := p_Stock p - qty, p_UpdatedAt := t\<rparr>) (products d)\<rparr>))
      = Inr (a, d')"
  then have a: "a = length (filter ?sel (products d))" and d': "d' = d\<lparr>products := ?upd\<rparr>"
    by (auto simp: Let_def split: if_splits)
  show "Q a d'"
  proof (cases a)
    case 0
    with d' assms(2) show ?thesis by simp
  next
    case (Suc n)
    then have "filter ?sel (products d) \<noteq> []" using a by (metis list.size(3) nat.distinct(1))
    then obtain q where "q \<in> set (products d)" "?sel q" by (auto simp: filter_empty_conv)
    then have "?sel p \<longleftrightarrow> p_ID p = pid" if "p \<in> set (products d)" for p
      using that assms(1) by (auto dest: key_unique [of p_ID _ p q])
    then have "shifted (\<lambda>i. if pid = i then - qty else 0) (products d) ?upd"
      by (rule shifted_update)
    with Suc d' assms(3) show ?thesis by simp
  qed
qed

lemma held_lines_Nil: "held_lines [] ls tot (ls, tot) d d"
  by (auto simp: held_lines_def intro!: exI [of _ "products d"])

lemma held_lines_Cons:
  assumes "ci_ProductID it \<noteq> 0" "0 < ci_Qty it"
    and "List.find (\<lambda>p. p_ID p = ci_ProductID it \<and> p_DeletedAt p = None) (products d) = Some p"
    and "shifted (\<lambda>i. if ci_ProductID it = i then - ci_Qty it else 0) (products d) ps"
    and "held_lines its
           (ls @ [\<lparr>ln_productID = ci_ProductID it, ln_qty = ci_Qty it, ln_price = p_Price p\<rparr>])
           (f64_add tot (f64_mul (p_Price p) (f64_of_int (ci_Qty it)))) res (d\<lparr>products := ps\<rparr>) d'"
  shows "held_lines (it # its) ls tot res d d'"
proof -
  let ?l = "\<lparr>ln_productID = ci_ProductID it, ln_qty = ci_Qty it, ln_price = p_Price p\<rparr>"
  from assms(5) obtain ls' qs where
    1: "res = ((ls @ [?l]) @ ls', foldl add_price (add_price tot ?l) ls')"
      "map ln_pair ls' = map ci_pair its" "\<forall>it\<in>set its. ci_ProductID it \<noteq> 0 \<and> 0 < ci_Qty it"
      "\<forall>l\<in>set ls'. on_sale ps l" "d' = d\<lparr>products := qs\<rparr>"
    and 2: "shifted (\<lambda>i. - qty_of i (map ln_pair ls')) ps qs"
    by (auto simp: held_lines_def add_price_def)
  from assms(3) have l: "on_sale (products d) ?l" by (auto simp: on_sale_def dest: find_SomeD)
  from 1(4) have ls': "\<forall>l\<in>set ls'. on_sale (products d) l" using on_sale_shifted [OF assms(4)] by blast
  have "(\<lambda>i. (if ci_ProductID it = i then - ci_Qty it else 0) + - qty_of i (map ln_pair ls'))
      = (\<lambda>i. - qty_of i (map ln_pair (?l # ls')))"
    by (auto simp: ln_pair_def)
  with shifted_trans [OF assms(4) 2]
  have "shifted (\<lambda>i. - qty_of i (map ln_pair (?l # ls'))) (products d) qs" by simp
  with 1 l ls' assms(1,2) show ?thesis
    unfolding held_lines_def
    by (intro exI [of _ "?l # ls'"] exI [of _ qs]) (auto simp: ln_pair_def ci_pair_def)
qed

lemma hold_lines_rule:
  assumes "keys_ok d" and "\<And>res d'. held_lines its ls tot res d d' \<Longrightarrow> Q res d'"
  shows "db_wp (hold_lines its ls tot) Q d"
  using assms
proof (induction its arbitrary: ls tot d)
  case Nil
  then show ?case by (auto intro!: vcg held_lines_Nil)
next
  case (Cons it its)
  have keys: "keys_ok (d\<lparr>products := ps\<rparr>)" if "shifted f (products d) ps" for f ps
    using Cons.prems(1) shifted_ids [OF that] by (simp add: keys_ok_def table_simps)
  have "distinct (map p_ID (products d))" using Cons.prems(1) by (simp add: keys_ok_def)
  then show ?case
    unfolding hold_lines.simps
    by (intro vcg hold_stock_rule) (auto intro!: vcg Cons.IH keys Cons.prems(2) held_lines_Cons)
qed

definition item_for :: "uint \<Rightarrow> line \<Rightarrow> OrderItemModel \<Rightarrow> bool" where
  "item_for oid l i = (oi_OrderID i = oid \<and> oi_ProductID i = ln_productID l \<and> oi_Qty i = ln_qty l
     \<and> oi_UnitPrice i = ln_price l)"

definition hold_for :: "uint \<Rightarrow> line \<Rightarrow> ReservationModel \<Rightarrow> bool" where
  "hold_for oid l r = (rv_OrderID r = oid \<and> rv_ProductID r = ln_productID l \<and> rv_Qty r = ln_qty l
     \<and> rv_Status r = ReservationHeld)"

definition hold_move :: "uint \<Rightarrow> line \<Rightarrow> LedgerEntry \<Rightarrow> bool" where
  "hold_move oid l e = (le_ProductID e = ln_productID l \<and> le_OrderID e = Some oid
     \<and> le_Delta e = - ln_qty l \<and> le_Reason e = ReasonHold)"

definition inserted :: "uint \<Rightarrow> line list \<Rightarrow> db \<Rightarrow> db \<Rightarrow> bool" where
  "inserted oid ls d d' = (\<exists>its rs es.
     d' = d\<lparr>order_items := order_items d @ its, reservations := reservations d @ rs,
            stock_ledger := stock_ledger d @ es\<rparr>
     \<and> list_all2 (item_for oid) ls its \<and> list_all2 (hold_for oid) ls rs
     \<and> list_all2 (hold_move oid) ls es)"

lemma inserted_Nil: "inserted oid [] d d"
  by (auto simp: inserted_def intro!: exI [of _ "[]"])

lemma inserted_append:
  assumes "inserted oid xs d d1" and "inserted oid ys d1 d2"
  shows "inserted oid (xs @ ys) d d2"
proof -
  from assms obtain its rs es its' rs' es' where
    "d1 = d\<lparr>order_items := order_items d @ its, reservations := reservations d @ rs,
            stock_ledger := stock_ledger d @ es\<rparr>"
    "d2 = d1\<lparr>order_items := order_items d1 @ its', reservations := reservations d1 @ rs',
            stock_ledger := stock_ledger d1 @ es'\<rparr>"
    "list_all2 (item_for oid) xs its" "list_all2 (hold_for oid) xs rs" "list_all2 (hold_move oid) xs es"
    "list_all2 (item_for oid) ys its'" "list_all2 (hold_for oid) ys rs'" "list_all2 (hold_move oid) ys es'"
    by (auto simp: inserted_def)
  then show ?thesis
    unfolding inserted_def
    by (intro exI [of _ "its @ its'"] exI [of _ "rs @ rs'"] exI [of _ "es @ es'"])
      (simp add: list_all2_appendI)
qed

lemma insert_line_rule:
  "(\<And>d'. inserted oid [l] d d' \<Longrightarrow> Q () d') \<Longrightarrow> db_wp (insert_line oid t l) Q d"
  unfolding insert_line_def
proof (intro vcg, goal_cases)
  case (1 i j e)
  show ?case
    by (rule 1(1), unfold inserted_def,
        intro exI [of _ "[\<lparr>oi_ID = i, oi_OrderID = oid, oi_ProductID = ln_productID l,
            oi_Qty = ln_qty l, oi_UnitPrice = ln_price l\<rparr>]"]
          exI [of _ "[\<lparr>rv_ID = j, rv_OrderID = oid, rv_ProductID = ln_productID l, rv_Qty = ln_qty l,
            rv_Status = ReservationHeld, rv_CreatedAt = t, rv_UpdatedAt = t\<rparr>]"] exI [of _ "[e]"])
      (use 1 in \<open>auto simp: add_item_def add_reservation_def add_ledger_def item_for_def
          hold_for_def hold_move_def intro!: db.equality\<close>)
qed

definition pending_order :: "uint \<Rightarrow> float64 \<Rightarrow> OrderModel \<Rightarrow> bool" where
  "pending_order userID tot o' = (o_UserID o' = userID \<and> o_Status o' = OrderPendingPayment
     \<and> o_Total o' = tot \<and> o_Currency o' = ''IDR'' \<and> o_Version o' = 1)"

definition created :: "uint \<Rightarrow> CreateItem list \<Rightarrow> OrderModel \<Rightarrow> db \<Rightarrow> db \<Rightarrow> bool" where
  "created userID items o' d d' = (\<exists>ls ps row d1.
     items \<noteq> [] \<and> map ln_pair ls = map ci_pair items \<and> (\<forall>l\<in>set ls. 0 < ln_qty l \<and> on_sale (products d) l)
     \<and> pending_order userID (line_total ls) o' \<and> o_ID o' \<notin> set (map o_ID (orders d))
     \<and> shifted (\<lambda>i. - qty_of i (map ln_pair ls)) (products d) ps
     \<and> inserted (o_ID o') ls (d\<lparr>products := ps, orders := orders d @ [o']\<rparr>) d1
     \<and> enqueued ''order'' (o_ID o') EventOrderCreated (created_payload o') row
     \<and> d' = add_outbox row d1)"

lemma CreateOrder_rule:
  assumes ok: "keys_ok d" and Q: "\<And>o' d'. created userID items o' d d' \<Longrightarrow> Q o' d'"
  shows "db_wp (CreateOrder_tx userID items) Q d"
  unfolding CreateOrder_tx_def
proof (intro vcg hold_lines_rule [OF ok], goal_cases)
  case (1 res d' lines tot t i)
  let ?o = "\<lparr>o_ID = i, o_UserID = userID, o_Status = OrderPendingPayment, o_Total = tot,
     o_Currency = ''IDR'', o_Version = 1, o_CreatedAt = t, o_UpdatedAt = t\<rparr>"
  from 1(2,3) obtain ps where ls: "tot = line_total lines" "map ln_pair lines = map ci_pair items"
    "\<forall>it\<in>set items. ci_ProductID it \<noteq> 0 \<and> 0 < ci_Qty it" "\<forall>l\<in>set lines. on_sale (products d) l"
    "d' = d\<lparr>products := ps\<rparr>" "shifted (\<lambda>i. - qty_of i (map ln_pair lines)) (products d) ps"
    by (auto simp: held_lines_def line_total_def)
  have qty: "\<forall>l\<in>set lines. 0 < ln_qty l"
  proof
    fix l assume "l \<in> set lines"
    then have "ln_pair l \<in> ci_pair ` set items" using ls(2) by (metis image_eqI list.set_map)
    with ls(3) show "0 < ln_qty l" by (auto simp: ln_pair_def ci_pair_def)
  qed
  have i: "o_ID ?o \<notin> set (map o_ID (orders d))"
    using 1(4) ls(5) by (simp add: order_refuse_def)
  have fin: "Q ?o (add_outbox row d1)"
    if "inserted (o_ID ?o) lines (d\<lparr>products := ps, orders := orders d @ [?o]\<rparr>) d1"
      "enqueued ''order'' (o_ID ?o) EventOrderCreated (created_payload ?o) row" for d1 row
    using that ls qty i 1(1) unfolding pending_order_def
    by (intro Q, unfold created_def)
      (intro exI [of _ lines] exI [of _ ps] exI [of _ row] exI [of _ d1],
        auto simp: pending_order_def)
  let ?d = "add_order ?o d'"
  have d: "?d = d\<lparr>products := ps, orders := orders d @ [?o]\<rparr>" using ls(5) by (simp add: add_order_def)
  show ?case
    by (rule db_wp_for_each [where I = "\<lambda>xs d'. \<exists>dn. lines = dn @ xs \<and> inserted (o_ID ?o) dn ?d d'"])
      (auto intro!: inserted_Nil insert_line_rule vcg fin simp: d intro: inserted_append)
qed

end
