(* ===== verification/Payment_Worker.thy ===== *)
theory Payment_Worker
  imports Order_Spec
begin

text \<open>
  \<open>internal/worker/payment/handler.go\<close>: the simulated provider that charges an order when
  it receives \<open>order.created\<close>.  One transaction claims the event in the inbox, loads the
  order and charges it.  \<open>releaseHeld\<close> and \<open>commitHeld\<close> are the worker's own copies of
  the repository's helpers; they are shown equal to them.  The conversion of a \<open>float64\<close>
  that no \<open>uint\<close> represents is implementation-defined in Go: \<open>asUint\<close> takes it as an
  argument.
\<close>

definition asUint :: "(float64 \<Rightarrow> uint) \<Rightarrow> goval \<Rightarrow> uint option" where
  "asUint conv v =
     (case v of
        GFloat n \<Rightarrow> Some (f64_to_uint conv n)
      | GInt n \<Rightarrow> Some (of_int n)
      | GInt64 n \<Rightarrow> Some (of_int n)
      | GUint n \<Rightarrow> Some n
      | GUint64 n \<Rightarrow> Some n
      | _ \<Rightarrow> None)"

definition releaseHeld_one :: "uint \<Rightarrow> time \<Rightarrow> ReservationModel \<Rightarrow> unit io" where
  "releaseHeld_one oid t row =
     bindE (return_stock (rv_ProductID row) (rv_Qty row)) (\<lambda>_.
     bindE (scan_stock (rv_ProductID row)) (\<lambda>bal.
     bindE (Append (rv_ProductID row) (Some oid) (rv_Qty row) ReasonRelease (Some bal)) (\<lambda>_.
     set_reservation (\<lambda>r. rv_ID r = rv_ID row) ReservationReleased t)))"

definition releaseHeld :: "uint \<Rightarrow> unit io" where
  "releaseHeld oid =
     bindE (find_held oid) (\<lambda>rows.
     bindE now (\<lambda>t.
     for_each (releaseHeld_one oid t) rows))"

definition commitHeld :: "uint \<Rightarrow> unit io" where
  "commitHeld oid =
     bindE now (\<lambda>t.
     bindE (find_held oid) (\<lambda>rows.
     bindE (for_each (\<lambda>row. Append (rv_ProductID row) (Some oid) 0 ReasonCommit None) rows) (\<lambda>_.
     set_reservation (held_of oid) ReservationCommitted t)))"

text \<open>\<open>UPDATE orders SET status = ?, version = ?, updated_at = ? WHERE id = ?\<close>\<close>

definition update_order :: "uint \<Rightarrow> string \<Rightarrow> int \<Rightarrow> time \<Rightarrow> unit io" where
  "update_order oid st version t =
     sql (\<lambda>_ d.
       if \<not> is_int4 version then Inl out_of_range
       else Inr ((), d\<lparr>orders := update_where (\<lambda>r. o_ID r = oid)
              (\<lambda>r. r\<lparr>o_Status := st, o_Version := version, o_UpdatedAt := t\<rparr>) (orders d)\<rparr>))"

definition find_order :: "uint \<Rightarrow> OrderModel option io" where
  "find_order oid = query (\<lambda>d. List.find (\<lambda>r. o_ID r = oid) (orders d))"

definition payment_payload :: "OrderModel \<Rightarrow> string \<Rightarrow> (string \<times> goval) list" where
  "payment_payload order st =
     [(''orderId'', GUint (o_ID order)), (''userId'', GUint (o_UserID order)), (''status'', GStr st)]"

definition charge_fail :: "OrderModel \<Rightarrow> string \<Rightarrow> time \<Rightarrow> unit io" where
  "charge_fail order key t =
     (case Transition (o_Status order) OrderPaymentFailed of
        Inl _ \<Rightarrow> ret ()
      | Inr next \<Rightarrow>
          bindE (new_payment order key t PaymentFailed ''worker-sim-fail'') (\<lambda>_.
          bindE (update_order (o_ID order) next (o_Version order + 1) t) (\<lambda>_.
          bindE (releaseHeld (o_ID order)) (\<lambda>_.
          bindE (Enqueue ''order'' (o_ID order) EventOrderPaymentFailed (payment_payload order next)) (\<lambda>_.
          ret ())))))"

definition charge_ok :: "OrderModel \<Rightarrow> string \<Rightarrow> time \<Rightarrow> unit io" where
  "charge_ok order key t =
     (case Transition (o_Status order) OrderPaid of
        Inl _ \<Rightarrow> ret ()
      | Inr next \<Rightarrow>
          bindE (new_payment order key t PaymentSucceeded ''worker-sim-ok'') (\<lambda>_.
          bindE (update_order (o_ID order) next (o_Version order + 1) t) (\<lambda>_.
          bindE (commitHeld (o_ID order)) (\<lambda>_.
          bindE (Enqueue ''order'' (o_ID order) EventOrderPaid
                   (payment_payload order next @ [(''total'', GFloat (o_Total order))])) (\<lambda>_.
          ret ())))))"

definition simulate_outcome :: "Event \<Rightarrow> string" where
  "simulate_outcome e =
     (case lookup (e_Payload e) ''simulateOutcome'' of
        GStr v \<Rightarrow> if v \<noteq> [] then v else ''success''
      | _ \<Rightarrow> ''success'')"

definition charge_tx :: "Event \<Rightarrow> uint \<Rightarrow> unit io" where
  "charge_tx event orderID =
     (let attemptKey = ''evt:'' @ e_ID event in
      bindE (Claim ''payment'' (e_ID event) (e_Type event)) (\<lambda>claimed.
      if \<not> claimed then ret ()
      else
        bindE (find_order orderID) (\<lambda>r.
        case r of
          None \<Rightarrow> ret ()
        | Some order \<Rightarrow>
            bindE (find_payment orderID attemptKey) (\<lambda>existing.
            case existing of
              Some _ \<Rightarrow> ret ()
            | None \<Rightarrow>
                if o_Status order = OrderPaid \<or> o_Status order = OrderFulfilled
                   \<or> o_Status order = OrderCancelled
                then ret ()
                else
                  bindE now (\<lambda>t.
                  if simulate_outcome event = ''fail'' then charge_fail order attemptKey t
                  else charge_ok order attemptKey t)))))"

definition HandleOrderCreated :: "Message \<Rightarrow> unit io" where
  "HandleOrderCreated msg =
     bindE get_uint_conv (\<lambda>conv.
     case asUint conv (lookup (e_Payload (msg_Event msg)) ''orderId'') of
       None \<Rightarrow> throw (wrap ErrInvalid ''order.created missing orderId'')
     | Some orderID \<Rightarrow>
         if orderID = 0 then throw (wrap ErrInvalid ''order.created missing orderId'')
         else transaction (charge_tx (msg_Event msg) orderID))"

section \<open>Correctness\<close>

lemma releaseHeld_eq: "releaseHeld oid = releaseReservations oid"
proof -
  have "releaseHeld_one = release_one"
    by (intro ext) (simp add: releaseHeld_one_def release_one_def)
  then show ?thesis by (simp add: releaseHeld_def releaseReservations_def)
qed

lemma commitHeld_eq: "commitHeld oid = commitReservations oid"
  by (simp add: commitHeld_def commitReservations_def)

lemma payment_payload_id [simp]:
  "map_of (rev (payment_payload o' st)) ''orderId'' = Some (GUint (o_ID o'))"
  "map_of (rev (payment_payload o' st @ [(''total'', v)])) ''orderId'' = Some (GUint (o_ID o'))"
  by (simp_all add: payment_payload_def)

lemma update_order_rule [vcg]:
  "Q () (d\<lparr>orders := update_where (\<lambda>r. o_ID r = oid)
           (\<lambda>r. r\<lparr>o_Status := st, o_Version := version, o_UpdatedAt := t\<rparr>) (orders d)\<rparr>)
   \<Longrightarrow> db_wp (update_order oid st version t) Q d"
  unfolding update_order_def by (rule vcg) (auto split: if_splits)

lemma find_order_rule [vcg]:
  "(\<And>o'. o' \<in> set (orders d) \<Longrightarrow> o_ID o' = oid \<Longrightarrow> Q (Some o') d)
   \<Longrightarrow> ((\<And>o'. o' \<in> set (orders d) \<Longrightarrow> o_ID o' \<noteq> oid) \<Longrightarrow> Q None d)
   \<Longrightarrow> db_wp (find_order oid) Q d"
  unfolding find_order_def
  by (rule vcg, cases "List.find (\<lambda>r. o_ID r = oid) (orders d)") (auto dest: find_SomeD find_NoneD)

lemma update_is_save:
  assumes "keys_ok d" and "order \<in> set (orders d)"
  shows "update_where (\<lambda>r. o_ID r = o_ID order)
           (\<lambda>r. r\<lparr>o_Status := st, o_Version := o_Version order + 1, o_UpdatedAt := t\<rparr>) (orders d)
       = update_where (\<lambda>r. o_ID r = o_ID order) (\<lambda>_. advance st t order) (orders d)"
  using assms by (auto simp: update_where_def keys_ok_def advance_def dest: key_unique)

lemma charge_fail_rule:
  assumes ok: "keys_ok d" and o': "order \<in> set (orders d)"
    and idle: "\<not> CanTransition (o_Status order) OrderPaymentFailed \<Longrightarrow> Q () d"
    and Q: "\<And>pay d'. simulated order key PaymentFailed pay
      \<Longrightarrow> transitioned (released (o_ID order)) (o_ID order) OrderPaymentFailed EventOrderPaymentFailed
            [pay] d d' \<Longrightarrow> Q () d'"
  shows "db_wp (charge_fail order key t) Q d"
  unfolding charge_fail_def releaseHeld_eq
proof (intro vcg, goal_cases)
  case (1 e)
  then show ?case by (intro idle) (auto dest: Transition_Inl)
next
  case 2
  from ok show ?case by (simp add: keys_ok_def)
next
  case (3 st pay d2 row)
  then have "transitioned (released (o_ID order)) (o_ID order) OrderPaymentFailed EventOrderPaymentFailed
            [pay] d (add_outbox row d2)"
    using ok o' released_same update_is_save [OF ok o']
    by (intro charged [OF _ _ _ _ frames_released]) auto
  with 3 show ?case by (auto intro: Q)
qed

lemma charge_ok_rule:
  assumes ok: "keys_ok d" and o': "order \<in> set (orders d)"
    and idle: "\<not> CanTransition (o_Status order) OrderPaid \<Longrightarrow> Q () d"
    and Q: "\<And>pay d'. simulated order key PaymentSucceeded pay
      \<Longrightarrow> transitioned (committed (o_ID order)) (o_ID order) OrderPaid EventOrderPaid [pay] d d'
      \<Longrightarrow> Q () d'"
  shows "db_wp (charge_ok order key t) Q d"
  unfolding charge_ok_def commitHeld_eq
proof (intro vcg, goal_cases)
  case (1 e)
  then show ?case by (intro idle) (auto dest: Transition_Inl)
next
  case (2 st pay d2 row)
  then have "transitioned (committed (o_ID order)) (o_ID order) OrderPaid EventOrderPaid [pay] d
      (add_outbox row d2)"
    using ok o' committed_same update_is_save [OF ok o']
    by (intro charged [OF _ _ _ _ frames_committed]) auto
  with 2 show ?case by (auto intro: Q)
qed

lemma keys_ok_add_inbox [simp]:
  "keys_ok (add_inbox r d) = (keys_ok d \<and> \<not> processed d (ib_Consumer r) (ib_EventID r))"
  by (auto simp: keys_ok_def add_inbox_def inbox_ok_def processed_def inbox_key_def table_simps)

text \<open>One delivery of an event: skipped if claimed before, otherwise the claim and at most one
  charge.\<close>

lemma charge_rule:
  assumes ok: "keys_ok d"
    and dup: "processed d ''payment'' (e_ID event) \<Longrightarrow> Q () d"
    and idle: "\<And>r. \<not> processed d ''payment'' (e_ID event)
      \<Longrightarrow> inbox_key r = (e_ID event, ''payment'') \<Longrightarrow> Q () (add_inbox r d)"
    and failed: "\<And>r order pay d'. \<not> processed d ''payment'' (e_ID event)
      \<Longrightarrow> inbox_key r = (e_ID event, ''payment'') \<Longrightarrow> simulate_outcome event = ''fail''
      \<Longrightarrow> simulated order (''evt:'' @ e_ID event) PaymentFailed pay
      \<Longrightarrow> transitioned (released oid) oid OrderPaymentFailed EventOrderPaymentFailed [pay]
            (add_inbox r d) d' \<Longrightarrow> Q () d'"
    and paid: "\<And>r order pay d'. \<not> processed d ''payment'' (e_ID event)
      \<Longrightarrow> inbox_key r = (e_ID event, ''payment'') \<Longrightarrow> simulate_outcome event \<noteq> ''fail''
      \<Longrightarrow> simulated order (''evt:'' @ e_ID event) PaymentSucceeded pay
      \<Longrightarrow> transitioned (committed oid) oid OrderPaid EventOrderPaid [pay] (add_inbox r d) d'
      \<Longrightarrow> Q () d'"
  shows "db_wp (charge_tx event oid) Q d"
  unfolding charge_tx_def Let_def
  by (intro vcg charge_fail_rule charge_ok_rule)
    (auto simp: ok inbox_key_def intro: dup idle failed paid)

lemma schema_update_order [keeps_intro]: "keeps schema_ok (update_order oid st v t)"
proof -
  have "map o_ID (update_where P (\<lambda>r. r\<lparr>o_Status := st, o_Version := v, o_UpdatedAt := t\<rparr>) os)
      = map o_ID os" for P os
    by (simp add: table_simps)
  then show ?thesis
    unfolding update_order_def
    by (intro keeps_sql) (auto simp: schema_defs table_simps simp del: set_map split: if_splits)
qed

lemma schema_charge [keeps_intro]: "keeps schema_ok (charge_tx event oid)"
  unfolding charge_tx_def charge_fail_def charge_ok_def new_payment_def find_order_def
    releaseHeld_eq commitHeld_eq Let_def
  by (intro keeps_intro)

end
