(* ===== verification/Inventory_Worker.thy ===== *)
theory Inventory_Worker
  imports Payment_Worker
begin

text \<open>
  \<open>internal/worker/inventory/handler.go\<close>: the consumer that commits or releases the stock
  held by an order when it hears of the order's fate.  One transaction claims the event and
  applies \<open>commitTX\<close> or \<open>releaseTX\<close>; afterwards the cached products whose stock came back
  are dropped from Redis.
\<close>

definition asUint_inv :: "(float64 \<Rightarrow> uint) \<Rightarrow> goval \<Rightarrow> uint option" where
  "asUint_inv conv v =
     (case v of
        GFloat n \<Rightarrow> Some (f64_to_uint conv n)
      | GInt n \<Rightarrow> Some (of_int n)
      | GInt64 n \<Rightarrow> Some (of_int n)
      | GUint n \<Rightarrow> Some n
      | GUint64 n \<Rightarrow> Some n
      | _ \<Rightarrow> None)"

definition commitTX :: "uint \<Rightarrow> unit io" where
  "commitTX oid =
     bindE now (\<lambda>t.
     bindE (find_held oid) (\<lambda>rows.
     bindE (for_each (\<lambda>row. Append (rv_ProductID row) (Some oid) 0 ReasonCommit None) rows) (\<lambda>_.
     set_reservation (held_of oid) ReservationCommitted t)))"

primrec releaseTX_rows :: "uint \<Rightarrow> time \<Rightarrow> ReservationModel list \<Rightarrow> uint list \<Rightarrow> uint list io" where
  "releaseTX_rows oid t [] ids = ret ids"
| "releaseTX_rows oid t (row # rows) ids =
     bindE (return_stock (rv_ProductID row) (rv_Qty row)) (\<lambda>_.
     bindE (scan_stock (rv_ProductID row)) (\<lambda>bal.
     bindE (Append (rv_ProductID row) (Some oid) (rv_Qty row) ReasonRelease (Some bal)) (\<lambda>_.
     bindE (set_reservation (\<lambda>r. rv_ID r = rv_ID row) ReservationReleased t) (\<lambda>_.
     releaseTX_rows oid t rows (ids @ [rv_ProductID row])))))"

definition releaseTX :: "uint \<Rightarrow> uint list io" where
  "releaseTX oid =
     bindE (find_held oid) (\<lambda>rows.
     bindE now (\<lambda>t.
     releaseTX_rows oid t rows []))"

definition product_key :: "uint \<Rightarrow> string" where
  "product_key i = ''product:'' @ show_uint i"

definition bustProductCache :: "bool \<Rightarrow> uint list \<Rightarrow> unit io" where
  "bustProductCache has_cache ids =
     (if \<not> has_cache \<or> ids = [] then ret ()
      else
        let keys = map product_key (filter (\<lambda>i. i \<noteq> 0) ids)
        in if keys = [] then ret () else ignore (redis_del keys))"

definition inventory_tx :: "Event \<Rightarrow> uint \<Rightarrow> uint list io" where
  "inventory_tx event orderID =
     bindE (Claim ''inventory'' (e_ID event) (e_Type event)) (\<lambda>claimed.
     if \<not> claimed then ret []
     else if e_Type event = EventOrderPaid \<or> e_Type event = EventOrderFulfilled
     then bindE (commitTX orderID) (\<lambda>_. ret [])
     else if e_Type event = EventOrderCancelled \<or> e_Type event = EventOrderPaymentFailed
     then releaseTX orderID
     else ret [])"

definition inventory_events :: "string list" where
  "inventory_events =
     [EventOrderPaid, EventOrderFulfilled, EventOrderCancelled, EventOrderPaymentFailed]"

definition Inventory_Handle :: "bool \<Rightarrow> Message \<Rightarrow> unit io" where
  "Inventory_Handle has_cache msg =
     (if e_Type (msg_Event msg) \<notin> set inventory_events then ret ()
      else
        bindE get_uint_conv (\<lambda>conv.
        case asUint_inv conv (lookup (e_Payload (msg_Event msg)) ''orderId'') of
          None \<Rightarrow> throw (wrap ErrInvalid ''inventory event missing orderId'')
        | Some orderID \<Rightarrow>
            if orderID = 0 then throw (wrap ErrInvalid ''inventory event missing orderId'')
            else
              bindE (transaction (inventory_tx (msg_Event msg) orderID)) (\<lambda>released.
              bustProductCache has_cache released)))"

section \<open>Correctness\<close>

lemma asUint_inv_eq: "asUint_inv = asUint"
  by (intro ext) (simp add: asUint_inv_def asUint_def)

lemma commitTX_eq: "commitTX oid = commitReservations oid"
  by (simp add: commitTX_def commitReservations_def)

text \<open>\<open>releaseTX\<close> is \<open>releaseReservations\<close> that also answers the products concerned.\<close>

lemma bindE_assoc: "bindE (bindE m f) g = bindE m (\<lambda>a. bindE (f a) g)"
  by (auto simp: bindE_def fun_eq_iff split: prod.split sum.split)

lemma bindE_ret [simp]: "bindE (ret a) f = f a"
  by (simp add: bindE_def ret_def)

lemma releaseTX_rows_eq:
  "releaseTX_rows oid t rows ids
   = bindE (for_each (release_one oid t) rows) (\<lambda>_. ret (ids @ map rv_ProductID rows))"
  by (induction rows arbitrary: ids) (simp_all add: release_one_def bindE_assoc)

lemma releaseTX_rule:
  assumes "keys_ok d"
    and "\<And>d'. released oid d d' \<Longrightarrow> Q (map rv_ProductID (filter (held_of oid) (reservations d))) d'"
  shows "db_wp (releaseTX oid) Q d"
  using assms unfolding releaseTX_def releaseTX_rows_eq
  by (intro vcg release_each_rule) (simp_all add: keys_ok_def)

text \<open>One delivery of an event: skipped if claimed before, otherwise the claim and the
  settlement of whatever the order still holds.\<close>

lemma inventory_rule:
  assumes ok: "keys_ok d"
    and dup: "processed d ''inventory'' (e_ID event) \<Longrightarrow> Q [] d"
    and other: "\<And>r. \<not> processed d ''inventory'' (e_ID event)
      \<Longrightarrow> inbox_key r = (e_ID event, ''inventory'') \<Longrightarrow> e_Type event \<notin> set inventory_events
      \<Longrightarrow> Q [] (add_inbox r d)"
    and paid: "\<And>r d'. \<not> processed d ''inventory'' (e_ID event)
      \<Longrightarrow> inbox_key r = (e_ID event, ''inventory'')
      \<Longrightarrow> e_Type event = EventOrderPaid \<or> e_Type event = EventOrderFulfilled
      \<Longrightarrow> committed oid (add_inbox r d) d' \<Longrightarrow> Q [] d'"
    and closed: "\<And>r d'. \<not> processed d ''inventory'' (e_ID event)
      \<Longrightarrow> inbox_key r = (e_ID event, ''inventory'')
      \<Longrightarrow> e_Type event = EventOrderCancelled \<or> e_Type event = EventOrderPaymentFailed
      \<Longrightarrow> released oid (add_inbox r d) d'
      \<Longrightarrow> Q (map rv_ProductID (filter (held_of oid) (reservations d))) d'"
  shows "db_wp (inventory_tx event oid) Q d"
proof -
  have [simp]: "reservations (add_inbox r d) = reservations d" for r by (simp add: add_inbox_def)
  show ?thesis
    unfolding inventory_tx_def commitTX_eq
    by (intro vcg releaseTX_rule)
      (auto simp: ok inbox_key_def inventory_events_def intro: dup other paid closed)
qed

lemma schema_inventory [keeps_intro]: "keeps schema_ok (inventory_tx event oid)"
proof -
  have [keeps_intro]: "keeps schema_ok (release_one oid t r)" for t r
    unfolding release_one_def by (intro keeps_intro)
  show ?thesis
    unfolding inventory_tx_def commitTX_eq releaseTX_def releaseTX_rows_eq by (intro keeps_intro)
qed

text \<open>Neither dropping the cache nor decoding the message touches the tables.\<close>

lemma bust_db [vcg]: "Q () d \<Longrightarrow> db_wp (bustProductCache c ids) Q d"
  unfolding bustProductCache_def Let_def
  by (rule db_wpI) (auto simp: ret_def ignore_def redis_del_def interact_def split: if_splits option.splits)

end
