(* ===== verification/Commerce_Inv.thy ===== *)
theory Commerce_Inv
  imports Inventory_Worker
begin

text \<open>
  The invariants that tie the commerce tables together, and their preservation by each kind
  of transaction.

  \<^item> \<open>fits\<close>: the reservations of an order agree with its status (a pending order holds all its
    lines; a closed order holds nothing);
  \<^item> \<open>reserve_inv\<close>: per order and product, and per product over all orders, the ledger nets to
    minus what is still reserved;
  \<^item> \<open>supply_inv base\<close>: the stock of a product is its base plus its ledger;
  \<^item> \<open>pay_inv\<close>: a paid or fulfilled order has exactly one succeeded payment, any other order
    none, and every payment is of the order's total;
  \<^item> \<open>line_inv\<close>, \<open>total_inv\<close>: reservations mirror the order's items, the total is the sum of
    its lines;
  \<^item> \<open>version_inv\<close>: the version counts the moves of the state machine;
  \<^item> \<open>event_inv\<close>: an event in the outbox tells the truth about its order;
  \<^item> \<open>announced\<close>: the status of every order has its event in the outbox.
\<close>

section \<open>The invariants\<close>

definition fits :: "string \<Rightarrow> string \<Rightarrow> bool" where
  "fits os rs =
     (if os = OrderPendingPayment then rs = ReservationHeld
      else if os = OrderPaymentFailed \<or> os = OrderCancelled then rs = ReservationReleased
      else if os = OrderPaid \<or> os = OrderFulfilled
      then rs = ReservationCommitted \<or> rs = ReservationReleased
      else False)"

definition fits_inv :: "OrderModel list \<Rightarrow> ReservationModel list \<Rightarrow> bool" where
  "fits_inv os rs = (\<forall>o'\<in>set os. \<forall>r\<in>set rs. rv_OrderID r = o_ID o' \<longrightarrow> fits (o_Status o') (rv_Status r))"

definition order_statuses :: "string list" where
  "order_statuses =
     [OrderPendingPayment, OrderPaymentFailed, OrderPaid, OrderCancelled, OrderFulfilled]"

definition status_inv :: "OrderModel list \<Rightarrow> bool" where
  "status_inv os = (\<forall>o'\<in>set os. o_Status o' \<in> set order_statuses)"

definition outstanding :: "uint \<Rightarrow> uint \<Rightarrow> ReservationModel \<Rightarrow> int" where
  "outstanding pid oid r =
     (if rv_ProductID r = pid \<and> rv_OrderID r = oid \<and> rv_Status r \<noteq> ReservationReleased
      then rv_Qty r else 0)"

definition reserved :: "uint \<Rightarrow> uint \<Rightarrow> ReservationModel list \<Rightarrow> int" where
  "reserved pid oid rs = sum_list (map (outstanding pid oid) rs)"

text \<open>What all orders together hold or have taken of a product.\<close>

definition taken :: "uint \<Rightarrow> ReservationModel list \<Rightarrow> int" where
  "taken pid rs = sum_list (map rv_Qty
     (filter (\<lambda>r. rv_ProductID r = pid \<and> rv_Status r \<noteq> ReservationReleased) rs))"

definition reserve_inv :: "ReservationModel list \<Rightarrow> LedgerEntry list \<Rightarrow> bool" where
  "reserve_inv rs es = ((\<forall>pid oid. ledger_order_sum pid oid es = - reserved pid oid rs)
     \<and> (\<forall>pid. ledger_sum pid es = - taken pid rs))"

definition supply_inv :: "(uint \<Rightarrow> int) \<Rightarrow> db \<Rightarrow> bool" where
  "supply_inv base d = (\<forall>pid. stock_of pid d = base pid + ledger_sum pid (stock_ledger d))"

definition stock_inv :: "db \<Rightarrow> bool" where
  "stock_inv d = (\<forall>p\<in>set (products d). 0 \<le> p_Stock p)"

definition qty_inv :: "ReservationModel list \<Rightarrow> bool" where
  "qty_inv rs = (\<forall>r\<in>set rs. 0 < rv_Qty r)"

definition is_paid :: "string \<Rightarrow> bool" where
  "is_paid st = (st = OrderPaid \<or> st = OrderFulfilled)"

definition succeeded :: "uint \<Rightarrow> PaymentModel list \<Rightarrow> PaymentModel list" where
  "succeeded oid ps = filter (\<lambda>p. pay_OrderID p = oid \<and> pay_Status p = PaymentSucceeded) ps"

definition pay_inv :: "OrderModel list \<Rightarrow> PaymentModel list \<Rightarrow> bool" where
  "pay_inv os ps = (\<forall>o'\<in>set os.
     length (succeeded (o_ID o') ps) = (if is_paid (o_Status o') then 1 else 0)
     \<and> (\<forall>p\<in>set ps. pay_OrderID p = o_ID o' \<longrightarrow> pay_Amount p = o_Total o'))"

definition line_inv :: "OrderItemModel list \<Rightarrow> ReservationModel list \<Rightarrow> bool" where
  "line_inv is rs = (map (\<lambda>i. (oi_OrderID i, oi_ProductID i, oi_Qty i)) is
                   = map (\<lambda>r. (rv_OrderID r, rv_ProductID r, rv_Qty r)) rs)"

definition item_line :: "OrderItemModel \<Rightarrow> line" where
  "item_line i = \<lparr>ln_productID = oi_ProductID i, ln_qty = oi_Qty i, ln_price = oi_UnitPrice i\<rparr>"

definition items_total :: "uint \<Rightarrow> OrderItemModel list \<Rightarrow> float64" where
  "items_total oid is = line_total (map item_line (filter (\<lambda>i. oi_OrderID i = oid) is))"

definition total_inv :: "OrderModel list \<Rightarrow> OrderItemModel list \<Rightarrow> bool" where
  "total_inv os is = (\<forall>o'\<in>set os. o_Total o' = items_total (o_ID o') is)"

definition version_inv :: "OrderModel list \<Rightarrow> bool" where
  "version_inv os = (\<forall>o'\<in>set os. 1 \<le> o_Version o'
     \<and> o_Version o' \<le> 4 - int (status_rank (o_Status o')))"

definition event_fits :: "string \<Rightarrow> string \<Rightarrow> bool" where
  "event_fits ev st =
     (ev = EventOrderCreated \<or> ev = EventOrderPaid \<and> is_paid st
      \<or> ev = EventOrderPaymentFailed \<and> st \<noteq> OrderPendingPayment
      \<or> ev = EventOrderCancelled \<and> st = OrderCancelled
      \<or> ev = EventOrderFulfilled \<and> st = OrderFulfilled)"

definition carries_order :: "EventRow \<Rightarrow> bool" where
  "carries_order row = (\<exists>payload. marshal (GMap payload) = Inr (ev_Payload row)
     \<and> map_of (rev payload) ''orderId'' = Some (GUint (ev_AggregateID row)))"

definition event_inv :: "OrderModel list \<Rightarrow> EventRow list \<Rightarrow> bool" where
  "event_inv os rows = (\<forall>row\<in>set rows. carries_order row
     \<and> (\<exists>o'\<in>set os. o_ID o' = ev_AggregateID row \<and> event_fits (ev_EventType row) (o_Status o')))"

text \<open>The event that announces a status.\<close>

definition event_of :: "string \<Rightarrow> string" where
  "event_of st =
     (if st = OrderPendingPayment then EventOrderCreated
      else if st = OrderPaid then EventOrderPaid
      else if st = OrderPaymentFailed then EventOrderPaymentFailed
      else if st = OrderCancelled then EventOrderCancelled
      else EventOrderFulfilled)"

definition announced :: "OrderModel list \<Rightarrow> EventRow list \<Rightarrow> bool" where
  "announced os rows = (\<forall>o'\<in>set os. \<exists>row\<in>set rows.
     ev_AggregateID row = o_ID o' \<and> ev_EventType row = event_of (o_Status o'))"

definition shop_inv :: "db \<Rightarrow> bool" where
  "shop_inv d = (schema_ok d \<and> stock_inv d \<and> qty_inv (reservations d) \<and> status_inv (orders d)
     \<and> fits_inv (orders d) (reservations d) \<and> reserve_inv (reservations d) (stock_ledger d)
     \<and> pay_inv (orders d) (payments d) \<and> line_inv (order_items d) (reservations d)
     \<and> total_inv (orders d) (order_items d) \<and> version_inv (orders d)
     \<and> event_inv (orders d) (outbox_events d) \<and> announced (orders d) (outbox_events d))"

text \<open>What a step keeps: the invariants, for every product the balance of stock and ledger,
  and the events of the outbox.\<close>

definition grown :: "db \<Rightarrow> db \<Rightarrow> bool" where
  "grown d d' = (\<exists>rows. outbox_events d' = outbox_events d @ rows \<and> (\<forall>r\<in>set rows. unpublished r))"

text \<open>Every order stays, and changes only by moves of the state machine.\<close>

definition moves_to :: "OrderModel \<Rightarrow> OrderModel \<Rightarrow> bool" where
  "moves_to o1 o2 = (\<exists>st t. CanTransition (o_Status o1) st \<and> o2 = advance st t o1)"

definition evolves :: "db \<Rightarrow> db \<Rightarrow> bool" where
  "evolves d d' = (\<forall>o1\<in>set (orders d). \<exists>o2\<in>set (orders d'). moves_to\<^sup>*\<^sup>* o1 o2)"

definition kept :: "db \<Rightarrow> db \<Rightarrow> bool" where
  "kept d d' = (shop_inv d' \<and> (\<forall>base. supply_inv base d \<longrightarrow> supply_inv base d') \<and> grown d d'
     \<and> evolves d d')"

lemma evolves_same [simp]: "orders d' = orders d \<Longrightarrow> evolves d d'"
  by (auto simp: evolves_def)

lemma evolves_trans: "evolves a b \<Longrightarrow> evolves b c \<Longrightarrow> evolves a c"
  unfolding evolves_def by (meson rtranclp_trans)

lemma grown_same [simp]: "outbox_events d' = outbox_events d \<Longrightarrow> grown d d'"
  by (simp add: grown_def)

lemma grown_enqueued: "outbox_events d' = outbox_events d @ [row] \<Longrightarrow> enqueued ty i ev payload row \<Longrightarrow> grown d d'"
  by (auto simp: grown_def enqueued_def unpublished_def)

lemma grown_trans: "grown a b \<Longrightarrow> grown b c \<Longrightarrow> grown a c"
  by (auto simp: grown_def)

lemma keptD: "kept d d' \<Longrightarrow> shop_inv d'" "kept d d' \<Longrightarrow> supply_inv base d \<Longrightarrow> supply_inv base d'"
  "kept d d' \<Longrightarrow> grown d d'" "kept d d' \<Longrightarrow> evolves d d'"
  by (simp_all add: kept_def)

lemma kept_refl [simp]: "shop_inv d \<Longrightarrow> kept d d"
  by (simp add: kept_def)

lemma kept_trans: "kept d d1 \<Longrightarrow> kept d1 d2 \<Longrightarrow> kept d d2"
  unfolding kept_def by (blast intro: grown_trans evolves_trans)

section \<open>Settling the reservations of an order\<close>

definition held_pairs :: "uint \<Rightarrow> ReservationModel list \<Rightarrow> (uint \<times> int) list" where
  "held_pairs oid rs = map rv_pair (filter (held_of oid) rs)"

text \<open>What releasing, committing and (for an order that holds nothing) doing nothing have in
  common: the held reservations get the status \<open>X\<close>, and stock and ledger move together.\<close>

definition settled :: "string \<Rightarrow> uint \<Rightarrow> db \<Rightarrow> db \<Rightarrow> bool" where
  "settled X oid d d' = (\<exists>t es.
     reservations d' = update_where (held_of oid) (restatus X t) (reservations d)
     \<and> stock_ledger d' = stock_ledger d @ es
     \<and> (\<forall>pid. ledger_sum pid es
            = (if X = ReservationReleased then qty_of pid (held_pairs oid (reservations d)) else 0))
     \<and> (\<forall>pid oid'. ledger_order_sum pid oid' es = (if oid' = oid then ledger_sum pid es else 0))
     \<and> (\<forall>pid. stock_of pid d' = stock_of pid d + ledger_sum pid es)
     \<and> (stock_inv d \<longrightarrow> stock_inv d') \<and> order_items d' = order_items d)"

lemma moves_sum:
  assumes "list_all2 (movement oid reason delta) rows es"
  shows "ledger_sum pid es = qty_of pid (map (\<lambda>r. (rv_ProductID r, delta r)) rows)"
    and "ledger_order_sum pid oid' es = (if oid' = oid then ledger_sum pid es else 0)"
  using assms
  by (induction rows es rule: list_all2_induct) (auto simp: movement_def table_simps)

lemma qty_of_zero: "qty_of pid (map (\<lambda>r. (f r, 0)) rs) = 0"
  by (induction rs) auto

lemma qty_of_absent: "pid \<notin> fst ` set ls \<Longrightarrow> qty_of pid ls = 0"
  by (induction ls) auto

lemma released_settled:
  assumes "released oid d d'" and "schema_ok d" and "qty_inv (reservations d)"
  shows "settled ReservationReleased oid d d'"
proof -
  let ?held = "filter (held_of oid) (reservations d)"
  from assms(1) obtain ps es t where d': "d' = d\<lparr>products := ps,
        reservations := update_where (held_of oid) (restatus ReservationReleased t) (reservations d),
        stock_ledger := stock_ledger d @ es\<rparr>"
    and ps: "shifted (\<lambda>i. qty_of i (held_pairs oid (reservations d))) (products d) ps"
    and es: "list_all2 (movement oid ReasonRelease rv_Qty) ?held es"
    by (auto simp: released_def held_pairs_def)
  have sum: "ledger_sum pid es = qty_of pid (held_pairs oid (reservations d))" for pid
    using moves_sum(1) [OF es] by (simp add: held_pairs_def rv_pair_def [abs_def])
  have stock: "stock_of pid d' = stock_of pid d + ledger_sum pid es" for pid
  proof -
    have "qty_of pid (held_pairs oid (reservations d)) = 0" if "pid \<notin> set (map p_ID (products d))"
      using that assms(2)
      by (intro qty_of_absent) (auto simp: held_pairs_def rv_pair_def schema_defs)
    with shifted_stock_of [of _ d d' pid] ps d' sum show ?thesis by auto
  qed
  have "0 \<le> qty_of i (held_pairs oid (reservations d))" for i
    using assms(3) by (intro qty_of_nonneg) (auto simp: held_pairs_def rv_pair_def qty_inv_def)
  then have "stock_inv d \<longrightarrow> stock_inv d'"
    using shifted_nonneg [OF ps] d' by (auto simp: stock_inv_def)
  with d' sum stock moves_sum(2) [OF es] show ?thesis
    by (auto simp: settled_def intro!: exI [of _ t] exI [of _ es])
qed

lemma committed_settled:
  assumes "committed oid d d'"
  shows "settled ReservationCommitted oid d d'"
proof -
  from assms obtain es t where d': "d' = d\<lparr>
        reservations := update_where (held_of oid) (restatus ReservationCommitted t) (reservations d),
        stock_ledger := stock_ledger d @ es\<rparr>"
    and es: "list_all2 (movement oid ReasonCommit (\<lambda>_. 0)) (filter (held_of oid) (reservations d)) es"
    by (auto simp: committed_def)
  have "ledger_sum pid es = 0" for pid
    using moves_sum(1) [OF es] by (simp add: qty_of_zero)
  with d' moves_sum(2) [OF es] show ?thesis
    by (auto simp: settled_def stock_of_def stock_inv_def intro!: exI [of _ t] exI [of _ es])
qed

lemma nothing_settled:
  assumes "\<And>r. r \<in> set (reservations d) \<Longrightarrow> \<not> held_of oid r"
  shows "settled ReservationCommitted oid d d"
  unfolding settled_def using assms
  by (intro exI [of _ 0] exI [of _ "[]"]) (auto simp: update_where_idle)

section \<open>One move of the state machine\<close>

abbreviation move :: "string \<Rightarrow> time \<Rightarrow> uint \<Rightarrow> OrderModel list \<Rightarrow> OrderModel list" where
  "move st t oid os \<equiv> update_where (\<lambda>r. o_ID r = oid) (advance st t) os"

definition settles :: "string \<Rightarrow> string" where
  "settles st = (if is_paid st then ReservationCommitted else ReservationReleased)"

lemma in_moveE:
  assumes "o' \<in> set (move st t oid os)" and "distinct (map o_ID os)" and "order \<in> set os" and "o_ID order = oid"
  obtains "o' = advance st t order" | "o' \<in> set os" and "o_ID o' \<noteq> oid"
  using assms by (auto simp: set_update_where dest: key_unique)

lemma fits_step:
  "CanTransition a st \<Longrightarrow> fits a x \<Longrightarrow> fits st (if x = ReservationHeld then settles st else x)"
  by (auto simp: CanTransition_iff fits_def settles_def is_paid_def split: if_splits)

lemma fits_move:
  assumes "fits_inv os rs" and "distinct (map o_ID os)" and "order \<in> set os" and "o_ID order = oid"
    and "CanTransition (o_Status order) st"
  shows "fits_inv (move st t oid os) (update_where (held_of oid) (restatus (settles st) t') rs)"
  unfolding fits_inv_def
proof (intro ballI impI)
  fix o' r'
  assume o': "o' \<in> set (move st t oid os)"
    and r': "r' \<in> set (update_where (held_of oid) (restatus (settles st) t') rs)"
    and id: "rv_OrderID r' = o_ID o'"
  from r' obtain r where r: "r \<in> set rs" "rv_OrderID r' = rv_OrderID r"
    "rv_Status r' = (if held_of oid r then settles st else rv_Status r)"
    by (auto simp: set_update_where)
  show "fits (o_Status o') (rv_Status r')"
    using o' assms(2-4)
  proof (cases rule: in_moveE)
    case 1
    with r id assms have "fits (o_Status order) (rv_Status r)" by (simp add: fits_inv_def)
    from fits_step [OF assms(5) this] 1 r id assms(4) show ?thesis
      by (auto simp: held_of_def split: if_splits)
  next
    case 2
    with r id assms(1) show ?thesis by (auto simp: fits_inv_def held_of_def split: if_splits)
  qed
qed

lemma reserved_settle:
  "reserved pid oid' (update_where (held_of oid) (restatus X t) rs)
   = reserved pid oid' rs
     - (if X = ReservationReleased \<and> oid' = oid then qty_of pid (held_pairs oid rs) else 0)"
  by (induction rs)
    (auto simp: reserved_def outstanding_def held_of_def held_pairs_def rv_pair_def)

lemma taken_settle:
  "taken pid (update_where (held_of oid) (restatus X t) rs)
   = taken pid rs - (if X = ReservationReleased then qty_of pid (held_pairs oid rs) else 0)"
  by (induction rs) (auto simp: taken_def held_of_def held_pairs_def rv_pair_def)

lemma reserve_settled:
  assumes "settled X oid d d'" and "reserve_inv (reservations d) (stock_ledger d)"
  shows "reserve_inv (reservations d') (stock_ledger d')"
  using assms unfolding settled_def reserve_inv_def
  by (elim exE conjE) (simp add: reserved_settle taken_settle table_simps)

lemma supply_settled:
  assumes "settled X oid d d'" and "supply_inv base d"
  shows "supply_inv base d'"
  using assms unfolding settled_def supply_inv_def
  by (elim exE conjE) (simp add: table_simps)

lemma qty_settled: "settled X oid d d' \<Longrightarrow> qty_inv (reservations d) \<Longrightarrow> qty_inv (reservations d')"
  by (auto simp: settled_def qty_inv_def set_update_where)

lemma line_settled:
  assumes "settled X oid d d'" and "line_inv (order_items d) (reservations d)"
  shows "line_inv (order_items d') (reservations d')"
  using assms unfolding settled_def line_inv_def by (elim exE conjE) (simp add: table_simps)

lemma pay_move:
  assumes "pay_inv os ps" and "distinct (map o_ID os)" and "order \<in> set os" and "o_ID order = oid"
    and "CanTransition (o_Status order) st"
    and "\<And>p. p \<in> set pays \<Longrightarrow> pay_OrderID p = oid \<and> pay_Amount p = o_Total order"
    and "length (succeeded oid pays) = (if st = OrderPaid then 1 else 0)"
  shows "pay_inv (move st t oid os) (ps @ pays)"
  unfolding pay_inv_def
proof (intro ballI)
  fix o'
  assume "o' \<in> set (move st t oid os)"
  then show "length (succeeded (o_ID o') (ps @ pays)) = (if is_paid (o_Status o') then 1 else 0)
    \<and> (\<forall>p\<in>set (ps @ pays). pay_OrderID p = o_ID o' \<longrightarrow> pay_Amount p = o_Total o')"
    using assms(2-4)
  proof (cases rule: in_moveE)
    case 1
    with assms show ?thesis
      by (auto simp: pay_inv_def succeeded_def is_paid_def CanTransition_iff)
  next
    case 2
    with assms(6) have "succeeded (o_ID o') pays = []" by (auto simp: succeeded_def filter_empty_conv)
    with 2 assms(1,6) show ?thesis by (auto simp: pay_inv_def succeeded_def)
  qed
qed

lemma order_moves:
  assumes "distinct (map o_ID os)" and "order \<in> set os" and "o_ID order = oid"
    and tr: "CanTransition (o_Status order) st"
  shows "status_inv os \<Longrightarrow> status_inv (move st t oid os)"
    and "total_inv os is \<Longrightarrow> total_inv (move st t oid os) is"
    and "version_inv os \<Longrightarrow> version_inv (move st t oid os)"
proof -
  have "st \<in> set order_statuses" using tr by (auto simp: order_statuses_def CanTransition_iff)
  then show "status_inv os \<Longrightarrow> status_inv (move st t oid os)"
    using assms(1-3) by (auto simp: status_inv_def elim!: in_moveE)
  show "total_inv os is \<Longrightarrow> total_inv (move st t oid os) is"
    using assms(1-3) by (auto simp: total_inv_def elim!: in_moveE)
  show "version_inv os \<Longrightarrow> version_inv (move st t oid os)"
    using assms(1-3) CanTransition_rank [OF tr] by (fastforce simp: version_inv_def elim!: in_moveE)
qed

lemma event_fits_step: "event_fits ev a \<Longrightarrow> CanTransition a st \<Longrightarrow> event_fits ev st"
  by (auto simp: event_fits_def CanTransition_iff is_paid_def)

lemma event_move:
  assumes "event_inv os rows" and "order \<in> set os" and "o_ID order = oid"
    and "distinct (map o_ID os)" and "CanTransition (o_Status order) st"
  shows "event_inv (move st t oid os) rows"
  unfolding event_inv_def
proof (intro ballI conjI)
  fix row
  assume "row \<in> set rows"
  with assms(1) obtain o' where row: "carries_order row" and o': "o' \<in> set os" "o_ID o' = ev_AggregateID row"
    "event_fits (ev_EventType row) (o_Status o')" by (auto simp: event_inv_def)
  show "carries_order row" by (rule row)
  show "\<exists>o'\<in>set (move st t oid os). o_ID o' = ev_AggregateID row
      \<and> event_fits (ev_EventType row) (o_Status o')"
  proof (cases "o_ID o' = oid")
    case True
    with assms o' have "o' = order" by (auto dest: key_unique)
    with o' assms event_fits_step show ?thesis
      by (intro bexI [of _ "advance st t order"]) (auto simp: set_update_where)
  next
    case False
    with o' show ?thesis by (intro bexI [of _ o']) (auto simp: set_update_where)
  qed
qed

lemma event_inv_append: "event_inv os (rows @ rows') = (event_inv os rows \<and> event_inv os rows')"
  by (auto simp: event_inv_def)

text \<open>The whole move: if the reservations are settled according to the new status, the
  payment recorded matches it and the event names it, every invariant is kept.\<close>

lemma transitioned_inv:
  assumes inv: "shop_inv d" and tr: "transitioned S oid st ev pays d d'" and ok: "schema_ok d'"
    and S: "\<And>d1. S d d1 \<Longrightarrow> settled (settles st) oid d d1"
    and pays: "length (succeeded oid pays) = (if st = OrderPaid then 1 else 0)"
    and ev: "event_fits ev st" "ev = event_of st"
  shows "kept d d'"
proof -
  from tr obtain order t row payload d1 where
    o': "order \<in> set (orders d)" "o_ID order = oid" "CanTransition (o_Status order) st"
    and d1: "S d d1" and row: "enqueued ''order'' oid ev payload row"
    "map_of (rev payload) ''orderId'' = Some (GUint oid)"
    and ps: "\<forall>p\<in>set pays. pay_OrderID p = oid \<and> pay_Amount p = o_Total order"
    and d': "d' = d1\<lparr>orders := move st t oid (orders d),
               payments := payments d @ pays, outbox_events := outbox_events d @ [row]\<rparr>"
    by (auto simp: transitioned_def)
  note set = S [OF d1]
  from inv have dist: "distinct (map o_ID (orders d))" by (simp add: shop_inv_def schema_ok_def keys_ok_def)
  from set obtain t' where rs: "reservations d1 = update_where (held_of oid) (restatus (settles st) t')
      (reservations d)" and items: "order_items d1 = order_items d" and stock: "stock_inv d \<longrightarrow> stock_inv d1"
    by (auto simp: settled_def)
  have same: "settled (settles st) oid d d'"
    using set by (simp add: d' settled_def stock_of_def stock_inv_def)
  have "event_inv (move st t oid (orders d)) [row]"
    using o' row ev
    by (auto simp: event_inv_def carries_order_def enqueued_def set_update_where
        intro!: bexI [of _ "advance st t order"])
  then have evs: "event_inv (orders d') (outbox_events d')"
    using inv o' dist by (simp add: d' event_inv_append shop_inv_def event_move)
  have "announced (orders d') (outbox_events d')"
  proof -
    have "announced (move st t oid (orders d)) (outbox_events d @ [row])"
      unfolding announced_def
    proof
      fix o2 assume "o2 \<in> set (move st t oid (orders d))"
      then show "\<exists>r\<in>set (outbox_events d @ [row]).
          ev_AggregateID r = o_ID o2 \<and> ev_EventType r = event_of (o_Status o2)"
        using dist o'(1,2)
      proof (cases rule: in_moveE)
        case 1
        with row(1) ev(2) o'(2) show ?thesis by (auto simp: enqueued_def)
      next
        case 2
        with inv show ?thesis by (auto simp: shop_inv_def announced_def)
      qed
    qed
    then show ?thesis by (simp add: d')
  qed
  moreover have "fits_inv (orders d') (reservations d')"
    using inv o' dist by (simp add: d' rs shop_inv_def fits_move)
  moreover have "pay_inv (orders d') (payments d')"
    using inv o' dist ps pays by (simp add: d' shop_inv_def pay_move)
  moreover have "status_inv (orders d')" "total_inv (orders d') (order_items d')" "version_inv (orders d')"
    using inv o' dist by (simp_all add: d' items shop_inv_def order_moves)
  moreover have "stock_inv d'" using inv stock by (simp add: d' shop_inv_def stock_inv_def)
  moreover have "grown d d'" by (rule grown_enqueued [OF _ row(1)]) (simp add: d')
  moreover have "evolves d d'"
    unfolding evolves_def
  proof
    fix o1 assume o1: "o1 \<in> set (orders d)"
    show "\<exists>o2\<in>set (orders d'). moves_to\<^sup>*\<^sup>* o1 o2"
    proof (cases "o_ID o1 = oid")
      case True
      with o1 o' dist have "o1 = order" by (auto dest: key_unique)
      then have "moves_to o1 (advance st t o1)" using o'(3) by (auto simp: moves_to_def)
      with True o1 show ?thesis
        by (intro bexI [of _ "advance st t o1"]) (auto simp: d' set_update_where)
    next
      case False
      with o1 show ?thesis by (intro bexI [of _ o1]) (auto simp: d' set_update_where)
    qed
  qed
  ultimately show ?thesis
    using inv evs ok same unfolding shop_inv_def kept_def
    by (auto intro: reserve_settled supply_settled qty_settled line_settled)
qed

section \<open>The creation of an order\<close>

lemma stock_hold_stock [keeps_intro]: "keeps stock_inv (hold_stock pid qty)"
  unfolding hold_stock_def
  by (rule keeps_sql) (auto simp: stock_inv_def Let_def set_update_where split: if_splits)

lemma stock_insert [keeps_intro]:
  "keeps stock_inv (insert_row q mk1 item_refuse add_item)"
  "keeps stock_inv (insert_row q mk2 reservation_refuse add_reservation)"
  "keeps stock_inv (insert_row q mk3 order_refuse add_order)"
  "keeps stock_inv (insert_row q mk4 ledger_refuse add_ledger)"
  "keeps stock_inv (insert_row q mk5 outbox_refuse add_outbox)"
  by (rule keeps_insert_row, simp add: stock_inv_def add_item_def add_reservation_def add_order_def
      add_ledger_def add_outbox_def)+

lemma stock_hold_lines [keeps_intro]: "keeps stock_inv (hold_lines its ls tot)"
  by (induction its arbitrary: ls tot) (auto intro!: keeps_intro simp: take_product_def)

lemma stock_CreateOrder: "keeps stock_inv (CreateOrder_tx userID items)"
  unfolding CreateOrder_tx_def insert_line_def scan_stock_def Append_def Enqueue_def
  by (intro keeps_intro)

text \<open>The rows written for the lines \<open>ls\<close> of an order, column by column.\<close>

lemma held_columns:
  assumes "list_all2 (hold_for oid) ls rs"
  shows "map (\<lambda>r. (rv_OrderID r, rv_ProductID r, rv_Qty r)) rs
       = map (\<lambda>l. (oid, ln_productID l, ln_qty l)) ls"
    and "reserved pid oid' rs = (if oid' = oid then qty_of pid (map ln_pair ls) else 0)"
    and "taken pid rs = qty_of pid (map ln_pair ls)"
    and "\<forall>r\<in>set rs. rv_OrderID r = oid \<and> rv_Status r = ReservationHeld
           \<and> (\<exists>l\<in>set ls. rv_Qty r = ln_qty l)"
  using assms
  by (induction ls rs rule: list_all2_induct)
    (simp_all add: hold_for_def reserved_def outstanding_def taken_def ln_pair_def)

lemma item_columns:
  assumes "list_all2 (item_for oid) ls is"
  shows "map (\<lambda>i. (oi_OrderID i, oi_ProductID i, oi_Qty i)) is
       = map (\<lambda>l. (oid, ln_productID l, ln_qty l)) ls"
    and "map item_line is = ls" and "\<forall>i\<in>set is. oi_OrderID i = oid"
  using assms
  by (induction ls "is" rule: list_all2_induct) (simp_all add: item_for_def item_line_def)

lemma hold_columns:
  assumes "list_all2 (hold_move oid) ls es"
  shows "ledger_sum pid es = - qty_of pid (map ln_pair ls)"
    and "ledger_order_sum pid oid' es = (if oid' = oid then - qty_of pid (map ln_pair ls) else 0)"
  using assms
  by (induction ls es rule: list_all2_induct) (simp_all add: hold_move_def ln_pair_def table_simps)

lemma filter_none: "(\<And>x. x \<in> set xs \<Longrightarrow> \<not> P x) \<Longrightarrow> filter P xs = []"
  by (simp add: filter_empty_conv)

lemma created_inv:
  assumes inv: "shop_inv d" and cr: "created userID items o' d d'" and ok: "schema_ok d'" "stock_inv d'"
  shows "kept d d'"
proof -
  from cr obtain ls ps row its rs es where
    qty: "\<forall>l\<in>set ls. 0 < ln_qty l \<and> on_sale (products d) l"
    and o': "pending_order userID (line_total ls) o'" "o_ID o' \<notin> set (map o_ID (orders d))"
    and ps: "shifted (\<lambda>i. - qty_of i (map ln_pair ls)) (products d) ps"
    and all: "list_all2 (item_for (o_ID o')) ls its" "list_all2 (hold_for (o_ID o')) ls rs"
      "list_all2 (hold_move (o_ID o')) ls es"
    and row: "enqueued ''order'' (o_ID o') EventOrderCreated (created_payload o') row"
    and d': "d' = d\<lparr>products := ps, orders := orders d @ [o'], order_items := order_items d @ its,
       reservations := reservations d @ rs, stock_ledger := stock_ledger d @ es,
       outbox_events := outbox_events d @ [row]\<rparr>"
    by (auto simp: created_def inserted_def add_outbox_def)
  note items = item_columns [OF all(1)] and held = held_columns [OF all(2)]
    and moves = hold_columns [OF all(3)]
  from inv have refs: "refs_ok d" by (simp add: shop_inv_def schema_ok_def)
  have old: "\<And>r. r \<in> set (reservations d) \<Longrightarrow> rv_OrderID r \<noteq> o_ID o'"
    "\<And>i. i \<in> set (order_items d) \<Longrightarrow> oi_OrderID i \<noteq> o_ID o'"
    "\<And>p. p \<in> set (payments d) \<Longrightarrow> pay_OrderID p \<noteq> o_ID o'"
    "\<And>o1. o1 \<in> set (orders d) \<Longrightarrow> o_ID o1 \<noteq> o_ID o'"
    using refs o'(2) unfolding refs_ok_def set_map by (metis image_eqI subsetD)+
  have "qty_inv (reservations d')"
    using inv held(4) qty by (fastforce simp: d' shop_inv_def qty_inv_def)
  moreover have "status_inv (orders d')" "version_inv (orders d')"
    using inv o'(1) by (auto simp: d' shop_inv_def status_inv_def version_inv_def pending_order_def
        order_statuses_def status_rank_def)
  moreover have "fits_inv (orders d') (reservations d')"
  proof -
    have "fits OrderPendingPayment ReservationHeld" by (simp add: fits_def)
    with inv o'(1) held(4) show ?thesis
      by (auto simp: d' shop_inv_def fits_inv_def pending_order_def dest: old)
  qed
  moreover have "reserve_inv (reservations d') (stock_ledger d')"
    using inv held(2,3) moves
    by (simp add: d' shop_inv_def reserve_inv_def reserved_def taken_def table_simps)
  moreover have "pay_inv (orders d') (payments d')"
    using inv o'(1) old(3)
    by (auto simp: d' shop_inv_def pay_inv_def pending_order_def is_paid_def succeeded_def filter_empty_conv)
  moreover have "line_inv (order_items d') (reservations d')"
    using inv items(1) held(1) by (simp add: d' shop_inv_def line_inv_def)
  moreover have "total_inv (orders d') (order_items d')"
  proof -
    have "items_total (o_ID o1) (order_items d @ its) = items_total (o_ID o1) (order_items d)"
      if "o1 \<in> set (orders d)" for o1
      using items(3) old(4) [OF that] by (simp add: items_total_def filter_none)
    moreover have "items_total (o_ID o') (order_items d @ its) = line_total ls"
      using items(2,3) old(2) by (simp add: items_total_def filter_none)
    ultimately show ?thesis
      using inv o'(1) by (simp add: d' shop_inv_def total_inv_def pending_order_def)
  qed
  moreover have "event_inv (orders d') (outbox_events d')"
  proof -
    have "event_inv (orders d @ [o']) (outbox_events d)"
      using inv by (auto simp: shop_inv_def event_inv_def)
    moreover have "event_inv (orders d @ [o']) [row]"
      using row by (auto simp: event_inv_def carries_order_def enqueued_def event_fits_def
          created_payload_def intro!: exI [of _ "created_payload o'"])
    ultimately show ?thesis by (simp add: d' event_inv_append)
  qed
  moreover have "announced (orders d') (outbox_events d')"
    using inv row o'(1)
    by (auto simp: d' shop_inv_def announced_def enqueued_def pending_order_def event_of_def)
  moreover have "supply_inv base d'" if "supply_inv base d" for base
    unfolding supply_inv_def
  proof
    fix pid
    have sold: "ln_productID l \<in> set (map p_ID (products d))" if "l \<in> set ls" for l
      using qty that by (force simp: on_sale_def)
    have "qty_of pid (map ln_pair ls) = 0" if "pid \<notin> set (map p_ID (products d))"
      using that sold by (intro qty_of_absent) (auto simp: ln_pair_def)
    then have "stock_of pid d' = stock_of pid d - qty_of pid (map ln_pair ls)"
      using shifted_stock_of [of _ d d' pid] ps d' by auto
    with that moves(1)
    show "stock_of pid d' = base pid + ledger_sum pid (stock_ledger d')"
      by (simp add: d' supply_inv_def table_simps)
  qed
  moreover have "grown d d'" by (rule grown_enqueued [OF _ row]) (simp add: d')
  moreover have "evolves d d'" by (auto simp: evolves_def d')
  ultimately show ?thesis using ok by (simp add: shop_inv_def kept_def)
qed

section \<open>The operations\<close>

text \<open>\<open>sound m\<close>: a successful run keeps all the invariants and, for every product, the balance
  of stock and ledger.\<close>

definition sound :: "'a io \<Rightarrow> bool" where
  "sound m = (\<forall>d. shop_inv d
     \<longrightarrow> db_wp m (\<lambda>_. kept d) d)"

lemma soundI:
  "(\<And>d. shop_inv d \<Longrightarrow>
     db_wp m (\<lambda>_ d'. schema_ok d' \<longrightarrow> kept d d') d)
   \<Longrightarrow> keeps schema_ok m \<Longrightarrow> sound m"
  unfolding sound_def
proof (intro allI impI)
  fix d
  assume step: "\<And>d. shop_inv d \<Longrightarrow> db_wp m (\<lambda>_ d'. schema_ok d'
      \<longrightarrow> kept d d') d"
    and keep: "keeps schema_ok m" and inv: "shop_inv d"
  from inv have "schema_ok d" by (simp add: shop_inv_def)
  from db_wp_conj [OF step [OF inv] keepsD [OF keep this]]
  show "db_wp m (\<lambda>_. kept d) d"
    by (rule db_wp_mono) auto
qed

lemma inv_keys: "shop_inv d \<Longrightarrow> keys_ok d"
  by (simp add: shop_inv_def schema_ok_def)

lemma settle_released: "shop_inv d \<Longrightarrow> released oid d d1 \<Longrightarrow> settled ReservationReleased oid d d1"
  by (rule released_settled) (simp_all add: shop_inv_def)

lemma cancel_moves:
  assumes "shop_inv d" and "schema_ok d'"
    and "transitioned (released oid) oid OrderCancelled EventOrderCancelled [] d d'"
  shows "kept d d'"
  using settle_released [OF assms(1)]
  by (intro transitioned_inv [OF assms(1,3,2)])
    (simp_all add: settles_def is_paid_def succeeded_def event_fits_def event_of_def)

lemma fail_moves:
  assumes "shop_inv d" and "schema_ok d'" and "pay_Status pay = PaymentFailed"
    and "transitioned (released oid) oid OrderPaymentFailed EventOrderPaymentFailed [pay] d d'"
  shows "kept d d'"
  using settle_released [OF assms(1)] assms(3)
  by (intro transitioned_inv [OF assms(1,4,2)])
    (simp_all add: settles_def is_paid_def succeeded_def event_fits_def event_of_def)

lemma paid_moves:
  assumes "shop_inv d" and "schema_ok d'" and "pay_Status pay = PaymentSucceeded" and "pay_OrderID pay = oid"
    and "transitioned (committed oid) oid OrderPaid EventOrderPaid [pay] d d'"
  shows "kept d d'"
  using committed_settled assms(3,4)
  by (intro transitioned_inv [OF assms(1,5,2)])
    (simp_all add: settles_def is_paid_def succeeded_def event_fits_def event_of_def)

text \<open>An order that is not pending holds nothing.\<close>

lemma not_pending_holds_nothing:
  assumes "shop_inv d" and "order \<in> set (orders d)" and "o_Status order \<noteq> OrderPendingPayment"
    and "r \<in> set (reservations d)"
  shows "\<not> held_of (o_ID order) r"
proof
  assume h: "held_of (o_ID order) r"
  with assms have "fits (o_Status order) (rv_Status r)"
    unfolding shop_inv_def fits_inv_def held_of_def by blast
  with h assms(3) show False by (auto simp: fits_def held_of_def split: if_splits)
qed

lemma fulfil_moves:
  assumes inv: "shop_inv d" and "schema_ok d'"
    and tr: "transitioned (=) oid OrderFulfilled EventOrderFulfilled [] d d'"
  shows "kept d d'"
proof (rule transitioned_inv [OF inv tr assms(2)])
  from tr obtain order where "order \<in> set (orders d)" "o_ID order = oid"
    "CanTransition (o_Status order) OrderFulfilled" by (auto simp: transitioned_def)
  then have "\<And>r. r \<in> set (reservations d) \<Longrightarrow> \<not> held_of oid r"
    using not_pending_holds_nothing [OF inv] by (auto simp: CanTransition_iff)
  then show "settled (settles OrderFulfilled) oid d d1" if "d = d1" for d1
    using that by (simp add: settles_def is_paid_def nothing_settled)
qed (simp_all add: succeeded_def event_fits_def event_of_def)

lemma sound_CreateOrder: "sound (CreateOrder_tx userID items)"
proof (rule soundI)
  fix d assume inv: "shop_inv d"
  then have "stock_inv d" by (simp add: shop_inv_def)
  from db_wp_conj [OF CreateOrder_rule [OF inv_keys [OF inv]] keepsD [OF stock_CreateOrder this]]
  show "db_wp (CreateOrder_tx userID items) (\<lambda>_ d'. schema_ok d'
      \<longrightarrow> kept d d') d"
    by (rule db_wp_mono) (use created_inv [OF inv] in blast)+
qed (rule schema_CreateOrder)

lemma sound_cancelLocked: "sound (cancelLocked_tx (first_order P))"
  by (rule soundI, rule cancelLocked_rule) (auto dest: cancel_moves intro: inv_keys intro!: keeps_intro)

lemma sound_Pay: "sound (Pay_tx userID oid outcome key)"
  by (rule soundI, rule Pay_rule)
    (auto simp: simulated_def dest: fail_moves paid_moves intro: inv_keys intro!: keeps_intro)

lemma sound_Fulfill: "sound (Fulfill_tx oid)"
  by (rule soundI, rule Fulfill_rule) (auto dest: fulfil_moves intro: inv_keys intro!: keeps_intro)

section \<open>The workers and the relay\<close>

lemma shop_inv_inbox:
  assumes "shop_inv d" and "\<not> processed d (ib_Consumer r) (ib_EventID r)"
  shows "kept d (add_inbox r d)"
proof -
  have "refs_ok (add_inbox r d) = refs_ok d" "stock_inv (add_inbox r d) = stock_inv d"
    "supply_inv base (add_inbox r d) = supply_inv base d" "grown d (add_inbox r d)"
    "evolves d (add_inbox r d)" for base
    by (simp_all add: refs_ok_def add_inbox_def stock_inv_def supply_inv_def stock_of_def)
  then show ?thesis
    using assms by (simp add: kept_def shop_inv_def schema_ok_def) (simp add: add_inbox_def)
qed

lemma sound_charge: "sound (charge_tx event oid)"
proof (rule soundI)
  fix d assume inv: "shop_inv d"
  have claim: "kept d (add_inbox r d)"
    if "\<not> processed d ''payment'' (e_ID event)" and "inbox_key r = (e_ID event, ''payment'')" for r
    using that shop_inv_inbox [OF inv, of r] by (simp add: inbox_key_def)
  show "db_wp (charge_tx event oid) (\<lambda>_ d'. schema_ok d' \<longrightarrow> kept d d') d"
  proof (rule charge_rule [OF inv_keys [OF inv]], goal_cases)
    case (3 r order pay d')
    with claim [OF 3(1,2)] fail_moves [of "add_inbox r d" d' pay oid] show ?case
      by (auto simp: simulated_def dest: keptD intro: kept_trans)
  next
    case (4 r order pay d')
    then have "pay_OrderID pay = oid" by (auto simp: transitioned_def)
    with 4 claim [OF 4(1,2)] paid_moves [of "add_inbox r d" d' pay oid] show ?case
      by (auto simp: simulated_def dest: keptD intro: kept_trans)
  qed (simp_all add: inv claim)
qed (rule schema_charge)

text \<open>Settling an order that holds nothing changes no stock, no ledger, no reservation.\<close>

lemma kept_touch:
  assumes "shop_inv d" and "shifted (\<lambda>_. 0) (products d) ps"
  shows "kept d (d\<lparr>products := ps\<rparr>)"
proof -
  have "stock_inv (d\<lparr>products := ps\<rparr>)"
    using assms shifted_nonneg [OF assms(2)] by (auto simp: stock_inv_def shop_inv_def)
  moreover have "schema_ok (d\<lparr>products := ps\<rparr>)"
    using assms(1) shifted_ids [OF assms(2)]
    by (simp add: shop_inv_def schema_defs table_simps del: set_map)
  moreover have "stock_of pid (d\<lparr>products := ps\<rparr>) = stock_of pid d" for pid
    using shifted_stock_of [of "\<lambda>_. 0" d "d\<lparr>products := ps\<rparr>" pid] assms(2) by simp
  ultimately show ?thesis using assms(1) by (simp add: kept_def shop_inv_def supply_inv_def)
qed

lemma held_none: "(\<And>r. r \<in> set rs \<Longrightarrow> \<not> held_of oid r) \<Longrightarrow> filter (held_of oid) rs = []"
  by (simp add: filter_empty_conv)

lemma released_idle:
  assumes "released oid d d'" and none: "\<And>r. r \<in> set (reservations d) \<Longrightarrow> \<not> held_of oid r"
  obtains ps where "d' = d\<lparr>products := ps\<rparr>" and "shifted (\<lambda>_. 0) (products d) ps"
proof -
  from assms(1) obtain ps t es where
    "d' = d\<lparr>products := ps,
        reservations := update_where (held_of oid) (restatus ReservationReleased t) (reservations d),
        stock_ledger := stock_ledger d @ es\<rparr>"
    "shifted (\<lambda>i. qty_of i (map rv_pair (filter (held_of oid) (reservations d)))) (products d) ps"
    "list_all2 (movement oid ReasonRelease rv_Qty) (filter (held_of oid) (reservations d)) es"
    by (auto simp: released_def)
  then show thesis
    by (intro that [of ps]) (simp_all add: held_none [OF none] update_where_idle [OF none])
qed

lemma committed_idle:
  assumes "committed oid d d'" and none: "\<And>r. r \<in> set (reservations d) \<Longrightarrow> \<not> held_of oid r"
  shows "d' = d"
  using assms(1) by (auto simp: committed_def held_none [OF none] update_where_idle [OF none])

text \<open>The inventory worker, told of an order that is not pending, has nothing left to do: it
  records the event and answers no product.\<close>

definition closed_order :: "db \<Rightarrow> uint \<Rightarrow> bool" where
  "closed_order d oid = (\<exists>o'\<in>set (orders d). o_ID o' = oid \<and> o_Status o' \<noteq> OrderPendingPayment)"

definition untouched :: "db \<Rightarrow> db \<Rightarrow> bool" where
  "untouched d d' = (shifted (\<lambda>_. 0) (products d) (products d') \<and> orders d' = orders d
     \<and> reservations d' = reservations d \<and> stock_ledger d' = stock_ledger d
     \<and> payments d' = payments d \<and> outbox_events d' = outbox_events d)"

lemma inventory_idle:
  assumes inv: "shop_inv d" and closed: "closed_order d oid"
  shows "db_wp (inventory_tx event oid) (\<lambda>ids d'. ids = [] \<and> kept d d' \<and> untouched d d') d"
proof -
  have none: "\<And>r. r \<in> set (reservations d) \<Longrightarrow> \<not> held_of oid r"
    using closed not_pending_holds_nothing [OF inv] by (auto simp: closed_order_def)
  have same [simp]: "untouched d (add_inbox r d)" for r by (simp add: untouched_def add_inbox_def)
  have claim: "kept d (add_inbox r d)"
    if "\<not> processed d ''inventory'' (e_ID event)" "inbox_key r = (e_ID event, ''inventory'')" for r
    using that shop_inv_inbox [OF inv, of r] by (simp add: inbox_key_def)
  show ?thesis
  proof (rule inventory_rule [OF inv_keys [OF inv]], goal_cases)
    case 1
    show ?case using inv by (simp add: untouched_def)
  next
    case (2 r)
    then show ?case by (simp add: claim)
  next
    case (3 r d')
    then have "d' = add_inbox r d" using none by (intro committed_idle) (auto simp: add_inbox_def)
    with 3 show ?case by (simp add: claim)
  next
    case (4 r d')
    obtain ps where ps: "d' = (add_inbox r d)\<lparr>products := ps\<rparr>"
      "shifted (\<lambda>_. 0) (products (add_inbox r d)) ps"
      using 4(4) by (rule released_idle) (use none in \<open>auto simp: add_inbox_def\<close>)
    have "kept (add_inbox r d) d'"
      using ps claim [OF 4(1,2)] kept_touch by (auto dest: keptD)
    with ps claim [OF 4(1,2)] show ?case
      by (auto simp: held_none [OF none] untouched_def add_inbox_def intro: kept_trans)
  qed
qed

lemma relayed_inv:
  assumes "shop_inv d" and "relayed d d'" and "outbox_ok d'"
  shows "shop_inv d' \<and> (\<forall>base. supply_inv base d \<longrightarrow> supply_inv base d') \<and> evolves d d'"
proof -
  from assms(2) obtain rows where d': "d' = d\<lparr>outbox_events := rows\<rparr>" by (auto simp: relayed_def)
  have strip: "event_inv os (map strip rs) = event_inv os rs" "announced os (map strip rs) = announced os rs"
    for os rs by (simp_all add: event_inv_def carries_order_def announced_def)
  have eq: "map strip rows = map strip (outbox_events d)" using relayed_strip [OF assms(2)] by (simp add: d')
  from assms(1) have "event_inv (orders d) (map strip (outbox_events d))"
    "announced (orders d) (map strip (outbox_events d))"
    by (simp_all only: strip shop_inv_def)
  then have "event_inv (orders d) rows" "announced (orders d) rows"
    by (simp_all only: eq [symmetric] strip)
  with assms(1,3) show ?thesis
    by (simp add: d' shop_inv_def schema_defs stock_inv_def supply_inv_def stock_of_def table_simps)
qed

section \<open>Consequences\<close>

lemma filter_map_key: "filter (\<lambda>x. fst x = k) (map (\<lambda>y. (f y, g y)) ys) = map (\<lambda>y. (f y, g y)) (filter (\<lambda>y. f y = k) ys)"
  by (induction ys) auto

text \<open>What an order holds while it is pending: exactly its items.\<close>

lemma pending_holds_items:
  assumes "shop_inv d" and "order \<in> set (orders d)" and "o_Status order = OrderPendingPayment"
  shows "held_pairs (o_ID order) (reservations d)
       = map (\<lambda>i. (oi_ProductID i, oi_Qty i)) (filter (\<lambda>i. oi_OrderID i = o_ID order) (order_items d))"
proof -
  let ?oid = "o_ID order"
  have "rv_Status r = ReservationHeld" if "r \<in> set (reservations d)" "rv_OrderID r = ?oid" for r
  proof -
    have "fits (o_Status order) (rv_Status r)"
      using assms(1,2) that unfolding shop_inv_def fits_inv_def by blast
    with assms(3) show ?thesis by (simp add: fits_def)
  qed
  then have held: "filter (held_of ?oid) (reservations d) = filter (\<lambda>r. rv_OrderID r = ?oid) (reservations d)"
    by (intro filter_cong) (auto simp: held_of_def)
  have "map snd (filter (\<lambda>x. fst x = ?oid) (map (\<lambda>i. (oi_OrderID i, oi_ProductID i, oi_Qty i)) (order_items d)))
      = map snd (filter (\<lambda>x. fst x = ?oid) (map (\<lambda>r. (rv_OrderID r, rv_ProductID r, rv_Qty r)) (reservations d)))"
    using assms(1) by (simp add: shop_inv_def line_inv_def)
  then show ?thesis
    by (simp add: filter_map_key held_pairs_def held rv_pair_def [abs_def] comp_def)
qed

lemma closed_holds_nothing:
  "shop_inv d \<Longrightarrow> order \<in> set (orders d) \<Longrightarrow> o_Status order \<noteq> OrderPendingPayment
   \<Longrightarrow> held_pairs (o_ID order) (reservations d) = []"
  by (auto simp: held_pairs_def filter_empty_conv dest: not_pending_holds_nothing)

text \<open>Totals of integral prices are exact up to \<open>2 ^ 53\<close>.\<close>

definition integral_line :: "line \<Rightarrow> int \<Rightarrow> bool" where
  "integral_line l p = (ln_price l = f64_of_int p \<and> 0 \<le> p \<and> 0 < ln_qty l \<and> exact p \<and> exact (ln_qty l))"

lemma line_total_exact_acc:
  assumes "list_all2 integral_line ls ps"
    and "0 \<le> a" and "a + sum_list (map2 (\<lambda>l p. p * ln_qty l) ls ps) \<le> 2 ^ 53"
  shows "foldl add_price (f64_of_int a) ls = f64_of_int (a + sum_list (map2 (\<lambda>l p. p * ln_qty l) ls ps))"
  using assms
proof (induction ls ps arbitrary: a rule: list_all2_induct)
  case (Cons l ls p ps)
  have rest: "0 \<le> sum_list (map2 (\<lambda>l p. p * ln_qty l) ls ps)"
    using Cons(2) by (induction ls ps rule: list_all2_induct) (auto simp: integral_line_def)
  have l: "ln_price l = f64_of_int p" "0 \<le> p" "0 < ln_qty l" "exact p" "exact (ln_qty l)"
    using Cons(1) by (simp_all add: integral_line_def)
  have pos: "0 \<le> p * ln_qty l" using l by simp
  have le: "a + p * ln_qty l \<le> 2 ^ 53" using Cons.prems(2) rest by simp
  then have ex: "exact (p * ln_qty l)" "exact (a + p * ln_qty l)" "exact a"
    using pos Cons.prems(1) by (simp_all add: exact_def)
  have "add_price (f64_of_int a) l = f64_of_int (a + p * ln_qty l)"
    using f64_mul_exact [OF l(4,5) ex(1)] f64_add_exact [OF ex(3,1,2)]
    by (simp add: add_price_def l(1) plus_float64_def times_float64_def)
  then show ?case
    using Cons.IH [of "a + p * ln_qty l"] Cons.prems pos by (simp add: add.assoc)
qed simp

lemma line_total_exact:
  assumes "list_all2 integral_line ls ps" and "sum_list (map2 (\<lambda>l p. p * ln_qty l) ls ps) \<le> 2 ^ 53"
  shows "line_total ls = f64_of_int (sum_list (map2 (\<lambda>l p. p * ln_qty l) ls ps))"
  using line_total_exact_acc [OF assms(1), of 0] assms(2) unfolding line_total_def by simp

text \<open>A move of the state machine never goes back.\<close>

lemma moves_keep:
  "moves_to\<^sup>*\<^sup>* o1 o2 \<Longrightarrow> o_ID o2 = o_ID o1 \<and> o_UserID o2 = o_UserID o1 \<and> o_Total o2 = o_Total o1
     \<and> (o2 = o1 \<or> status_rank (o_Status o2) < status_rank (o_Status o1) \<and> o_Version o1 < o_Version o2)"
proof (induction rule: rtranclp_induct)
  case (step y z)
  from step.hyps(2) obtain st t where "CanTransition (o_Status y) st" "z = advance st t y"
    by (auto simp: moves_to_def)
  with step.IH CanTransition_rank show ?case by force
qed simp

text \<open>The payment worker is work guarded by a claim.\<close>

lemma if_negated: "(if \<not> b then m else n) = (if b then n else m)"
  by simp

lemma charge_guarded: "\<exists>work. charge_tx event oid = inbox.guarded ''payment'' (e_ID event) (e_Type event) work"
  unfolding charge_tx_def Let_def inbox.guarded_def if_negated by (rule exI) (rule refl)

text \<open>What has been claimed stays claimed.\<close>

lemma transitioned_processed:
  assumes "transitioned S oid st ev pays d d'" and "\<And>d d1. S d d1 \<Longrightarrow> processed_events d1 = processed_events d"
  shows "processed_events d' = processed_events d"
  using assms by (auto simp: transitioned_def)

lemma settle_processed:
  "released oid d d1 \<Longrightarrow> processed_events d1 = processed_events d"
  "committed oid d d1 \<Longrightarrow> processed_events d1 = processed_events d"
  by (auto simp: released_def committed_def)

lemma charge_records:
  assumes "keys_ok d"
  shows "db_wp (charge_tx event oid) (\<lambda>_ d'. processed d' ''payment'' (e_ID event)) d"
proof (rule charge_rule [OF assms], goal_cases)
  case (2 r)
  then show ?case by simp
next
  case (3 r order pay d')
  have "processed_events d' = processed_events (add_inbox r d)"
    using 3(5) by (rule transitioned_processed) (rule settle_processed)
  with 3 show ?case by (simp add: processed_def add_inbox_def)
next
  case (4 r order pay d')
  have "processed_events d' = processed_events (add_inbox r d)"
    using 4(5) by (rule transitioned_processed) (rule settle_processed)
  with 4 show ?case by (simp add: processed_def add_inbox_def)
qed

lemma charge_skips:
  assumes "processed d ''payment'' (e_ID event)"
  shows "db_wp (charge_tx event oid) (\<lambda>_ d'. d' = d) d"
proof -
  obtain work where "charge_tx event oid = inbox.guarded ''payment'' (e_ID event) (e_Type event) work"
    using charge_guarded by blast
  with inbox.guarded_skips [OF assms] show ?thesis by simp
qed

text \<open>What a payment does, by its outcome: nothing for a replayed key or an order already paid.\<close>

definition pay_effect :: "uint \<Rightarrow> string \<Rightarrow> string \<Rightarrow> db \<Rightarrow> db \<Rightarrow> OrderModel \<Rightarrow> PaymentModel option \<Rightarrow> bool" where
  "pay_effect oid outcome key d d' order pay =
     (case pay of
        None \<Rightarrow> d' = d \<and> is_paid (o_Status order)
      | Some p \<Rightarrow>
          d' = d \<and> p \<in> set (payments d) \<and> pay_OrderID p = oid \<and> pay_IdempotencyKey p = key
        \<or> outcome = ''fail'' \<and> pay_Status p = PaymentFailed \<and> pay_IdempotencyKey p = key
          \<and> transitioned (released oid) oid OrderPaymentFailed EventOrderPaymentFailed [p] d d'
        \<or> outcome \<notin> {''fail'', ''timeout''} \<and> pay_Status p = PaymentSucceeded \<and> pay_IdempotencyKey p = key
          \<and> transitioned (committed oid) oid OrderPaid EventOrderPaid [p] d d')"

end
