(* ===== verification/Audit_Worker.thy ===== *)
theory Audit_Worker
  imports Kafka
begin

text \<open>
  \<open>internal/worker/audit\<close>: every consumed event becomes an immutable document in MongoDB; an
  event that cannot be stored after three attempts, or whose envelope does not decode, goes
  to the dead-letter topic.

  MongoDB is not part of the source: the collection is the list of its documents, with the
  unique index on \<open>eventId\<close> that \<open>EnsureIndexes\<close> creates; an insert may fail, and one whose
  acknowledgement is lost may have been applied.  The wait between two attempts is not
  modelled; whether the context is cancelled during it is up to the environment.
\<close>

section \<open>store.go\<close>

definition duplicate_key_error :: go_error where
  "duplicate_key_error = Wrapped ''E11000 duplicate key error'' (Other ''E11000'')"

definition IsDuplicateKeyError :: "go_error \<Rightarrow> bool" where
  "IsDuplicateKeyError e = (e = duplicate_key_error)"

definition recorded :: "string \<Rightarrow> sys \<Rightarrow> bool" where
  "recorded eventID s = (eventID \<in> set (map au_EventID (mongo s)))"

definition InsertOne :: "AuditRecord \<Rightarrow> unit io" where
  "InsertOne r s =
     (let stored = (if recorded (au_EventID r) s then tock s else (tock s)\<lparr>mongo := mongo s @ [r]\<rparr>)
      in case fault (env s) (tick s) of
           None \<Rightarrow> if recorded (au_EventID r) s then (Inl duplicate_key_error, tock s) else (Inr (), stored)
         | Some m \<Rightarrow> (Inl (Other m), if commit_lost (env s) (tick s) then stored else tock s))"

definition MongoStore_Insert :: "AuditRecord \<Rightarrow> unit io" where
  "MongoStore_Insert r =
     bindE (attempt (InsertOne r)) (\<lambda>res.
     case res of
       Inr _ \<Rightarrow> ret ()
     | Inl err \<Rightarrow> if IsDuplicateKeyError err then ret () else throw err)"

definition ListRecent :: "int \<Rightarrow> AuditRecord list io" where
  "ListRecent limit =
     (let limit = (if limit \<le> 0 \<or> 100 < limit then 20 else limit)
      in interact (\<lambda>s. (Inr (take (nat limit) (rev (sort_key au_ProcessedAt (mongo s)))), s)))"

definition Audit_Count :: "nat io" where
  "Audit_Count = interact (\<lambda>s. (Inr (length (mongo s)), s))"

section \<open>audit.go\<close>

definition maxRetries :: nat where "maxRetries = 3"

definition context_canceled :: go_error where "context_canceled = Other ''context canceled''"

text \<open>\<open>p.dlq.Publish(ctx, msg.Event.ID, evt)\<close>\<close>

definition publish_dead :: "DeadLetter \<Rightarrow> unit io" where
  "publish_dead dl s =
     (case fault (env s) (tick s) of
        None \<Rightarrow> (Inr (), (tock s)\<lparr>topic_dlq := topic_dlq s @ [dl]\<rparr>)
      | Some m \<Rightarrow>
          (Inl (Wrapped (''kafka write: '' @ m) (Other m)),
           if commit_lost (env s) (tick s) then (tock s)\<lparr>topic_dlq := topic_dlq s @ [dl]\<rparr> else tock s))"

definition deadLetter :: "bool \<Rightarrow> Message \<Rightarrow> string \<Rightarrow> unit io" where
  "deadLetter has_dlq msg reason =
     (if \<not> has_dlq
      then throw (Other (''dead letter ('' @ reason @ '') but no DLQ producer configured''))
      else
        bindE now (\<lambda>failedAt. bindE new_uuid (\<lambda>u. bindE now (\<lambda>t.
        bindE (attempt (publish_dead
                 \<lparr>dl_Key = e_ID (msg_Event msg), dl_ID = u, dl_Type = ''dlq.'' @ e_Type (msg_Event msg),
                  dl_CreatedAt = t, dl_reason = reason, dl_rawMessage = msg_rawBody msg,
                  dl_failedAt = failedAt\<rparr>)) (\<lambda>r.
        case r of
          Inl e \<Rightarrow> throw (Wrapped (''publish to DLQ: '' @ error_text e) e)
        | Inr _ \<Rightarrow> ret ())))))"

text \<open>The retry loop; \<open>n\<close> attempts are left.\<close>

fun insert_retrying :: "AuditRecord \<Rightarrow> nat \<Rightarrow> (go_error \<Rightarrow> unit io) \<Rightarrow> go_error \<Rightarrow> unit io" where
  "insert_retrying r 0 give_up lastErr = give_up lastErr"
| "insert_retrying r (Suc n) give_up lastErr =
     bindE (attempt (MongoStore_Insert r)) (\<lambda>res.
     case res of
       Inr _ \<Rightarrow> ret ()
     | Inl err \<Rightarrow>
         bindE ctx_cancelled (\<lambda>cancelled.
         if cancelled then throw context_canceled
         else insert_retrying r n give_up err))"

definition audit_record :: "Event \<Rightarrow> time \<Rightarrow> AuditRecord" where
  "audit_record e t =
     \<lparr>au_EventID = e_ID e, au_Type = e_Type e, au_Payload = e_Payload e, au_OccurredAt = e_CreatedAt e,
      au_ProcessedAt = t, au_Consumer = ''worker''\<rparr>"

definition Audit_Handle :: "bool \<Rightarrow> Message \<Rightarrow> unit io" where
  "Audit_Handle has_dlq msg =
     (if e_ID (msg_Event msg) = [] then deadLetter has_dlq msg ''undecodable event envelope''
      else
        bindE now (\<lambda>t.
        insert_retrying (audit_record (msg_Event msg) t) maxRetries
          (\<lambda>e. deadLetter has_dlq msg
             (''store insert failed after '' @ show_nat maxRetries @ '' attempts: '' @ error_text e))
          (Other [])))"

section \<open>Correctness\<close>

definition audit_ok :: "sys \<Rightarrow> bool" where
  "audit_ok s = distinct (map au_EventID (mongo s))"

text \<open>What auditing leaves alone.\<close>

definition audit_frame :: "sys \<Rightarrow> sys \<Rightarrow> bool" where
  "audit_frame s s' = (env s' = env s \<and> db s' = db s \<and> seqs s' = seqs s
     \<and> topic_products s' = topic_products s \<and> redis s' = redis s \<and> jobs s' = jobs s
     \<and> relay_paused s' = relay_paused s \<and> (audit_ok s \<longrightarrow> audit_ok s')
     \<and> (\<exists>new. mongo s' = mongo s @ new) \<and> (\<exists>dead. topic_dlq s' = topic_dlq s @ dead))"

lemma audit_frame_refl [simp]: "audit_frame s s"
  by (simp add: audit_frame_def)

lemma audit_frame_tock [simp]: "audit_frame s (tock s)"
  by (simp add: audit_frame_def audit_ok_def)

lemma audit_frame_trans: "audit_frame s s1 \<Longrightarrow> audit_frame s1 s2 \<Longrightarrow> audit_frame s s2"
  by (auto simp: audit_frame_def)

lemma audit_frame_step: "audit_frame s s1 \<Longrightarrow> audit_frame s (tock s1)"
  by (erule audit_frame_trans) simp

lemma MongoStore_Insert_rule:
  "wp (MongoStore_Insert r)
     (\<lambda>_ s'. audit_frame s s' \<and> recorded (au_EventID r) s' \<and> topic_dlq s' = topic_dlq s)
     (\<lambda>_ s'. audit_frame s s' \<and> topic_dlq s' = topic_dlq s) s"
proof -
  have "wp (InsertOne r)
     (\<lambda>_ s'. audit_frame s s' \<and> recorded (au_EventID r) s' \<and> topic_dlq s' = topic_dlq s)
     (\<lambda>e s'. audit_frame s s' \<and> topic_dlq s' = topic_dlq s
           \<and> (IsDuplicateKeyError e \<longrightarrow> recorded (au_EventID r) s')) s"
    by (auto simp: wp_def InsertOne_def Let_def audit_frame_def audit_ok_def recorded_def
        IsDuplicateKeyError_def duplicate_key_error_def split: option.splits)
  then show ?thesis
    unfolding MongoStore_Insert_def by (auto simp: wp_simps elim!: wp_mono)
qed

lemma wp_clock [wp_simps]:
  "wp new_uuid Q E s = Q (uuid (env s) (tick s)) (tock s)"
  "wp ctx_cancelled P E s = P (ctx_done (env s) (tick s)) (tock s)"
  by (simp_all add: wp_def new_uuid_def ctx_cancelled_def)

definition dead_lettered :: "Message \<Rightarrow> string \<Rightarrow> sys \<Rightarrow> sys \<Rightarrow> bool" where
  "dead_lettered msg reason s s' = (\<exists>dl. topic_dlq s' = topic_dlq s @ [dl]
     \<and> dl_Key dl = e_ID (msg_Event msg) \<and> dl_rawMessage dl = msg_rawBody msg \<and> dl_reason dl = reason
     \<and> dl_Type dl = ''dlq.'' @ e_Type (msg_Event msg))"

lemma deadLetter_rule:
  "wp (deadLetter has_dlq msg reason)
     (\<lambda>_ s'. audit_frame s s' \<and> mongo s' = mongo s \<and> dead_lettered msg reason s s')
     (\<lambda>_ s'. audit_frame s s' \<and> mongo s' = mongo s) s"
  by (auto simp: deadLetter_def publish_dead_def wp_simps wp_def [of "publish_dead _"] audit_frame_def
      audit_ok_def dead_lettered_def split: option.splits)

text \<open>The outcome of handling a message: an error, or the event is in the collection, or it
  is dead-lettered.\<close>

definition accounted :: "Message \<Rightarrow> sys \<Rightarrow> sys \<Rightarrow> bool" where
  "accounted msg s s' = (recorded (e_ID (msg_Event msg)) s' \<and> e_ID (msg_Event msg) \<noteq> []
     \<or> (\<exists>reason. dead_lettered msg reason s s'))"

lemma insert_retrying_rule:
  assumes "au_EventID r = e_ID (msg_Event msg)" and "e_ID (msg_Event msg) \<noteq> []"
  shows "wp (insert_retrying r n (\<lambda>e. deadLetter has_dlq msg (reason e)) lastErr)
     (\<lambda>_ s'. audit_frame s s' \<and> accounted msg s s') (\<lambda>_ s'. audit_frame s s') s"
proof (induction n arbitrary: s lastErr)
  case 0
  show ?case
    by (auto simp: accounted_def intro!: wp_mono [OF deadLetter_rule])
next
  case (Suc n)
  have ok: "accounted msg s s1" if "recorded (au_EventID r) s1" for s1
    using that assms by (simp add: accounted_def)
  have later: "accounted msg s s2" if "accounted msg (tock s1) s2" "topic_dlq s1 = topic_dlq s" for s1 s2
    using that by (auto simp: accounted_def dead_lettered_def)
  have rest: "wp (insert_retrying r n (\<lambda>e. deadLetter has_dlq msg (reason e)) err)
     (\<lambda>_ s'. audit_frame s s' \<and> accounted msg s s') (\<lambda>_ s'. audit_frame s s') (tock s1)"
    if s1: "audit_frame s s1" "topic_dlq s1 = topic_dlq s" for s1 err
    by (rule wp_mono [OF Suc.IH])
      (use s1 later audit_frame_trans [OF audit_frame_trans [OF s1(1) audit_frame_tock]] in auto)
  show ?case
    by (auto simp: wp_simps intro!: wp_mono [OF MongoStore_Insert_rule] rest ok
        intro: audit_frame_step)
qed

text \<open>No event is lost silently: when \<open>Handle\<close> reports success, the event is recorded or
  dead-lettered; the collection and the dead-letter topic only grow, and no event is
  recorded twice.\<close>

lemma Audit_Handle_rule:
  "wp (Audit_Handle has_dlq msg)
     (\<lambda>_ s'. audit_frame s s' \<and> accounted msg s s') (\<lambda>_ s'. audit_frame s s') s"
proof (cases "e_ID (msg_Event msg) = []")
  case True
  then show ?thesis
    by (auto simp: Audit_Handle_def accounted_def intro!: wp_mono [OF deadLetter_rule])
next
  case False
  have later: "accounted msg s s2" if "accounted msg (tock s) s2" for s2
    using that by (auto simp: accounted_def dead_lettered_def)
  from False show ?thesis
    by (auto simp: Audit_Handle_def wp_simps audit_record_def later
        intro!: wp_mono [OF insert_retrying_rule] intro: audit_frame_trans [OF audit_frame_tock])
qed

end
