(* ===== verification/Dispatch.thy ===== *)
theory Dispatch
  imports Commerce_Inv Audit_Worker
begin

text \<open>
  \<open>internal/worker/dispatch/dispatch.go\<close> and the consume loop of \<open>cmd/worker/main.go\<close>.

  A fetched event goes first to the commerce handler of its type, then to the audit
  processor; an error of the first skips the second.  The loop commits the offset only when
  handling succeeded, and always goes on with the next message.  A partition is the list of
  its messages; \<open>position\<close> is where the reader stands, \<open>committed_offset\<close> where it resumes after a
  restart, \<open>backoff\<close> the wait after the next failed fetch.
\<close>

section \<open>Routing\<close>

record Processor =
  has_payment :: bool
  has_inventory :: bool
  has_cache :: bool
  has_dlq :: bool

definition routeCommerce :: "Processor \<Rightarrow> Message \<Rightarrow> unit io" where
  "routeCommerce p msg =
     (let t = e_Type (msg_Event msg) in
      if t = EventOrderCreated then (if has_payment p then HandleOrderCreated msg else ret ())
      else if t = EventOrderPaid \<or> t = EventOrderCancelled \<or> t = EventOrderPaymentFailed
              \<or> t = EventOrderFulfilled
      then (if has_inventory p then Inventory_Handle (has_cache p) msg else ret ())
      else ret ())"

definition Dispatch_Handle :: "Processor \<Rightarrow> Message \<Rightarrow> unit io" where
  "Dispatch_Handle p msg =
     (if e_ID (msg_Event msg) \<noteq> []
      then bindE (routeCommerce p msg) (\<lambda>_. Audit_Handle (has_dlq p) msg)
      else Audit_Handle (has_dlq p) msg)"

section \<open>The consume loop\<close>

record Reader =
  position :: nat
  committed_offset :: nat
  backoff :: duration

definition first_backoff :: duration where "first_backoff = second"

definition next_backoff :: "duration \<Rightarrow> duration" where
  "next_backoff b = (if b < 30 * second then 2 * b else b)"

text \<open>\<open>consumer.Fetch\<close> on the partition: an error if the broker fails or has no message.\<close>

definition fetch :: "Reader \<Rightarrow> Message io" where
  "fetch c = interact (\<lambda>s.
     if position c < length (topic_products s) then (Inr (Fetch (topic_products s ! position c)), s)
     else (Inl (Other ''kafka: no message''), s))"

definition commit_offset :: "unit io" where
  "commit_offset = interact (\<lambda>s. (Inr (), s))"

text \<open>One iteration of the loop.\<close>

definition consume_one :: "Processor \<Rightarrow> Reader \<Rightarrow> Reader io" where
  "consume_one p c =
     bindE (attempt (fetch c)) (\<lambda>r.
     case r of
       Inl _ \<Rightarrow> ret (c\<lparr>backoff := next_backoff (backoff c)\<rparr>)
     | Inr msg \<Rightarrow>
         let c = c\<lparr>position := position c + 1, backoff := first_backoff\<rparr> in
         bindE (attempt (Dispatch_Handle p msg)) (\<lambda>r.
         case r of
           Inl _ \<Rightarrow> ret c
         | Inr _ \<Rightarrow>
             bindE (attempt commit_offset) (\<lambda>r.
             case r of
               Inl _ \<Rightarrow> ret c
             | Inr _ \<Rightarrow> ret (c\<lparr>committed_offset := position c\<rparr>))))"

text \<open>A restart of the worker: the group resumes at the committed offset.\<close>

definition restart :: "Reader \<Rightarrow> Reader" where
  "restart c = c\<lparr>position := committed_offset c, backoff := first_backoff\<rparr>"

text \<open>The consume loop, without and with restarts of the worker.\<close>

inductive looping :: "Processor \<Rightarrow> Reader \<times> sys \<Rightarrow> Reader \<times> sys \<Rightarrow> bool" for p x where
  loop_start: "looping p x x"
| loop_again: "looping p x (c, s) \<Longrightarrow> consume_one p c s = (Inr c', s') \<Longrightarrow> looping p x (c', s')"

inductive working :: "Processor \<Rightarrow> Reader \<times> sys \<Rightarrow> Reader \<times> sys \<Rightarrow> bool" for p x where
  work_start: "working p x x"
| work_again: "working p x (c, s) \<Longrightarrow> consume_one p c s = (Inr c', s') \<Longrightarrow> working p x (c', s')"
| work_restarted: "working p x (c, s) \<Longrightarrow> working p x (restart c, s)"

lemma consume_one_reader:
  assumes "consume_one p c s = (Inr c', s')"
  shows "position c \<le> position c' \<and> (committed_offset c' = committed_offset c \<or> committed_offset c' = position c')"
  using assms
  unfolding consume_one_def attempt_def bindE_def Let_def ret_def fetch_def commit_offset_def interact_def
  by (auto split: prod.splits sum.splits option.splits if_splits)

lemma looping_past:
  assumes "looping p (c, s) (c', s')"
  shows "position c \<le> position c' \<and> (committed_offset c' = committed_offset c \<or> position c \<le> committed_offset c')"
  using assms
proof (induction "(c', s')" arbitrary: c' s' rule: looping.induct)
  case (loop_again c1 s1 c2 s2)
  then show ?case using consume_one_reader [OF loop_again(3)] by auto
qed simp

lemma working_past:
  assumes "working p (c, s) (c', s')" and "n \<le> committed_offset c" and "n \<le> position c"
  shows "n \<le> committed_offset c' \<and> n \<le> position c'"
  using assms
proof (induction "(c', s')" arbitrary: c' s' rule: working.induct)
  case (work_again c1 s1 c2 s2)
  then show ?case using consume_one_reader [OF work_again(3)] by auto
qed (auto simp: restart_def)

section \<open>What a consumer decodes from a row of the outbox\<close>

lemma lookup_present: "lookup m k = v \<Longrightarrow> v \<noteq> GNil \<Longrightarrow> map_of (rev m) k = Some v"
  by (auto simp: lookup_def split: option.splits)

lemma f64_of_int_Fin: "exact n \<Longrightarrow> \<exists>m e. f64_of_int n = Fin m e"
proof -
  assume "exact n"
  then obtain m k where "f64_of_int n = Fin m (int k)" by (rule f64_of_int_cases)
  then show ?thesis by (intro exI)
qed

text \<open>The order of an event survives two passes through JSON (into the outbox and onto the
  topic) if its id is at most \<open>2 ^ 53\<close>, where every integer is a \<open>float64\<close>.\<close>

lemma decoded_event:
  assumes payload: "marshal_fields payload = Inr kjs" "ev_Payload row = JObj kjs" and wire: "kafka.row_wire row = Some w"
  obtains m2 where "marshal_fields (map (\<lambda>(k, j). (k, unmarshal j)) kjs) = Inr m2"
    and "msg_Event (Fetch w) = row_event row (map (\<lambda>(k, j). (k, unmarshal j)) m2)"
proof -
  let ?m = "map (\<lambda>(k, j). (k, unmarshal j)) kjs"
  have "unmarshal_map (Inl (ev_Payload row)) = Some ?m" by (simp add: payload unmarshal_map_def)
  with wire have "event_wire (row_key row) (row_event row ?m) = Some w"
    by (simp add: kafka.row_wire_def)
  then obtain body where body: "marshal_event (row_event row ?m) = Inr body" "w = (row_key row, Inl body)"
    by (auto simp: event_wire_def split: sum.splits)
  obtain m2 where "marshal_fields (e_Payload (row_event row ?m)) = Inr m2"
    and "msg_Event (Fetch w) = (row_event row ?m)\<lparr>e_Payload := map (\<lambda>(k, j). (k, unmarshal j)) m2\<rparr>"
    using Fetch_published [OF body(1), of "row_key row"] body(2) by metis
  with that show thesis by (simp add: row_event_def)
qed

lemma decoded_row:
  assumes row: "carries_order row" and wire: "kafka.row_wire row = Some w"
    and small: "unat (ev_AggregateID row) \<le> 2 ^ 53"
  shows "e_ID (msg_Event (Fetch w)) = ev_EventID row"
    and "e_Type (msg_Event (Fetch w)) = ev_EventType row"
    and "asUint conv (lookup (e_Payload (msg_Event (Fetch w))) ''orderId'') = Some (ev_AggregateID row)"
proof -
  let ?n = "uint (ev_AggregateID row)"
  from row obtain payload where p: "marshal (GMap payload) = Inr (ev_Payload row)"
    "map_of (rev payload) ''orderId'' = Some (GUint (ev_AggregateID row))"
    by (auto simp: carries_order_def)
  from p(1) obtain kjs where kjs: "marshal_fields payload = Inr kjs" "ev_Payload row = JObj kjs"
    by (auto split: sum.splits)
  let ?m = "map (\<lambda>(k, j). (k, unmarshal j)) kjs"
  have "int (unat (ev_AggregateID row)) \<le> 2 ^ 53" using small by (metis of_nat_le_iff of_nat_numeral of_nat_power)
  then have "?n \<le> 2 ^ 53" by (simp only: uint_nat)
  then have exact: "exact ?n" by (simp add: exact_def)
  obtain j where j: "marshal (GUint (ev_AggregateID row)) = Inr j" "lookup ?m ''orderId'' = unmarshal j"
    using lookup_roundtrip [OF kjs(1) p(2)] by blast
  have "lookup ?m ''orderId'' = GFloat (f64_of_int ?n)"
    unfolding j(2) using j(1) by auto
  then have oid: "map_of (rev ?m) ''orderId'' = Some (GFloat (f64_of_int ?n))"
    by (rule lookup_present) simp
  obtain m2 where m2: "marshal_fields ?m = Inr m2"
    and ev: "msg_Event (Fetch w) = row_event row (map (\<lambda>(k, j). (k, unmarshal j)) m2)"
    using decoded_event [OF kjs wire] .
  from ev show "e_ID (msg_Event (Fetch w)) = ev_EventID row"
    and "e_Type (msg_Event (Fetch w)) = ev_EventType row"
    by (simp_all add: row_event_def)
  from f64_of_int_Fin [OF exact] obtain a e where fin: "f64_of_int ?n = Fin a e" by blast
  obtain j' where j': "marshal (GFloat (f64_of_int ?n)) = Inr j'"
    "lookup (map (\<lambda>(k, j). (k, unmarshal j)) m2) ''orderId'' = unmarshal j'"
    using lookup_roundtrip [OF m2 oid] by blast
  have "lookup (map (\<lambda>(k, j). (k, unmarshal j)) m2) ''orderId'' = GFloat (f64_of_int ?n)"
    unfolding j'(2) using j'(1) fin by auto
  with ev show "asUint conv (lookup (e_Payload (msg_Event (Fetch w))) ''orderId'') = Some (ev_AggregateID row)"
    by (simp add: asUint_def row_event_def f64_to_uint_of_int [OF exact])
qed

text \<open>A key the payload does not have is not there after the two passes either.\<close>

lemma marshal_fields_keys: "marshal_fields kvs = Inr kjs \<Longrightarrow> map fst kjs = map fst kvs"
  by (induction kvs arbitrary: kjs) (auto split: sum.splits)

lemma decoded_absent:
  assumes "marshal (GMap payload) = Inr (ev_Payload row)" and "kafka.row_wire row = Some w"
    and "k \<notin> set (map fst payload)"
  shows "lookup (e_Payload (msg_Event (Fetch w))) k = GNil"
proof -
  from assms(1) obtain kjs where kjs: "marshal_fields payload = Inr kjs" "ev_Payload row = JObj kjs"
    by (auto split: sum.splits)
  obtain m2 where m2: "marshal_fields (map (\<lambda>(k, j). (k, unmarshal j)) kjs) = Inr m2"
    and ev: "msg_Event (Fetch w) = row_event row (map (\<lambda>(k, j). (k, unmarshal j)) m2)"
    using decoded_event [OF kjs assms(2)] .
  have "map fst m2 = map fst payload"
    using marshal_fields_keys [OF m2] marshal_fields_keys [OF kjs(1)] by (simp add: comp_def case_prod_beta)
  then have "k \<notin> fst ` set m2" using assms(3) by (metis set_map)
  then have "map_of (rev m2) k = None" by (simp add: map_of_eq_None_iff)
  then show ?thesis by (simp add: ev row_event_def lookup_unmarshal)
qed

end
