(* ===== verification/Http.thy ===== *)
theory Http
  imports Store
begin

text \<open>
  The HTTP side: requests, the gin context of a request, the response envelope
  (\<open>pkg/response\<close>) and the decoding of request bodies.

  Gin is not part of the source.  A handler is a function on the context of its request; it
  writes at most one reply.  A middleware is a function on handlers: \<open>c.Next()\<close> is the call
  of the rest of the chain, \<open>c.Abort()\<close> and a return are its omission.  The context holds the
  request, the two keys that the middleware \<open>Auth\<close> sets, the response headers, the reply, the
  deadline, and what metrics, log and trace record of the request.
  Routing (the choice of the chain by method and path) is gin's and not modelled; the
  parameters of the path arrive in \<open>rq_Param\<close>.

  A JSON body decodes into a struct field by field: names match without regard to (ASCII)
  case, unknown fields are ignored, \<open>null\<close> leaves a field alone, of a repeated field the
  last counts, a value of the wrong type is an error.
\<close>

section \<open>Requests and replies\<close>

record Request =
  rq_Method :: string
  rq_Path :: string
  rq_FullPath :: string
  rq_ClientIP :: string
  rq_Header :: "string \<Rightarrow> string"
  rq_Query :: "string \<Rightarrow> string option"
  rq_Param :: "string \<Rightarrow> string"
  rq_Body :: bytes

record Reply =
  rep_status :: int
  rep_body :: bytes

text \<open>What the process records of a request: the two metrics (labels method, route and status;
  method, route and the time taken), the line of the log, the span of the trace.\<close>

datatype LogLevel = LevelInfo | LevelWarn | LevelError

record LogLine =
  log_requestId :: string
  log_method :: string
  log_path :: string
  log_route :: string
  log_status :: int
  log_ip :: string
  log_duration :: duration
  log_userId :: "uint option"

record Span =
  span_Name :: string
  span_Method :: string
  span_Path :: string
  span_Status :: int
  span_Route :: string
  span_Error :: bool

datatype observation =
    RequestsTotal string string string
  | RequestDuration string string duration
  | LogRecord LogLevel LogLine
  | SpanEnd Span

record Ctx =
  cx_req :: Request
  cx_userID :: "uint option"
  cx_userRole :: "string option"
  cx_headers :: "(string \<times> string) list"
  cx_reply :: "Reply option"
  cx_deadline :: "time option"
  cx_seen :: "observation list"

type_synonym handler = "Ctx \<Rightarrow> Ctx io"
type_synonym middleware = "handler \<Rightarrow> handler"

definition new_ctx :: "Request \<Rightarrow> Ctx" where
  "new_ctx rq = \<lparr>cx_req = rq, cx_userID = None, cx_userRole = None, cx_headers = [], cx_reply = None,
     cx_deadline = None, cx_seen = []\<rparr>"

definition GetHeader :: "Ctx \<Rightarrow> string \<Rightarrow> string" where
  "GetHeader c k = rq_Header (cx_req c) k"

definition Query :: "Ctx \<Rightarrow> string \<Rightarrow> string" where
  "Query c k = (case rq_Query (cx_req c) k of None \<Rightarrow> [] | Some v \<Rightarrow> v)"

definition DefaultQuery :: "Ctx \<Rightarrow> string \<Rightarrow> string \<Rightarrow> string" where
  "DefaultQuery c k d = (case rq_Query (cx_req c) k of None \<Rightarrow> d | Some v \<Rightarrow> v)"

definition Param :: "Ctx \<Rightarrow> string \<Rightarrow> string" where
  "Param c k = rq_Param (cx_req c) k"

text \<open>\<open>c.Header(k, v)\<close>: an empty value removes the header.\<close>

definition set_header :: "string \<Rightarrow> string \<Rightarrow> Ctx \<Rightarrow> Ctx" where
  "set_header k v c =
     (let rest = filter (\<lambda>(k', _). k' \<noteq> k) (cx_headers c)
      in c\<lparr>cx_headers := (if v = [] then rest else rest @ [(k, v)])\<rparr>)"

definition get_header :: "string \<Rightarrow> Ctx \<Rightarrow> string option" where
  "get_header k c = map_of (cx_headers c) k"

lemma get_header_set [simp]:
  "v \<noteq> [] \<Longrightarrow> get_header k (set_header k v c) = Some v"
  "k' \<noteq> k \<Longrightarrow> get_header k' (set_header k v c) = get_header k' c"
proof -
  have filt: "map_of (filter (\<lambda>(k', _). k' \<noteq> k) xs) k' = (if k' = k then None else map_of xs k')"
    for xs :: "(string \<times> string) list" and k'
    by (induction xs) auto
  show "v \<noteq> [] \<Longrightarrow> get_header k (set_header k v c) = Some v"
    by (simp add: get_header_def set_header_def Let_def map_add_def filt)
  show "k' \<noteq> k \<Longrightarrow> get_header k' (set_header k v c) = get_header k' c"
    by (simp add: get_header_def set_header_def Let_def map_add_def filt split: option.split)
qed

section \<open>pkg/response/response.go\<close>

record Envelope =
  env_Success :: bool
  env_Message :: string
  env_ErrorCode :: string
  env_Data :: "goval option"
  env_Meta :: "goval option"
  env_Errors :: "goval option"

definition omit_empty :: "string \<Rightarrow> string \<Rightarrow> (string \<times> goval) list" where
  "omit_empty k v = (if v = [] then [] else [(k, GStr v)])"

definition omit_nil :: "string \<Rightarrow> goval option \<Rightarrow> (string \<times> goval) list" where
  "omit_nil k v = (case v of None \<Rightarrow> [] | Some x \<Rightarrow> [(k, x)])"

definition envelope_value :: "Envelope \<Rightarrow> goval" where
  "envelope_value e =
     GMap ([(''success'', GBool (env_Success e))] @ omit_empty ''message'' (env_Message e)
           @ omit_empty ''errorCode'' (env_ErrorCode e) @ omit_nil ''data'' (env_Data e)
           @ omit_nil ''meta'' (env_Meta e) @ omit_nil ''errors'' (env_Errors e))"

definition marshal_envelope :: "Envelope \<Rightarrow> go_error + json" where
  "marshal_envelope e = marshal (envelope_value e)"

record PageMeta =
  pm_Limit :: int
  pm_NextCursor :: uint
  pm_HasMore :: bool

definition page_meta_value :: "PageMeta \<Rightarrow> goval" where
  "page_meta_value m =
     GMap ([(''limit'', GInt (pm_Limit m))]
           @ (if pm_NextCursor m = 0 then [] else [(''nextCursor'', GUint (pm_NextCursor m))])
           @ [(''hasMore'', GBool (pm_HasMore m))])"

text \<open>\<open>c.JSON\<close>: a value that does not marshal leaves an empty body.\<close>

definition c_JSON :: "int \<Rightarrow> Envelope \<Rightarrow> Ctx \<Rightarrow> Ctx" where
  "c_JSON status e c =
     c\<lparr>cx_reply := Some \<lparr>rep_status = status,
        rep_body = (case marshal_envelope e of Inl _ \<Rightarrow> Inr [] | Inr j \<Rightarrow> Inl j)\<rparr>\<rparr>"

definition c_Data :: "int \<Rightarrow> bytes \<Rightarrow> Ctx \<Rightarrow> Ctx" where
  "c_Data status body c = c\<lparr>cx_reply := Some \<lparr>rep_status = status, rep_body = body\<rparr>\<rparr>"

definition Success :: "int \<Rightarrow> string \<Rightarrow> goval option \<Rightarrow> Ctx \<Rightarrow> Ctx" where
  "Success status message data =
     c_JSON status \<lparr>env_Success = True, env_Message = message, env_ErrorCode = [], env_Data = data,
       env_Meta = None, env_Errors = None\<rparr>"

definition SuccessWithMeta :: "int \<Rightarrow> string \<Rightarrow> goval option \<Rightarrow> goval option \<Rightarrow> Ctx \<Rightarrow> Ctx" where
  "SuccessWithMeta status message data meta =
     c_JSON status \<lparr>env_Success = True, env_Message = message, env_ErrorCode = [], env_Data = data,
       env_Meta = meta, env_Errors = None\<rparr>"

definition Fail :: "int \<Rightarrow> string \<Rightarrow> Ctx \<Rightarrow> Ctx" where
  "Fail status message =
     c_JSON status \<lparr>env_Success = False, env_Message = message, env_ErrorCode = [], env_Data = None,
       env_Meta = None, env_Errors = None\<rparr>"

definition FailCode :: "int \<Rightarrow> string \<Rightarrow> string \<Rightarrow> Ctx \<Rightarrow> Ctx" where
  "FailCode status message code =
     c_JSON status \<lparr>env_Success = False, env_Message = message, env_ErrorCode = code, env_Data = None,
       env_Meta = None, env_Errors = None\<rparr>"

definition FailWithErrors :: "int \<Rightarrow> string \<Rightarrow> goval option \<Rightarrow> Ctx \<Rightarrow> Ctx" where
  "FailWithErrors status message errors =
     c_JSON status \<lparr>env_Success = False, env_Message = message, env_ErrorCode = [], env_Data = None,
       env_Meta = None, env_Errors = errors\<rparr>"

definition OK :: "string \<Rightarrow> goval option \<Rightarrow> Ctx \<Rightarrow> Ctx" where
  "OK message data = Success 200 message data"

definition OKWithMeta :: "string \<Rightarrow> goval option \<Rightarrow> goval option \<Rightarrow> Ctx \<Rightarrow> Ctx" where
  "OKWithMeta message data meta = SuccessWithMeta 200 message data meta"

definition Created :: "string \<Rightarrow> goval option \<Rightarrow> Ctx \<Rightarrow> Ctx" where
  "Created message data = Success 201 message data"

lemmas response_defs = Success_def SuccessWithMeta_def Fail_def FailCode_def FailWithErrors_def
  OK_def OKWithMeta_def Created_def

definition status_of :: "Ctx \<Rightarrow> int option" where
  "status_of c = map_option rep_status (cx_reply c)"

lemma status_of_response [simp]:
  "status_of (c_JSON st e c) = Some st" "status_of (c_Data st b c) = Some st"
  "status_of (Success st m d c) = Some st" "status_of (SuccessWithMeta st m d me c) = Some st"
  "status_of (Fail st m c) = Some st" "status_of (FailCode st m code c) = Some st"
  "status_of (OK m d c) = Some 200" "status_of (OKWithMeta m d me c) = Some 200"
  "status_of (Created m d c) = Some 201"
  by (simp_all add: status_of_def c_JSON_def c_Data_def response_defs)

lemma reply_keeps_request [simp]:
  "cx_req (c_JSON st e c) = cx_req c" "cx_userID (c_JSON st e c) = cx_userID c"
  "cx_userRole (c_JSON st e c) = cx_userRole c" "cx_headers (c_JSON st e c) = cx_headers c"
  by (simp_all add: c_JSON_def)

section \<open>Decoding a request body (encoding/json)\<close>

definition body_fields :: "bytes \<Rightarrow> (string \<times> json) list option" where
  "body_fields b = (case b of Inl (JObj kjs) \<Rightarrow> Some kjs | Inl JNull \<Rightarrow> Some [] | _ \<Rightarrow> None)"

definition occurrences :: "string \<Rightarrow> (string \<times> json) list \<Rightarrow> json list" where
  "occurrences name kjs = map snd (filter (\<lambda>(k, _). ToLower k = ToLower name) kjs)"

fun decode_last :: "(json \<Rightarrow> 'a option) \<Rightarrow> 'a \<Rightarrow> json list \<Rightarrow> 'a option" where
  "decode_last dec v [] = Some v"
| "decode_last dec v (j # js) =
     (if j = JNull then decode_last dec v js
      else case dec j of None \<Rightarrow> None | Some w \<Rightarrow> decode_last dec w js)"

text \<open>A pointer (or slice) field: \<open>null\<close> sets it to \<open>nil\<close>.\<close>

fun decode_ptr :: "(json \<Rightarrow> 'a option) \<Rightarrow> 'a option \<Rightarrow> json list \<Rightarrow> 'a option option" where
  "decode_ptr dec v [] = Some v"
| "decode_ptr dec v (j # js) =
     (if j = JNull then decode_ptr dec None js
      else case dec j of None \<Rightarrow> None | Some w \<Rightarrow> decode_ptr dec (Some w) js)"

definition dec_string :: "json \<Rightarrow> string option" where
  "dec_string j = (case j of JStr t \<Rightarrow> Some t | JTime t \<Rightarrow> Some (format_rfc3339 t) | _ \<Rightarrow> None)"

definition dec_uint :: "json \<Rightarrow> uint option" where
  "dec_uint j = (case j of JInt i \<Rightarrow> if 0 \<le> i \<and> i < 2 ^ 64 then Some (of_int i) else None | _ \<Rightarrow> None)"

definition dec_int :: "json \<Rightarrow> int option" where
  "dec_int j = (case j of JInt i \<Rightarrow> if - (2 ^ 63) \<le> i \<and> i < 2 ^ 63 then Some i else None | _ \<Rightarrow> None)"

definition dec_float :: "json \<Rightarrow> float64 option" where
  "dec_float j =
     (case j of
        JInt i \<Rightarrow> (case f64_of_int i of Fin m e \<Rightarrow> Some (Fin m e) | _ \<Rightarrow> None)
      | JFloat f \<Rightarrow> Some f
      | _ \<Rightarrow> None)"

definition field :: "(json \<Rightarrow> 'a option) \<Rightarrow> 'a \<Rightarrow> string \<Rightarrow> (string \<times> json) list \<Rightarrow> 'a option" where
  "field dec zero name kjs = decode_last dec zero (occurrences name kjs)"

definition ptr_field :: "(json \<Rightarrow> 'a option) \<Rightarrow> string \<Rightarrow> (string \<times> json) list \<Rightarrow> 'a option option" where
  "ptr_field dec name kjs = decode_ptr dec None (occurrences name kjs)"

fun decode_all :: "(json \<Rightarrow> 'a option) \<Rightarrow> json list \<Rightarrow> 'a list option" where
  "decode_all dec [] = Some []"
| "decode_all dec (j # js) =
     (case dec j of None \<Rightarrow> None
      | Some v \<Rightarrow> (case decode_all dec js of None \<Rightarrow> None | Some vs \<Rightarrow> Some (v # vs)))"

text \<open>\<open>ShouldBindJSON(dest)\<close> decodes; \<open>BindJSON\<close> (\<open>pkg/response/bind.go\<close>) also validates the
  struct tags.\<close>

definition ShouldBindJSON :: "((string \<times> json) list \<Rightarrow> 'a option) \<Rightarrow> Ctx \<Rightarrow> 'a option" where
  "ShouldBindJSON dec c =
     (case body_fields (rq_Body (cx_req c)) of None \<Rightarrow> None | Some kjs \<Rightarrow> dec kjs)"

definition BindJSON :: "((string \<times> json) list \<Rightarrow> 'a option) \<Rightarrow> ('a \<Rightarrow> bool) \<Rightarrow> Ctx \<Rightarrow> 'a option" where
  "BindJSON dec valid c =
     (case ShouldBindJSON dec c of
        None \<Rightarrow> None
      | Some dest \<Rightarrow> if valid dest then Some dest else None)"

section \<open>Path and query parameters\<close>

text \<open>\<open>parseID\<close> of the packages \<open>order\<close> and \<open>product\<close>.\<close>

definition parseID :: "string \<Rightarrow> go_error + uint" where
  "parseID raw =
     (case ParseUint raw of
        None \<Rightarrow> Inl (Sentinel ErrInvalid)
      | Some n \<Rightarrow> if n = 0 then Inl (Sentinel ErrInvalid) else Inr n)"

lemma parseID_show [simp]: "parseID (show_uint n) = (if n = 0 then Inl (Sentinel ErrInvalid) else Inr n)"
  by (simp add: parseID_def)

lemma parseID_nonzero: "parseID raw = Inr n \<Longrightarrow> n \<noteq> 0"
  by (auto simp: parseID_def split: option.splits if_splits)

text \<open>Optional \<open>omitempty\<close> members of a struct whose value is \<open>nil\<close> are left out; a nil
  pointer under a key of a map is \<open>null\<close>.\<close>

definition nullable :: "goval option \<Rightarrow> goval" where
  "nullable v = (case v of None \<Rightarrow> GNil | Some x \<Rightarrow> x)"

end
