(* ===== verification/Middleware.thy ===== *)
theory Middleware
  imports Http
begin

text \<open>
  \<open>internal/http/middleware\<close>: API key, bearer tokens, roles, rate limit, request id and
  security headers, each a function on handlers.

  Three libraries are not part of the source and are parameters.  The JWT library \<open>jwt_lib\<close>
  parses a token with a key function (the source's, which refuses every signing method but
  HMAC) at a time, and signs claims; \<open>jwt_ok\<close> states its documented behaviour: a token that
  was signed with the secret parses to its claims until it expires, and then fails with a
  text that says so.  The rate limiter answers for a key and a limit.  The CORS library says
  which headers it sets for a request and whether it answers the request itself.  A request
  that passes its deadline shows as the failure of an interaction, which the environment may
  bring about at any time.  The propagation of trace contexts is the tracing library's.
\<close>

section \<open>apikey.go\<close>

definition constantTimeEqual :: "string \<Rightarrow> string \<Rightarrow> bool" where
  "constantTimeEqual a b = (if length a \<noteq> length b then False else a = b)"

definition APIKey_mw :: "string \<Rightarrow> middleware" where
  "APIKey_mw expected next c =
     (if expected = [] then next c
      else
        let h = GetHeader c ''apikey'';
            key = (if h = [] then GetHeader c ''X-API-Key'' else h)
        in if \<not> constantTimeEqual key expected
           then ret (FailCode 401 (error_text (Sentinel ErrInvalidAPIKey))
                       (ErrorCode (Sentinel ErrInvalidAPIKey)) c)
           else next c)"

section \<open>auth.go\<close>

record Claims =
  cl_UserID :: uint
  cl_Role :: string
  cl_Type :: string
  cl_ID :: string
  cl_ExpiresAt :: time
  cl_IssuedAt :: time

datatype signing_method = HMAC | OtherMethod

record jwt_lib =
  jwt_parse :: "(signing_method \<Rightarrow> go_error + string) \<Rightarrow> time \<Rightarrow> string \<Rightarrow> go_error + Claims"
  jwt_sign :: "string \<Rightarrow> Claims \<Rightarrow> go_error + string"

definition token_expired :: string where "token_expired = ''token is expired''"

definition jwt_ok :: "jwt_lib \<Rightarrow> bool" where
  "jwt_ok L = (\<forall>kf secret cl tok t. kf HMAC = Inr secret \<longrightarrow> jwt_sign L secret cl = Inr tok \<longrightarrow>
     (if t < cl_ExpiresAt cl then jwt_parse L kf t tok = Inr cl
      else \<exists>e. jwt_parse L kf t tok = Inl e \<and> Contains (error_text e) token_expired))"

definition hmac_key :: "string \<Rightarrow> signing_method \<Rightarrow> go_error + string" where
  "hmac_key secret m = (case m of HMAC \<Rightarrow> Inr secret | OtherMethod \<Rightarrow> Inl (Sentinel ErrUnauthorized))"

definition parseToken :: "jwt_lib \<Rightarrow> string \<Rightarrow> time \<Rightarrow> string \<Rightarrow> go_error + Claims" where
  "parseToken L secret t tok =
     (case jwt_parse L (hmac_key secret) t tok of
        Inl e \<Rightarrow> Inl (Sentinel (if Contains (error_text e) token_expired then ErrTokenExpired
                               else ErrUnauthorized))
      | Inr claims \<Rightarrow> Inr claims)"

definition ParseAccessToken :: "jwt_lib \<Rightarrow> string \<Rightarrow> time \<Rightarrow> string \<Rightarrow> go_error + Claims" where
  "ParseAccessToken L secret t tok =
     (case parseToken L secret t tok of
        Inl e \<Rightarrow> Inl e
      | Inr claims \<Rightarrow>
          if cl_Type claims \<noteq> [] \<and> cl_Type claims \<noteq> ''access'' then Inl (Sentinel ErrUnauthorized)
          else Inr claims)"

definition unauthorized :: "go_error \<Rightarrow> Ctx \<Rightarrow> Ctx" where
  "unauthorized err = FailCode 401 (error_text err) (ErrorCode err)"

definition Auth :: "jwt_lib \<Rightarrow> string \<Rightarrow> middleware" where
  "Auth L secret next c =
     (let header = GetHeader c ''Authorization'' in
      if \<not> HasPrefix header ''Bearer '' then ret (unauthorized (Sentinel ErrUnauthorized) c)
      else
        bindE now (\<lambda>t.
        case ParseAccessToken L secret t (TrimPrefix header ''Bearer '') of
          Inl err \<Rightarrow> ret (unauthorized err c)
        | Inr claims \<Rightarrow> next (c\<lparr>cx_userID := Some (cl_UserID claims), cx_userRole := Some (cl_Role claims)\<rparr>)))"

section \<open>rbac.go\<close>

definition RequireRole :: "string list \<Rightarrow> middleware" where
  "RequireRole roles next c =
     (case cx_userRole c of
        None \<Rightarrow> ret (FailCode 401 (error_text (Sentinel ErrUnauthorized))
                       (ErrorCode (Sentinel ErrUnauthorized)) c)
      | Some role \<Rightarrow>
          if role \<notin> set roles
          then ret (FailCode 403 (error_text (Sentinel ErrForbidden)) (ErrorCode (Sentinel ErrForbidden)) c)
          else next c)"

section \<open>ratelimit.go\<close>

record Limit =
  lim_Rate :: int
  lim_Burst :: int
  lim_Period :: duration

record RateResult =
  rr_Limit :: Limit
  rr_Allowed :: int
  rr_Remaining :: int
  rr_RetryAfter :: duration
  rr_ResetAfter :: duration

type_synonym limiter = "string \<Rightarrow> Limit \<Rightarrow> RateResult io"

definition itoa :: "int \<Rightarrow> string" where
  "itoa v = show_int (if v < 0 then 0 else v)"

text \<open>\<open>int(d.Seconds())\<close>: towards zero.\<close>

definition whole_seconds :: "duration \<Rightarrow> int" where
  "whole_seconds d = (if d < 0 then - (- d div second) else d div second)"

definition RateLimit :: "limiter option \<Rightarrow> int \<Rightarrow> duration \<Rightarrow> middleware" where
  "RateLimit lim max_requests window next c =
     (case lim of
        None \<Rightarrow> next c
      | Some allow \<Rightarrow>
          bindE (attempt (allow (''rl:'' @ rq_ClientIP (cx_req c))
                   \<lparr>lim_Rate = max_requests, lim_Burst = max_requests, lim_Period = window\<rparr>)) (\<lambda>r.
          case r of
            Inl _ \<Rightarrow>
              if Contains (rq_FullPath (cx_req c)) ''/authentication/''
                 \<or> Contains (rq_Path (cx_req c)) ''/authentication/''
              then ret (FailCode 503 (error_text (Sentinel ErrUnavailable))
                          (ErrorCode (Sentinel ErrUnavailable)) c)
              else next c
          | Inr res \<Rightarrow>
              let c = set_header ''X-RateLimit-Reset'' (itoa (whole_seconds (rr_ResetAfter res)))
                       (set_header ''X-RateLimit-Remaining'' (itoa (rr_Remaining res))
                         (set_header ''X-RateLimit-Limit'' (itoa (lim_Rate (rr_Limit res))) c))
              in if rr_Allowed res = 0
                 then ret (FailCode 429 (error_text (Sentinel ErrRateLimited))
                        (ErrorCode (Sentinel ErrRateLimited))
                        (set_header ''Retry-After'' (itoa (whole_seconds (rr_RetryAfter res) + 1)) c))
                 else next c))"

section \<open>requestid.go and security.go\<close>

definition RequestID :: "middleware" where
  "RequestID next c =
     (let i = GetHeader c ''X-Request-ID'' in
      if i = [] then bindE new_uuid (\<lambda>u. next (set_header ''X-Request-ID'' u c))
      else next (set_header ''X-Request-ID'' i c))"

definition none_source :: string where
  "none_source = CHR 0x27 # ''none'' @ [CHR 0x27]"

definition security_headers :: "bool \<Rightarrow> (string \<times> string) list" where
  "security_headers enableHSTS =
     [(''X-Content-Type-Options'', ''nosniff''), (''X-Frame-Options'', ''DENY''),
      (''X-XSS-Protection'', ''0''), (''Referrer-Policy'', ''strict-origin-when-cross-origin''),
      (''Content-Security-Policy'', ''default-src '' @ none_source @ ''; frame-ancestors '' @ none_source),
      (''Cache-Control'', ''no-store''),
      (''Permissions-Policy'', ''camera=(), microphone=(), geolocation=()'')]
     @ (if enableHSTS then [(''Strict-Transport-Security'', ''max-age=31536000; includeSubDomains'')]
        else [])"

definition SecurityHeaders :: "bool \<Rightarrow> middleware" where
  "SecurityHeaders enableHSTS next c =
     next (foldl (\<lambda>c (k, v). set_header k v c) c (security_headers enableHSTS))"

section \<open>timeout.go, tracing.go, logger.go, metrics.go and CORS\<close>

text \<open>\<open>context.WithTimeout\<close>: the earlier deadline counts.\<close>

definition Timeout :: "duration \<Rightarrow> middleware" where
  "Timeout d next c =
     bindE now (\<lambda>t.
     next (c\<lparr>cx_deadline := Some (case cx_deadline c of None \<Rightarrow> t + d | Some u \<Rightarrow> min u (t + d))\<rparr>))"

text \<open>\<open>c.Writer.Status()\<close>: gin's writer starts with 200.\<close>

definition writer_status :: "Ctx \<Rightarrow> int" where
  "writer_status c = (case cx_reply c of None \<Rightarrow> 200 | Some r \<Rightarrow> rep_status r)"

definition observe :: "observation list \<Rightarrow> Ctx \<Rightarrow> Ctx" where
  "observe os c = c\<lparr>cx_seen := cx_seen c @ os\<rparr>"

definition route_label :: "Ctx \<Rightarrow> string" where
  "route_label c =
     (let route = rq_FullPath (cx_req c) in if route = [] then ''unmatched'' else route)"

definition Metrics :: middleware where
  "Metrics next c =
     bindE now (\<lambda>start.
     bindE (next c) (\<lambda>c.
     let route = route_label c;
         status = show_int (writer_status c)
     in bindE now (\<lambda>t.
        ret (observe [RequestsTotal (rq_Method (cx_req c)) route status,
                      RequestDuration (rq_Method (cx_req c)) route (t - start)] c))))"

definition log_level :: "int \<Rightarrow> LogLevel" where
  "log_level status =
     (if 500 \<le> status then LevelError else if 400 \<le> status then LevelWarn else LevelInfo)"

definition RequestLogger :: middleware where
  "RequestLogger next c =
     bindE now (\<lambda>start.
     bindE (next c) (\<lambda>c.
     bindE now (\<lambda>t.
     let attrs = \<lparr>log_requestId = (case get_header ''X-Request-ID'' c of None \<Rightarrow> [] | Some v \<Rightarrow> v),
           log_method = rq_Method (cx_req c), log_path = rq_Path (cx_req c), log_route = route_label c,
           log_status = writer_status c, log_ip = rq_ClientIP (cx_req c), log_duration = t - start,
           log_userId = cx_userID c\<rparr>
     in ret (observe [LogRecord (log_level (writer_status c)) attrs] c))))"

definition Tracing :: middleware where
  "Tracing next c =
     (let route = (if rq_FullPath (cx_req c) = [] then rq_Path (cx_req c) else rq_FullPath (cx_req c));
          meth = rq_Method (cx_req c);
          path = rq_Path (cx_req c)
      in bindE (next c) (\<lambda>c.
         ret (observe [SpanEnd \<lparr>span_Name = meth @ '' '' @ route, span_Method = meth, span_Path = path,
                span_Status = writer_status c, span_Route = route,
                span_Error = (500 \<le> writer_status c)\<rparr>] c)))"

text \<open>\<open>cors.New\<close>: the headers set, and the status if the library ends the request (a preflight,
  a foreign origin).\<close>

record CORSConfig =
  AllowOrigins :: "string list"
  AllowHeaders :: "string list"
  AllowMethods :: "string list"

type_synonym cors_lib = "CORSConfig \<Rightarrow> Request \<Rightarrow> (string \<times> string) list \<times> int option"

definition CORS_mw :: "cors_lib \<Rightarrow> CORSConfig \<Rightarrow> middleware" where
  "CORS_mw lib cfg next c =
     (case lib cfg (cx_req c) of (hs, abort) \<Rightarrow>
        let c = foldl (\<lambda>c (k, v). set_header k v c) c hs
        in (case abort of None \<Rightarrow> next c | Some status \<Rightarrow> ret (c_Data status (Inr []) c)))"

section \<open>Correctness\<close>

lemma constantTimeEqual_iff [simp]: "constantTimeEqual a b = (a = b)"
  by (auto simp: constantTimeEqual_def)

text \<open>Who passes \<open>Auth\<close>: a bearer token that parses as an access token; the identity that the
  handlers see is the one of its claims.\<close>

definition bearer :: "Ctx \<Rightarrow> string option" where
  "bearer c = (let h = GetHeader c ''Authorization'' in
     if HasPrefix h ''Bearer '' then Some (TrimPrefix h ''Bearer '') else None)"

definition authenticated :: "jwt_lib \<Rightarrow> string \<Rightarrow> time \<Rightarrow> Ctx \<Rightarrow> Claims option" where
  "authenticated L secret t c =
     (case bearer c of None \<Rightarrow> None
      | Some tok \<Rightarrow> (case ParseAccessToken L secret t tok of Inl _ \<Rightarrow> None | Inr cl \<Rightarrow> Some cl))"

lemma Auth_refuses:
  assumes "authenticated L secret (clock (env s) (tick s)) c = None"
  shows "\<exists>c' s'. Auth L secret next c s = (Inr c', s') \<and> status_of c' = Some 401
     \<and> s' \<in> {s, tock s}"
  using assms
  by (auto simp: Auth_def authenticated_def bearer_def Let_def ret_def bindE_def now_def unauthorized_def
      split: if_splits sum.splits)

lemma Auth_passes:
  assumes "authenticated L secret (clock (env s) (tick s)) c = Some cl"
  shows "Auth L secret next c s
     = next (c\<lparr>cx_userID := Some (cl_UserID cl), cx_userRole := Some (cl_Role cl)\<rparr>) (tock s)"
  using assms
  by (auto simp: Auth_def authenticated_def bearer_def Let_def ret_def bindE_def now_def
      split: if_splits sum.splits)

text \<open>A signed access token is accepted until it expires, any other type never.\<close>

lemma ParseAccessToken_signed:
  assumes "jwt_ok L" and "jwt_sign L secret cl = Inr tok"
  shows "ParseAccessToken L secret t tok =
     (if cl_ExpiresAt cl \<le> t then Inl (Sentinel ErrTokenExpired)
      else if cl_Type cl \<in> {[], ''access''} then Inr cl
      else Inl (Sentinel ErrUnauthorized))"
proof -
  have "hmac_key secret HMAC = Inr secret" by (simp add: hmac_key_def)
  with assms have "if t < cl_ExpiresAt cl then jwt_parse L (hmac_key secret) t tok = Inr cl
      else \<exists>e. jwt_parse L (hmac_key secret) t tok = Inl e \<and> Contains (error_text e) token_expired"
    unfolding jwt_ok_def by blast
  then show ?thesis
    by (auto simp: ParseAccessToken_def parseToken_def split: if_splits)
qed

lemma set_header_fields [simp]:
  "cx_req (set_header k v c) = cx_req c"
  "cx_userID (set_header k v c) = cx_userID c" "cx_userRole (set_header k v c) = cx_userRole c"
  "cx_deadline (set_header k v c) = cx_deadline c" "cx_reply (set_header k v c) = cx_reply c"
  "cx_seen (set_header k v c) = cx_seen c"
  by (simp_all add: set_header_def Let_def)

lemma fold_headers_fields [simp]:
  "cx_req (foldl (\<lambda>c (k, v). set_header k v c) c kvs) = cx_req c"
  "cx_userID (foldl (\<lambda>c (k, v). set_header k v c) c kvs) = cx_userID c"
  "cx_userRole (foldl (\<lambda>c (k, v). set_header k v c) c kvs) = cx_userRole c"
  "cx_deadline (foldl (\<lambda>c (k, v). set_header k v c) c kvs) = cx_deadline c"
  "cx_reply (foldl (\<lambda>c (k, v). set_header k v c) c kvs) = cx_reply c"
  "cx_seen (foldl (\<lambda>c (k, v). set_header k v c) c kvs) = cx_seen c"
  by (induction kvs arbitrary: c) auto

text \<open>The CORS library ends a request with 204 (a preflight) or 403 (an origin not allowed).\<close>

definition cors_ok :: "cors_lib \<Rightarrow> bool" where
  "cors_ok lib = (\<forall>cfg rq hs st. lib cfg rq = (hs, Some st) \<longrightarrow> st \<in> {204, 403})"

lemma get_header_fold:
  assumes "k \<in> fst ` set kvs" and "distinct (map fst kvs)" and "(k, v) \<in> set kvs" and "v \<noteq> []"
  shows "get_header k (foldl (\<lambda>c (k, v). set_header k v c) c kvs) = Some v"
proof -
  have other: "get_header k (foldl (\<lambda>c (k, v). set_header k v c) c kvs) = get_header k c"
    if "k \<notin> fst ` set kvs" for c kvs
    using that by (induction kvs arbitrary: c) (auto split: prod.splits)
  show ?thesis
    using assms
  proof (induction kvs arbitrary: c)
    case (Cons kv kvs)
    then show ?case by (cases "kv = (k, v)") (auto simp: other rev_image_eqI split: prod.splits)
  qed simp
qed

end
