(* ===== verification/Config.thy ===== *)
theory Config
  imports Domain
begin

text \<open>
  \<open>internal/config/config.go\<close>: the configuration, read from the environment.

  \<open>os.Getenv\<close> is a function from names to values (empty where unset).  The checks of the
  struct tags are those of the package \<open>validator\<close>, which is not part of the source: its
  string classes (\<open>numeric\<close>, \<open>url\<close>, \<open>hostname_port\<close>, and \<open>email\<close> for the request
  bodies) are the parameter \<open>validators\<close>; \<open>required\<close>, \<open>oneof\<close>, \<open>min\<close>, \<open>max\<close> and
  \<open>omitempty\<close> are written out.  A panic of \<open>Load\<close> is \<open>Inl\<close> of its message.
\<close>

section \<open>strconv.ParseBool and time.ParseDuration\<close>

definition ParseBool :: "string \<Rightarrow> bool option" where
  "ParseBool s =
     (if s \<in> {''1'', ''t'', ''T'', ''true'', ''TRUE'', ''True''} then Some True
      else if s \<in> {''0'', ''f'', ''F'', ''false'', ''FALSE'', ''False''} then Some False
      else None)"

definition unit_of :: "string \<Rightarrow> int option" where
  "unit_of u = map_of
     [(''ns'', 1), (''us'', 1000), (map char_of [0xC2, 0xB5, 0x73 :: nat], 1000),
      (map char_of [0xCE, 0xBC, 0x73 :: nat], 1000), (''ms'', 1000000), (''s'', second),
      (''m'', minute), (''h'', hour)] u"

definition is_unit_char :: "char \<Rightarrow> bool" where
  "is_unit_char c = (c \<noteq> CHR ''.'' \<and> \<not> is_digit c)"

text \<open>One number with an optional fraction and its unit; the fraction of the unit is cut to
  whole nanoseconds (Go computes it in \<open>float64\<close>, which may round the last one).\<close>

definition duration_part :: "string \<Rightarrow> (duration \<times> string) option" where
  "duration_part s =
     (let int_digits = takeWhile is_digit s;
          r1 = dropWhile is_digit s;
          frac = (if HasPrefix r1 ''.'' then takeWhile is_digit (tl r1) else []);
          r2 = (if HasPrefix r1 ''.'' then dropWhile is_digit (tl r1) else r1);
          u = takeWhile is_unit_char r2;
          r3 = dropWhile is_unit_char r2
      in if int_digits = [] \<and> frac = [] then None
         else case unit_of u of
                None \<Rightarrow> None
              | Some n \<Rightarrow> Some (int (digits_val int_digits) * n
                              + int (digits_val frac) * n div 10 ^ length frac, r3))"

fun duration_parts :: "nat \<Rightarrow> string \<Rightarrow> duration \<Rightarrow> duration option" where
  "duration_parts 0 s acc = None"
| "duration_parts (Suc n) s acc =
     (if s = [] then Some acc
      else case duration_part s of
             None \<Rightarrow> None
           | Some (d, rest) \<Rightarrow> if 2 ^ 63 \<le> acc + d then None else duration_parts n rest (acc + d))"

definition ParseDuration :: "string \<Rightarrow> duration option" where
  "ParseDuration s =
     (let neg = HasPrefix s ''-'';
          body = (if neg \<or> HasPrefix s ''+'' then tl s else s)
      in if body = ''0'' then Some 0
         else if body = [] then None
         else map_option (\<lambda>d. if neg then - d else d) (duration_parts (Suc (length body)) body 0))"

section \<open>Config\<close>

record Config =
  AppEnv :: string
  AppPort :: string
  APIKey :: string
  LogLevel :: string
  DBHost :: string
  DBPort :: string
  DBUser :: string
  DBPassword :: string
  DBName :: string
  DBSSLMode :: string
  RedisAddr :: string
  RedisPassword :: string
  RedisDB :: int
  KafkaBrokers :: "string list"
  KafkaTopicProducts :: string
  KafkaTopicDLQ :: string
  KafkaGroupWorker :: string
  KafkaGroupNotifier :: string
  MongoURI :: string
  MongoDB :: string
  TypesenseAddr :: string
  TypesenseAPIKey :: string
  OTELEnabled :: bool
  OTelEndpoint :: string
  JWTSecret :: string
  JWTAccessTTL :: duration
  JWTRefreshTTL :: duration
  BcryptCost :: int
  ProductCacheTTL :: duration
  RateLimitMax :: int
  RateLimitWindow :: duration
  RequestTimeout :: duration
  ShutdownTimeout :: duration
  CORSOrigins :: "string list"
  EnableHSTS :: bool
  OrderHoldTTL :: duration
  MetricsPort :: string

record validators =
  v_numeric :: "string \<Rightarrow> bool"
  v_url :: "string \<Rightarrow> bool"
  v_hostname_port :: "string \<Rightarrow> bool"
  v_email :: "string \<Rightarrow> bool"

type_synonym getenv = "string \<Rightarrow> string"

definition env_str :: "getenv \<Rightarrow> string \<Rightarrow> string \<Rightarrow> string" where
  "env_str get key fallback = (if get key \<noteq> [] then get key else fallback)"

definition envInt :: "getenv \<Rightarrow> string \<Rightarrow> int \<Rightarrow> int" where
  "envInt get key fallback =
     (if get key = [] then fallback
      else case Atoi (get key) of None \<Rightarrow> fallback | Some n \<Rightarrow> n)"

definition envBool :: "getenv \<Rightarrow> string \<Rightarrow> bool \<Rightarrow> bool" where
  "envBool get key fallback =
     (if get key = [] then fallback
      else case ParseBool (get key) of None \<Rightarrow> fallback | Some b \<Rightarrow> b)"

definition envDuration :: "getenv \<Rightarrow> string \<Rightarrow> duration \<Rightarrow> duration" where
  "envDuration get key fallback =
     (if get key = [] then fallback
      else case ParseDuration (get key) of None \<Rightarrow> fallback | Some d \<Rightarrow> d)"

definition envList :: "getenv \<Rightarrow> string \<Rightarrow> string \<Rightarrow> string list" where
  "envList get key fallback =
     (let v = (if get key = [] then fallback else get key)
      in filter (\<lambda>t. t \<noteq> []) (map TrimSpace (Split (CHR '','') v)))"

section \<open>Validation\<close>

definition oneof :: "string list \<Rightarrow> string \<Rightarrow> bool" where
  "oneof allowed v = (v \<in> set allowed)"

definition omitempty :: "(string \<Rightarrow> bool) \<Rightarrow> string \<Rightarrow> bool" where
  "omitempty p v = (v = [] \<or> p v)"

definition char_count :: "string \<Rightarrow> nat" where
  "char_count s = length (filter (\<lambda>c. \<not> (128 \<le> (of_char c :: int) \<and> (of_char c :: int) < 192)) s)"

definition Validate :: "validators \<Rightarrow> Config \<Rightarrow> bool" where
  "Validate v c =
     (AppEnv c \<noteq> [] \<and> oneof [''development'', ''test'', ''staging'', ''production''] (AppEnv c)
      \<and> AppPort c \<noteq> [] \<and> v_numeric v (AppPort c)
      \<and> APIKey c \<noteq> []
      \<and> omitempty (oneof [''debug'', ''info'', ''warn'', ''error'']) (LogLevel c)
      \<and> DBHost c \<noteq> [] \<and> DBPort c \<noteq> [] \<and> v_numeric v (DBPort c) \<and> DBUser c \<noteq> [] \<and> DBName c \<noteq> []
      \<and> omitempty (oneof [''disable'', ''require'', ''verify-ca'', ''verify-full'']) (DBSSLMode c)
      \<and> RedisAddr c \<noteq> [] \<and> 0 \<le> RedisDB c
      \<and> 1 \<le> length (KafkaBrokers c)
      \<and> KafkaTopicProducts c \<noteq> [] \<and> KafkaTopicDLQ c \<noteq> [] \<and> KafkaGroupWorker c \<noteq> []
      \<and> KafkaGroupNotifier c \<noteq> []
      \<and> MongoURI c \<noteq> [] \<and> MongoDB c \<noteq> []
      \<and> omitempty (v_url v) (TypesenseAddr c)
      \<and> omitempty (v_hostname_port v) (OTelEndpoint c)
      \<and> JWTSecret c \<noteq> [] \<and> 16 \<le> char_count (JWTSecret c)
      \<and> 4 \<le> BcryptCost c \<and> BcryptCost c \<le> 31
      \<and> 1 \<le> RateLimitMax c
      \<and> MetricsPort c \<noteq> [] \<and> v_numeric v (MetricsPort c))"

definition IsProduction :: "Config \<Rightarrow> bool" where
  "IsProduction c = (AppEnv c = ''production'')"

section \<open>Load\<close>

definition read_config :: "getenv \<Rightarrow> Config" where
  "read_config get =
     \<lparr>AppEnv = env_str get ''APP_ENV'' ''development'',
      AppPort = env_str get ''APP_PORT'' ''8080'',
      APIKey = env_str get ''API_KEY'' ''dev-api-key'',
      LogLevel = env_str get ''LOG_LEVEL'' ''info'',
      DBHost = env_str get ''DB_HOST'' ''localhost'',
      DBPort = env_str get ''DB_PORT'' ''5432'',
      DBUser = env_str get ''DB_USER'' ''postgres'',
      DBPassword = env_str get ''DB_PASSWORD'' ''postgres'',
      DBName = env_str get ''DB_NAME'' ''golang_be'',
      DBSSLMode = env_str get ''DB_SSLMODE'' ''disable'',
      RedisAddr = env_str get ''REDIS_ADDR'' ''localhost:6379'',
      RedisPassword = env_str get ''REDIS_PASSWORD'' [],
      RedisDB = envInt get ''REDIS_DB'' 0,
      KafkaBrokers = envList get ''KAFKA_BROKERS'' ''localhost:9092'',
      KafkaTopicProducts = env_str get ''KAFKA_TOPIC_PRODUCTS'' ''products.events'',
      KafkaTopicDLQ = env_str get ''KAFKA_TOPIC_DLQ'' ''products.events.dlq'',
      KafkaGroupWorker = env_str get ''KAFKA_GROUP_WORKER'' ''golang-be-worker'',
      KafkaGroupNotifier = env_str get ''KAFKA_GROUP_NOTIFIER'' ''golang-be-notifier'',
      MongoURI = env_str get ''MONGO_URI'' ''mongodb://localhost:27017'',
      MongoDB = env_str get ''MONGO_DB'' ''golang_be_audit'',
      TypesenseAddr = env_str get ''TYPESENSE_ADDR'' ''http://typesense:8108'',
      TypesenseAPIKey = env_str get ''TYPESENSE_API_KEY'' ''dev-typesense-key'',
      OTELEnabled = envBool get ''OTEL_ENABLED'' False,
      OTelEndpoint = env_str get ''OTEL_EXPORTER_OTLP_ENDPOINT'' ''localhost:4317'',
      JWTSecret = env_str get ''JWT_SECRET'' ''dev-secret-change-me'',
      JWTAccessTTL = envDuration get ''JWT_ACCESS_TTL'' (15 * minute),
      JWTRefreshTTL = envDuration get ''JWT_REFRESH_TTL'' (7 * 24 * hour),
      BcryptCost = envInt get ''BCRYPT_COST'' 10,
      ProductCacheTTL = envDuration get ''PRODUCT_CACHE_TTL'' (5 * minute),
      RateLimitMax = envInt get ''RATE_LIMIT_MAX'' 100,
      RateLimitWindow = envDuration get ''RATE_LIMIT_WINDOW'' minute,
      RequestTimeout = envDuration get ''REQUEST_TIMEOUT'' (10 * second),
      ShutdownTimeout = envDuration get ''SHUTDOWN_TIMEOUT'' (15 * second),
      CORSOrigins = envList get ''CORS_ORIGINS'' ''*'',
      EnableHSTS = envBool get ''ENABLE_HSTS'' False,
      OrderHoldTTL = envDuration get ''ORDER_HOLD_TTL'' (15 * minute),
      MetricsPort = env_str get ''METRICS_PORT'' ''2112''\<rparr>"

definition Load :: "validators \<Rightarrow> getenv \<Rightarrow> string + Config" where
  "Load v get =
     (let cfg = read_config get in
      if \<not> Validate v cfg then Inl ''invalid configuration''
      else if \<not> IsProduction cfg then Inr cfg
      else if APIKey cfg = [] \<or> APIKey cfg = ''dev-api-key'' \<or> APIKey cfg = ''change-me''
      then Inl ''invalid configuration: production requires a real API_KEY from env/secret''
      else if length (JWTSecret cfg) < 16 \<or> JWTSecret cfg = ''dev-secret-change-me''
      then Inl ''invalid configuration: production requires a real JWT_SECRET (min 16) from env/secret''
      else if ''*'' \<in> set (CORSOrigins cfg)
      then Inl (''invalid configuration: production forbids CORS_ORIGINS=* ''
                @ map char_of [0xE2, 0x80, 0x94 :: nat] @ '' set an explicit allowlist'')
      else Inr (if BcryptCost cfg < 12 then cfg\<lparr>BcryptCost := 12\<rparr> else cfg))"

definition PostgresDSN :: "Config \<Rightarrow> string" where
  "PostgresDSN c =
     ''host='' @ DBHost c @ '' user='' @ DBUser c @ '' password='' @ DBPassword c
     @ '' dbname='' @ DBName c @ '' port='' @ DBPort c @ '' sslmode='' @ DBSSLMode c
     @ '' TimeZone=Asia/Jakarta''"

section \<open>Correctness\<close>

text \<open>The fuel of \<open>duration_parts\<close> is enough: every part consumes at least one character.\<close>

lemma duration_part_shorter: "duration_part s = Some (d, rest) \<Longrightarrow> length rest < length s"
proof -
  assume a: "duration_part s = Some (d, rest)"
  define r1 where "r1 = dropWhile is_digit s"
  define r2 where "r2 = (if HasPrefix r1 ''.'' then dropWhile is_digit (tl r1) else r1)"
  have rest: "rest = dropWhile is_unit_char r2" and u: "unit_of (takeWhile is_unit_char r2) \<noteq> None"
    using a by (auto simp: duration_part_def Let_def r1_def r2_def split: if_splits option.splits)
  have "takeWhile is_unit_char r2 \<noteq> []" using u by (auto simp: unit_of_def)
  then have "length (dropWhile is_unit_char r2) < length r2"
    by (metis append_eq_conv_conj length_append length_greater_0_conv less_add_same_cancel2 takeWhile_dropWhile_id)
  moreover have "length r2 \<le> length s"
    using length_dropWhile_le [of is_digit s] length_dropWhile_le [of is_digit "tl r1"]
    by (auto simp: r2_def r1_def)
  ultimately show ?thesis using rest by simp
qed

lemma duration_parts_fuel:
  "length s < n \<Longrightarrow> length s < m \<Longrightarrow> duration_parts n s acc = duration_parts m s acc"
proof (induction n arbitrary: m s acc)
  case 0
  then show ?case by simp
next
  case (Suc n)
  then obtain m' where m: "m = Suc m'" by (cases m) auto
  show ?case
  proof (cases "duration_part s")
    case None
    then show ?thesis by (simp add: m)
  next
    case (Some a)
    obtain d rest where a: "a = (d, rest)" by fastforce
    with Some have "length rest < length s" using duration_part_shorter by blast
    with Suc have "duration_parts n rest acc' = duration_parts m' rest acc'" for acc'
      by (intro Suc.IH) (simp_all add: m)
    with Some a show ?thesis by (simp add: m)
  qed
qed

text \<open>The search engine is configured in every environment: an empty \<open>TYPESENSE_ADDR\<close> falls
  back to the default address.\<close>

lemma TypesenseAddr_set: "TypesenseAddr (read_config get) \<noteq> []"
  by (simp add: read_config_def env_str_def)

lemma Load_Inr:
  "Load v get = Inr cfg \<Longrightarrow>
     cfg = read_config get \<or> IsProduction cfg \<and> cfg = (read_config get)\<lparr>BcryptCost := 12\<rparr>"
  by (auto simp: Load_def Let_def IsProduction_def split: if_splits)

end
