(* ===== verification/Notify.thy ===== *)
theory Notify
  imports Dispatch Middleware Config
begin

text \<open>
  \<open>internal/http/notify\<close>: the fan-out of events to WebSocket clients (\<open>hub.go\<close>) and the
  guards of the endpoint (\<open>handler.go\<close>).

  A connection is a number; \<open>hub_sent\<close> records what was written to whom, and \<open>broken c\<close> says
  that writing to \<open>c\<close> fails.  Go iterates the set of clients in no fixed order; the model
  takes the order of their arrival.  The notifier reads its partition like the worker
  (\<open>Reader\<close>), with a consumer group of its own.
\<close>

section \<open>hub.go\<close>

record Hub =
  hub_clients :: "nat list"
  hub_sent :: "(nat \<times> json) list"

definition NewHub :: Hub where
  "NewHub = \<lparr>hub_clients = [], hub_sent = []\<rparr>"

definition Hub_Add :: "nat \<Rightarrow> Hub \<Rightarrow> Hub" where
  "Hub_Add conn h =
     (if conn \<in> set (hub_clients h) then h else h\<lparr>hub_clients := hub_clients h @ [conn]\<rparr>)"

definition Hub_Remove :: "nat \<Rightarrow> Hub \<Rightarrow> Hub" where
  "Hub_Remove conn h = h\<lparr>hub_clients := filter (\<lambda>c. c \<noteq> conn) (hub_clients h)\<rparr>"

definition Hub_Count :: "Hub \<Rightarrow> nat" where
  "Hub_Count h = length (hub_clients h)"

definition send_one :: "(nat \<Rightarrow> bool) \<Rightarrow> json \<Rightarrow> Hub \<Rightarrow> nat \<Rightarrow> Hub" where
  "send_one broken payload h conn =
     (if broken conn then Hub_Remove conn h else h\<lparr>hub_sent := hub_sent h @ [(conn, payload)]\<rparr>)"

definition Broadcast :: "(nat \<Rightarrow> bool) \<Rightarrow> Event \<Rightarrow> Hub \<Rightarrow> Hub" where
  "Broadcast broken event h =
     (case marshal_event event of
        Inl _ \<Rightarrow> h
      | Inr payload \<Rightarrow> foldl (send_one broken payload) h (hub_clients h))"

text \<open>One iteration of \<open>Run\<close>; \<open>broken\<close> at the time of the message.\<close>

definition notify_one :: "(nat \<Rightarrow> bool) \<Rightarrow> Reader \<times> Hub \<Rightarrow> (Reader \<times> Hub) io" where
  "notify_one broken rh =
     (case rh of (c, h) \<Rightarrow>
        bindE (attempt (fetch c)) (\<lambda>r.
        case r of
          Inl _ \<Rightarrow> ret (c\<lparr>backoff := next_backoff (backoff c)\<rparr>, h)
        | Inr msg \<Rightarrow>
            let c = c\<lparr>position := position c + 1, backoff := first_backoff\<rparr>;
                h = (if e_ID (msg_Event msg) = [] then h else Broadcast broken (msg_Event msg) h)
            in bindE (attempt commit_offset) (\<lambda>r.
               case r of
                 Inl _ \<Rightarrow> ret (c, h)
               | Inr _ \<Rightarrow> ret (c\<lparr>committed_offset := position c\<rparr>, h))))"

section \<open>handler.go\<close>

definition checkOrigin :: "Config \<Rightarrow> string \<Rightarrow> bool" where
  "checkOrigin cfg origin =
     (let origins = CORSOrigins cfg in
      if origins = [] \<or> origins = [''*''] then \<not> IsProduction cfg
      else if origin = [] then True
      else origin \<in> set origins)"

text \<open>\<open>is_upgrade\<close> is the WebSocket library's test of the upgrade headers.\<close>

definition notify_authenticate :: "(Request \<Rightarrow> bool) \<Rightarrow> jwt_lib \<Rightarrow> Config \<Rightarrow> middleware" where
  "notify_authenticate is_upgrade L cfg next c =
     (if \<not> is_upgrade (cx_req c) then ret (Fail 426 ''upgrade required'' c)
      else
        let q = TrimSpace (Query c ''apikey'');
            h = (if q = [] then GetHeader c ''apikey'' else q);
            key = (if h = [] then GetHeader c ''X-API-Key'' else h)
        in if APIKey cfg \<noteq> [] \<and> key \<noteq> APIKey cfg then ret (Fail 401 ''invalid api key'' c)
           else
             bindE now (\<lambda>t.
             case ParseAccessToken L (JWTSecret cfg) t (TrimSpace (Query c ''token'')) of
               Inl _ \<Rightarrow> ret (Fail 401 ''invalid token'' c)
             | Inr _ \<Rightarrow> next c))"

text \<open>\<open>products\<close>: the library upgrades the connection or answers the request itself.  On an
  upgraded connection the request is served until the client leaves: it joins the hub, then a
  loop reads and drops what the client sends, then it leaves the hub.  Gin's writer keeps the
  status 200 of a connection it has given away.\<close>

datatype upgrade_result = UpgradeRefused Reply | Upgraded

record ws_lib =
  ws_IsUpgrade :: "Request \<Rightarrow> bool"
  ws_Upgrade :: "(Request \<Rightarrow> bool) \<Rightarrow> Request \<Rightarrow> upgrade_result"

definition ws_products :: "ws_lib \<Rightarrow> Config \<Rightarrow> handler" where
  "ws_products ws cfg c =
     ret (case ws_Upgrade ws (\<lambda>r. checkOrigin cfg (rq_Header r ''Origin'')) (cx_req c) of
            UpgradeRefused reply \<Rightarrow> c\<lparr>cx_reply := Some reply\<rparr>
          | Upgraded \<Rightarrow> c_Data 200 (Inr []) c)"

definition ws_open :: "nat \<Rightarrow> Hub \<Rightarrow> Hub" where
  "ws_open conn h = Hub_Add conn h"

definition ws_close :: "nat \<Rightarrow> Hub \<Rightarrow> Hub" where
  "ws_close conn h = Hub_Remove conn h"

section \<open>Correctness\<close>

definition hub_ok :: "Hub \<Rightarrow> bool" where
  "hub_ok h = distinct (hub_clients h)"

lemma hub_ok_ops:
  "hub_ok NewHub" "hub_ok h \<Longrightarrow> hub_ok (Hub_Add conn h)" "hub_ok h \<Longrightarrow> hub_ok (Hub_Remove conn h)"
  by (auto simp: hub_ok_def NewHub_def Hub_Add_def Hub_Remove_def)

text \<open>A broadcast writes the event once to every working client, in their order, and drops
  the others.\<close>

lemma foldl_send:
  "foldl (send_one broken payload) h cs
   = h\<lparr>hub_clients := filter (\<lambda>c. \<not> (c \<in> set cs \<and> broken c)) (hub_clients h),
       hub_sent := hub_sent h @ map (\<lambda>c. (c, payload)) (filter (\<lambda>c. \<not> broken c) cs)\<rparr>"
proof (induction cs arbitrary: h)
  case (Cons c cs)
  show ?case
  proof (cases "broken c")
    case True
    have "filter (\<lambda>d. \<not> (d \<in> set cs \<and> broken d)) (filter (\<lambda>d. d \<noteq> c) (hub_clients h))
        = filter (\<lambda>d. \<not> (d \<in> set (c # cs) \<and> broken d)) (hub_clients h)"
      using True by (auto intro!: filter_cong)
    with True show ?thesis by (simp add: Cons.IH send_one_def [of _ _ h c] Hub_Remove_def)
  next
    case False
    then have "filter (\<lambda>d. \<not> (d \<in> set cs \<and> broken d)) (hub_clients h)
        = filter (\<lambda>d. \<not> (d \<in> set (c # cs) \<and> broken d)) (hub_clients h)"
      by (auto intro!: filter_cong)
    with False show ?thesis by (simp add: Cons.IH send_one_def [of _ _ h c])
  qed
qed simp

lemma Broadcast_effect:
  assumes "marshal_event event = Inr payload"
  shows "Broadcast broken event h
       = h\<lparr>hub_clients := filter (\<lambda>c. \<not> broken c) (hub_clients h),
           hub_sent := hub_sent h @ map (\<lambda>c. (c, payload)) (filter (\<lambda>c. \<not> broken c) (hub_clients h))\<rparr>"
proof -
  have "filter (\<lambda>c. \<not> (c \<in> set (hub_clients h) \<and> broken c)) (hub_clients h)
      = filter (\<lambda>c. \<not> broken c) (hub_clients h)"
    by (rule filter_cong) auto
  with assms show ?thesis by (simp add: Broadcast_def foldl_send)
qed

lemma hub_ok_Broadcast: "hub_ok h \<Longrightarrow> hub_ok (Broadcast broken event h)"
  by (auto simp: Broadcast_def foldl_send hub_ok_def split: sum.split)

end
