(* ===== verification/System.thy ===== *)
theory System
  imports Dispatch
begin

text \<open>
  The running system: the requests of the order API, the expiry of holds, the relay and the
  worker, interleaved in any order, with any fault of the database, the broker, MongoDB or
  Redis.  A step is the complete run of one operation; its effects on the database are one
  transaction (the operations that do more are split here into the steps the code makes).
  Messages are delivered from the topic any number of times and in any order.

  \<open>reach_inv\<close>: every reachable state satisfies \<open>shop_inv\<close>, nothing is marked published that
  was not published, every order event on the topic comes from the outbox, and no event is
  audited twice.
\<close>

section \<open>Database-only operations\<close>

text \<open>Functions built from SQL statements, the clock and UUIDs leave everything outside the
  database alone.\<close>

definition outside :: "sys \<Rightarrow> env \<times> wire list \<times> DeadLetter list \<times> AuditRecord list" where
  "outside s = (env s, topic_products s, topic_dlq s, mongo s)"

lemma outside_simps [simp]:
  "outside (tock s) = outside s" "outside (s\<lparr>db := d\<rparr>) = outside s" "outside (s\<lparr>seqs := q\<rparr>) = outside s"
  by (simp_all add: outside_def)

text \<open>What a statement or a transaction cannot reach: the outside, Redis and the job queue.\<close>

definition sql_side :: "sys \<Rightarrow> (env \<times> wire list \<times> DeadLetter list \<times> AuditRecord list)
    \<times> (string \<Rightarrow> (cval \<times> time option) option) \<times> job list" where
  "sql_side s = (outside s, redis s, jobs s)"

lemma sql_side_simps [simp]:
  "sql_side (tock s) = sql_side s" "sql_side (s\<lparr>db := d\<rparr>) = sql_side s" "sql_side (s\<lparr>seqs := q\<rparr>) = sql_side s"
  by (simp_all add: sql_side_def)

definition sql_only :: "'a io \<Rightarrow> bool" where
  "sql_only m = (\<forall>s. sql_side (snd (m s)) = sql_side s)"

named_theorems sql_only_intro \<open>rules for sql_only\<close>

lemma sql_onlyI: "(\<And>s. sql_side (snd (m s)) = sql_side s) \<Longrightarrow> sql_only m"
  by (simp add: sql_only_def)

lemma sql_only_run: "sql_only m \<Longrightarrow> m s = (r, s') \<Longrightarrow> outside s' = outside s"
  by (auto simp: sql_only_def sql_side_def dest: spec [of _ s])

lemma sql_only_redis: "sql_only m \<Longrightarrow> m s = (r, s') \<Longrightarrow> redis s' = redis s"
  by (auto simp: sql_only_def sql_side_def dest: spec [of _ s])

lemma sql_only_ret [sql_only_intro]: "sql_only (ret a)"
  by (rule sql_onlyI) (simp add: ret_def)

lemma sql_only_throw [sql_only_intro]: "sql_only (throw e)"
  by (rule sql_onlyI) (simp add: throw_def)

lemma sql_only_of_sum [sql_only_intro]: "sql_only (of_sum r)"
  by (rule sql_onlyI) (simp add: of_sum_def)

lemma sql_only_bindE [sql_only_intro]: "sql_only m \<Longrightarrow> (\<And>a. sql_only (f a)) \<Longrightarrow> sql_only (bindE m f)"
proof (rule sql_onlyI)
  fix s
  assume m: "sql_only m" and f: "\<And>a. sql_only (f a)"
  obtain r s1 where r: "m s = (r, s1)" by fastforce
  with m have "sql_side s1 = sql_side s" by (metis sql_only_def snd_conv)
  with r f show "sql_side (snd (bindE m f s)) = sql_side s"
    by (cases r) (simp_all add: bindE_def sql_only_def)
qed

lemma sql_only_if [sql_only_intro]: "sql_only m \<Longrightarrow> sql_only n \<Longrightarrow> sql_only (if b then m else n)"
  by simp

lemma sql_only_option [sql_only_intro]:
  "sql_only m \<Longrightarrow> (\<And>a. sql_only (f a)) \<Longrightarrow> sql_only (case x of None \<Rightarrow> m | Some a \<Rightarrow> f a)"
  by (cases x) simp_all

lemma sql_only_sum [sql_only_intro]:
  "(\<And>e. sql_only (f e)) \<Longrightarrow> (\<And>a. sql_only (g a)) \<Longrightarrow> sql_only (case x of Inl e \<Rightarrow> f e | Inr a \<Rightarrow> g a)"
  by (cases x) simp_all

lemma sql_only_prod [sql_only_intro]:
  "(\<And>a b. sql_only (f a b)) \<Longrightarrow> sql_only (case x of (a, b) \<Rightarrow> f a b)"
  by (cases x) simp

lemma sql_only_for_each [sql_only_intro]: "(\<And>x. sql_only (f x)) \<Longrightarrow> sql_only (for_each f xs)"
  by (induction xs) (auto intro: sql_only_intro)

lemma sql_only_sql [sql_only_intro]: "sql_only (sql f)"
  by (rule sql_onlyI) (simp add: interact_defs split: option.split sum.split prod.split)

lemma sql_only_query [sql_only_intro]: "sql_only (query f)"
  unfolding query_def by (rule sql_only_sql)

lemma sql_only_insert_row [sql_only_intro]: "sql_only (insert_row q mk refuse add)"
  by (rule sql_onlyI) (simp add: insert_row_def interact_def Let_def split: option.split)

lemma sql_only_now [sql_only_intro]: "sql_only now"
  by (rule sql_onlyI) (simp add: now_def)

lemma sql_only_new_uuid [sql_only_intro]: "sql_only new_uuid"
  by (rule sql_onlyI) (simp add: new_uuid_def)

lemma sql_only_transaction [sql_only_intro]: "sql_only m \<Longrightarrow> sql_only (transaction m)"
proof (rule sql_onlyI)
  fix s :: sys
  assume m: "sql_only m"
  obtain r s1 where r: "m (tock s) = (r, s1)" by fastforce
  with m have "sql_side s1 = sql_side s" by (metis sql_only_def snd_conv sql_side_simps(1))
  with r show "sql_side (snd (transaction m s)) = sql_side s"
    by (cases r) (simp_all add: transaction_def split: option.split)
qed

lemma sql_only_basic [sql_only_intro]:
  "sql_only (Append pid ref delta reason bal)" "sql_only (Enqueue ty i ev payload)"
  "sql_only (take_product pid)" "sql_only (hold_stock pid qty)" "sql_only (return_stock pid qty)"
  "sql_only (scan_stock pid)" "sql_only (first_order P)" "sql_only (save_order o')"
  "sql_only (find_payment oid key)" "sql_only (find_held oid)" "sql_only (set_reservation R st t)"
  "sql_only (Claim c e ty)" "sql_only (update_order oid st v t)" "sql_only (find_order oid)"
  unfolding Append_def Enqueue_def take_product_def hold_stock_def return_stock_def scan_stock_def
    first_order_def save_order_def find_payment_def find_held_def set_reservation_def Claim_def
    insert_inbox_def update_order_def find_order_def
  by (intro sql_only_intro)+

lemma sql_only_hold_lines [sql_only_intro]: "sql_only (hold_lines its ls tot)"
  by (induction its arbitrary: ls tot) (auto intro!: sql_only_intro)

lemma sql_only_release [sql_only_intro]: "sql_only (releaseReservations oid)" "sql_only (commitReservations oid)"
  unfolding releaseReservations_def release_one_def commitReservations_def by (intro sql_only_intro)+

lemma sql_only_releaseTX_rows [sql_only_intro]: "sql_only (releaseTX_rows oid t rows ids)"
  by (induction rows arbitrary: ids) (auto intro!: sql_only_intro)

lemma sql_only_operations:
  "sql_only (CreateOrder userID items)" "sql_only (Pay userID oid outcome key)"
  "sql_only (cancelLocked (first_order P))" "sql_only (Fulfill oid)"
  "sql_only (transaction (charge_tx event oid))" "sql_only (transaction (inventory_tx event oid))"
  unfolding CreateOrder_def CreateOrder_tx_def insert_line_def Pay_def Pay_tx_def pay_fail_def pay_ok_def
    new_payment_def cancelLocked_def cancelLocked_tx_def Fulfill_def Fulfill_tx_def Let_def charge_tx_def
    charge_fail_def charge_ok_def releaseHeld_eq commitHeld_eq inventory_tx_def commitTX_eq releaseTX_def
  by (intro sql_only_intro)+

section \<open>Invariants of the system\<close>

definition commerce_events :: "string list" where
  "commerce_events = EventOrderCreated # inventory_events"

text \<open>A message on the topic is that of an outbox row, or no order event.\<close>

definition topic_inv :: "sys \<Rightarrow> bool" where
  "topic_inv s = (\<forall>w\<in>set (topic_products s).
     (\<exists>row\<in>set (outbox_events (db s)). kafka.row_wire row = Some w)
     \<or> e_Type (msg_Event (Fetch w)) \<notin> set commerce_events)"

definition system_inv :: "sys \<Rightarrow> bool" where
  "system_inv s = (shop_inv (db s) \<and> kafka.relay_inv s \<and> topic_inv s \<and> audit_ok s)"

definition balanced :: "sys \<Rightarrow> sys \<Rightarrow> bool" where
  "balanced s s' = ((\<forall>base. supply_inv base (db s) \<longrightarrow> supply_inv base (db s')) \<and> evolves (db s) (db s'))"

lemma balanced_refl [simp]: "balanced s s"
  by (simp add: balanced_def)

lemma balanced_trans: "balanced a b \<Longrightarrow> balanced b c \<Longrightarrow> balanced a c"
  by (auto simp: balanced_def intro: evolves_trans)

lemma topic_inv_grown:
  assumes "topic_inv s" and "grown (db s) (db s')" and "topic_products s' = topic_products s"
  shows "topic_inv s'"
proof -
  have "set (outbox_events (db s)) \<subseteq> set (outbox_events (db s'))"
    using assms(2) by (auto simp: grown_def)
  with assms(1,3) show ?thesis unfolding topic_inv_def by (metis subsetD)
qed

lemma relay_inv_grown:
  assumes "kafka.relay_inv s" and "grown (db s) (db s')" and "topic_products s' = topic_products s"
  shows "kafka.relay_inv s'"
  using assms by (auto simp: kafka.relay_inv_def grown_def)

text \<open>A step that runs a sound transaction, and nothing else, keeps everything.\<close>

lemma kept_step:
  assumes "system_inv s" and "kept (db s) (db s')" and "outside s' = outside s"
  shows "system_inv s' \<and> balanced s s'"
  using assms keptD [OF assms(2)]
  by (auto simp: system_inv_def balanced_def outside_def audit_ok_def
      intro: topic_inv_grown relay_inv_grown)

lemma transaction_kept:
  assumes "shop_inv (db s)" and "db_wp body (\<lambda>_ d'. kept (db s) d') (db s)"
    and "transaction body s = (r, s')"
  shows "kept (db s) (db s')"
  using transaction_atomic [OF assms(3)] assms(1,2) by (auto simp: db_wp_def)

lemma sound_step:
  assumes "system_inv s" and "sound body" and "sql_only (transaction body)"
    and "transaction body s = (r, s')"
  shows "system_inv s' \<and> balanced s s'"
proof (rule kept_step [OF assms(1)])
  show "outside s' = outside s" using sql_only_run [OF assms(3,4)] .
  show "kept (db s) (db s')"
    using assms(1,2) by (intro transaction_kept [OF _ _ assms(4)]) (auto simp: system_inv_def sound_def)
qed

section \<open>Deliveries\<close>

lemma HandleOrderCreated_unfold:
  "HandleOrderCreated msg s =
     (case asUint (uint_conv (env s)) (lookup (e_Payload (msg_Event msg)) ''orderId'') of
        None \<Rightarrow> (Inl (wrap ErrInvalid ''order.created missing orderId''), s)
      | Some oid \<Rightarrow> if oid = 0 then (Inl (wrap ErrInvalid ''order.created missing orderId''), s)
                   else transaction (charge_tx (msg_Event msg) oid) s)"
  by (simp add: HandleOrderCreated_def bindE_def get_uint_conv_def throw_def split: option.split)

lemma Inventory_Handle_unfold:
  "e_Type (msg_Event msg) \<in> set inventory_events \<Longrightarrow> Inventory_Handle c msg s =
     (case asUint (uint_conv (env s)) (lookup (e_Payload (msg_Event msg)) ''orderId'') of
        None \<Rightarrow> (Inl (wrap ErrInvalid ''inventory event missing orderId''), s)
      | Some oid \<Rightarrow> if oid = 0 then (Inl (wrap ErrInvalid ''inventory event missing orderId''), s)
                   else bindE (transaction (inventory_tx (msg_Event msg) oid)) (bustProductCache c) s)"
  by (simp add: Inventory_Handle_def bindE_def get_uint_conv_def throw_def asUint_inv_eq
      split: option.split)

lemma bust_frame: "bustProductCache c ids s = (r, s') \<Longrightarrow> db s' = db s \<and> outside s' = outside s"
  by (auto simp: bustProductCache_def Let_def ret_def ignore_def redis_del_def interact_def outside_def
      split: if_splits option.splits)

definition small_ids :: "sys \<Rightarrow> bool" where
  "small_ids s = (\<forall>o'\<in>set (orders (db s)). unat (o_ID o') \<le> 2 ^ 53)"

text \<open>An inventory event on the topic speaks of an order that is not pending.\<close>

lemma delivered_closed:
  assumes inv: "system_inv s" and small: "small_ids s" and w: "w \<in> set (topic_products s)"
    and ty: "e_Type (msg_Event (Fetch w)) \<in> set inventory_events"
  obtains oid where "asUint conv (lookup (e_Payload (msg_Event (Fetch w))) ''orderId'') = Some oid"
    and "closed_order (db s) oid"
proof -
  from ty have "e_Type (msg_Event (Fetch w)) \<in> set commerce_events" by (simp add: commerce_events_def)
  with inv w obtain row where row: "row \<in> set (outbox_events (db s))" "kafka.row_wire row = Some w"
    by (auto simp: system_inv_def topic_inv_def)
  with inv obtain o' where o': "carries_order row" "o' \<in> set (orders (db s))"
    "o_ID o' = ev_AggregateID row" "event_fits (ev_EventType row) (o_Status o')"
    by (auto simp: system_inv_def shop_inv_def event_inv_def)
  have id: "unat (ev_AggregateID row) \<le> 2 ^ 53" using small o' by (auto simp: small_ids_def)
  note dec = decoded_row [OF o'(1) row(2) id]
  have "o_Status o' \<noteq> OrderPendingPayment"
    using ty o'(4) by (auto simp: dec(2) inventory_events_def event_fits_def is_paid_def)
  with o' have "closed_order (db s) (ev_AggregateID row)" by (auto simp: closed_order_def)
  with dec(3) show thesis by (rule that)
qed

lemma inventory_step:
  assumes inv: "system_inv s" and small: "small_ids s" and w: "w \<in> set (topic_products s)"
    and run: "Inventory_Handle c (Fetch w) s = (r, s')"
  shows "system_inv s' \<and> balanced s s' \<and> untouched (db s) (db s')"
proof (cases "e_Type (msg_Event (Fetch w)) \<in> set inventory_events")
  case False
  with run inv show ?thesis by (simp add: Inventory_Handle_def ret_def untouched_def)
next
  case True
  obtain oid where oid: "asUint (uint_conv (env s)) (lookup (e_Payload (msg_Event (Fetch w))) ''orderId'') = Some oid"
    and closed: "closed_order (db s) oid"
    using inv small w True by (rule delivered_closed)
  show ?thesis
  proof (cases "oid = 0")
    case True
    with run oid inv \<open>e_Type _ \<in> _\<close> show ?thesis
      by (simp add: Inventory_Handle_unfold untouched_def)
  next
    case False
    let ?tx = "transaction (inventory_tx (msg_Event (Fetch w)) oid)"
    obtain r1 s1 where tx: "?tx s = (r1, s1)" by fastforce
    have shop: "shop_inv (db s)" using inv by (simp add: system_inv_def)
    have "kept (db s) (db s1) \<and> untouched (db s) (db s1)"
      using transaction_atomic [OF tx] inventory_idle [OF shop closed, of "msg_Event (Fetch w)"] shop
      by (auto simp: db_wp_def untouched_def)
    moreover have "outside s1 = outside s"
      using sql_only_run [OF sql_only_operations(6) tx] .
    moreover have "db s' = db s1 \<and> outside s' = outside s1"
      using run oid False tx \<open>e_Type _ \<in> _\<close>
      by (auto simp: Inventory_Handle_unfold bindE_def split: sum.splits dest: bust_frame)
    ultimately show ?thesis using kept_step [OF inv, of s'] by simp
  qed
qed

lemma payment_step:
  assumes inv: "system_inv s" and run: "HandleOrderCreated msg s = (r, s')"
  shows "system_inv s' \<and> balanced s s'"
  using run inv sound_step [OF inv sound_charge sql_only_operations(5)]
  by (auto simp: HandleOrderCreated_unfold split: option.splits if_splits)

lemma audit_step:
  assumes inv: "system_inv s" and run: "Audit_Handle q msg s = (r, s')"
  shows "system_inv s' \<and> balanced s s'"
proof -
  have "audit_frame s s'"
    using Audit_Handle_rule [of q msg s] run by (cases r) (auto dest: wp_InlD wp_InrD)
  then show ?thesis
    using inv by (auto simp: audit_frame_def system_inv_def topic_inv_def kafka.relay_inv_def balanced_def)
qed

lemma deliver_step:
  assumes inv: "system_inv s" and small: "small_ids s" and w: "w \<in> set (topic_products s)"
    and run: "Dispatch_Handle p (Fetch w) s = (r, s')"
  shows "system_inv s' \<and> balanced s s'"
proof (cases "e_ID (msg_Event (Fetch w)) = []")
  case True
  with run audit_step [OF inv] show ?thesis by (simp add: Dispatch_Handle_def)
next
  case False
  obtain r1 s1 where route: "routeCommerce p (Fetch w) s = (r1, s1)" by fastforce
  have 1: "system_inv s1 \<and> balanced s s1"
    using route inv payment_step [OF inv, of "Fetch w"] inventory_step [OF inv small w, of "has_cache p"]
    by (auto simp: routeCommerce_def Let_def ret_def split: if_splits)
  from run route False have "s' = s1 \<or> Audit_Handle (has_dlq p) (Fetch w) s1 = (r, s')"
    by (auto simp: Dispatch_Handle_def bindE_def split: sum.splits)
  with 1 audit_step [of s1 "has_dlq p" "Fetch w"] show ?thesis
    by (auto intro: balanced_trans)
qed

lemma route_outside: "routeCommerce p msg s = (r, s') \<Longrightarrow> outside s' = outside s"
proof -
  assume run: "routeCommerce p msg s = (r, s')"
  have pay: "outside s1 = outside s" if "HandleOrderCreated msg s = (r1, s1)" for r1 s1
    using that by (auto simp: HandleOrderCreated_unfold split: option.splits if_splits
        dest: sql_only_run [OF sql_only_operations(5)])
  have inv: "outside s1 = outside s" if "Inventory_Handle c msg s = (r1, s1)" for c r1 s1
  proof (cases "e_Type (msg_Event msg) \<in> set inventory_events")
    case False
    with that show ?thesis by (simp add: Inventory_Handle_def ret_def)
  next
    case True
    with that show ?thesis
      by (auto simp: Inventory_Handle_unfold bindE_def split: option.splits if_splits prod.splits sum.splits
          dest: sql_only_run [OF sql_only_operations(6)] dest!: bust_frame)
  qed
  from run show ?thesis
    by (auto simp: routeCommerce_def Let_def ret_def split: if_splits dest: pay inv)
qed

lemma Dispatch_accounted:
  assumes run: "Dispatch_Handle p msg s = (Inr u, s')"
  shows "accounted msg s s'"
proof -
  obtain s1 where s1: "Audit_Handle (has_dlq p) msg s1 = (Inr u, s')" "topic_dlq s1 = topic_dlq s"
    using run route_outside [of p msg s]
    by (fastforce simp: Dispatch_Handle_def bindE_def outside_def split: if_splits prod.splits sum.splits)
  from wp_InrD [OF Audit_Handle_rule s1(1)] s1(2) show ?thesis
    by (auto simp: accounted_def dead_lettered_def)
qed

section \<open>The relay and the other publishers\<close>

lemma preserves_cases:
  "(x = None \<Longrightarrow> preserves I m) \<Longrightarrow> (\<And>a. x = Some a \<Longrightarrow> preserves I (f a))
   \<Longrightarrow> preserves I (case x of None \<Rightarrow> m | Some a \<Rightarrow> f a)"
  "(\<And>e. y = Inl e \<Longrightarrow> preserves I (h e)) \<Longrightarrow> (\<And>a. y = Inr a \<Longrightarrow> preserves I (g a))
   \<Longrightarrow> preserves I (case y of Inl e \<Rightarrow> h e | Inr a \<Rightarrow> g a)"
  "(b \<Longrightarrow> preserves I m1) \<Longrightarrow> (\<not> b \<Longrightarrow> preserves I m2) \<Longrightarrow> preserves I (if b then m1 else m2)"
  by (cases x; cases y; simp)+

lemma audit_preserved:
  "preserves audit_ok now" "preserves audit_ok (query f)" "preserves audit_ok (update_published i t)"
  "preserves audit_ok (WriteMessages m)"
  by (auto intro!: preservesI simp: wp_simps audit_ok_def wp_def [of "query _"] interact_defs
      update_published_def wp_def [of "interact _"] split: option.split)

lemmas preserves_intros =
  preserves_ret preserves_throw preserves_bindE preserves_attempt preserves_ignore preserves_cases
  audit_preserved

lemma audit_Publish: "preserves audit_ok (Publish k e)"
  unfolding Publish_def by (intro preserves_intros)

lemma audit_relay: "preserves audit_ok (RelayOnce Publish)"
proof -
  have "preserves audit_ok (relay_rows Publish rows n)" for rows n
  proof (induction rows arbitrary: n)
    case (Cons row rows)
    show ?case
      unfolding relay_rows.simps by (intro preserves_intros audit_Publish Cons.IH)
  qed (simp add: preserves_ret)
  then show ?thesis
    unfolding RelayOnce_def PendingCount_def by (intro preserves_intros)
qed

lemma relay_step:
  assumes inv: "system_inv s" and run: "RelayOnce Publish s = (r, s')"
  shows "system_inv s' \<and> balanced s s'"
proof -
  from inv have "outbox_ok (db s)" "kafka.relay_inv s"
    by (simp_all add: system_inv_def shop_inv_def schema_defs)
  from kafka.RelayOnce_inv [OF this(2,1)] kafka.RelayOnce_topic [of s] run
  have out: "kafka.relay_inv s'" "outbox_ok (db s')" "relayed (db s) (db s')"
    "kafka.from_rows (set (outbox_events (db s))) s s'"
    by (cases r; auto simp: wp_def)+
  have "shop_inv (db s') \<and> balanced s s'"
    using relayed_inv [of "db s" "db s'"] inv out by (auto simp: system_inv_def balanced_def)
  moreover have "topic_inv s'"
    unfolding topic_inv_def
  proof
    fix w
    assume "w \<in> set (topic_products s')"
    with out(4) inv have "(\<exists>row\<in>set (outbox_events (db s)). kafka.row_wire row = Some w)
        \<or> e_Type (msg_Event (Fetch w)) \<notin> set commerce_events"
      by (auto simp: kafka.from_rows_def system_inv_def topic_inv_def)
    moreover have "\<exists>row'\<in>set (outbox_events (db s')). kafka.row_wire row' = Some w"
      if "row \<in> set (outbox_events (db s))" "kafka.row_wire row = Some w" for row
    proof -
      from relayed_strip [OF out(3)] that(1) have "strip row \<in> strip ` set (outbox_events (db s'))"
        by (metis image_eqI list.set_map)
      then obtain row' where "row' \<in> set (outbox_events (db s'))" "strip row' = strip row" by auto
      with that(2) show ?thesis by (metis kafka.row_wire_strip)
    qed
    ultimately show "(\<exists>row\<in>set (outbox_events (db s')). kafka.row_wire row = Some w)
        \<or> e_Type (msg_Event (Fetch w)) \<notin> set commerce_events"
      by blast
  qed
  moreover have "audit_ok s'"
    using preservesD [OF audit_relay _ run] inv by (simp add: system_inv_def)
  ultimately show ?thesis using out(1) by (simp add: system_inv_def)
qed

lemma publish_step:
  assumes inv: "system_inv s" and ty: "e_Type e \<notin> set commerce_events" and run: "Publish k e s = (r, s')"
  shows "system_inv s' \<and> balanced s s'"
proof -
  have 1: "db s' = db s" "set (topic_products s) \<subseteq> set (topic_products s')"
    "\<forall>w\<in>set (topic_products s'). w \<in> set (topic_products s) \<or> event_wire k e = Some w"
    using Publish_frame [of k e s] run by (cases r; auto simp: wp_def)+
  have "e_Type (msg_Event (Fetch w)) = e_Type e" if "event_wire k e = Some w" for w
  proof -
    from that obtain body where "marshal_event e = Inr body" "w = (k, Inl body)"
      by (auto simp: event_wire_def split: sum.splits)
    then obtain pl where "msg_Event (Fetch w) = e\<lparr>e_Payload := pl\<rparr>"
      using Fetch_published by metis
    then show ?thesis by simp
  qed
  with 1 inv ty have "topic_inv s'" by (auto simp: system_inv_def topic_inv_def)
  moreover have "audit_ok s'"
    using preservesD [OF audit_Publish _ run] inv by (simp add: system_inv_def)
  moreover have "kafka.relay_inv s'"
    by (rule kafka.relay_inv_mono [OF _ 1(1,2)]) (use inv in \<open>simp add: system_inv_def\<close>)
  ultimately show ?thesis using inv 1 by (simp add: system_inv_def balanced_def)
qed

section \<open>Steps and reachability\<close>

text \<open>Writes to the tables that no invariant mentions (users, wishlists, idempotency keys).\<close>

definition unrelated :: "db \<Rightarrow> db \<Rightarrow> bool" where
  "unrelated d d' = (\<exists>us ws ks. d' = d\<lparr>users := us, wishlists := ws, idempotency_keys := ks\<rparr>)"

text \<open>Edits of the catalogue: rows are added or changed, never removed, ids stay distinct and
  no stock is set below zero.\<close>

definition catalogue :: "db \<Rightarrow> db \<Rightarrow> bool" where
  "catalogue d d' = (\<exists>ps. d' = d\<lparr>products := ps\<rparr> \<and> distinct (map p_ID ps)
     \<and> set (map p_ID (products d)) \<subseteq> set (map p_ID ps) \<and> (\<forall>p\<in>set ps. 0 \<le> p_Stock p))"

inductive trade :: "sys \<Rightarrow> sys \<Rightarrow> bool" where
  create: "CreateOrder userID items s = (r, s') \<Longrightarrow> trade s s'"
| pay: "Pay userID oid outcome key s = (r, s') \<Longrightarrow> trade s s'"
| cancel: "Cancel userID oid s = (r, s') \<Longrightarrow> trade s s'"
| expire: "CancelSystem oid s = (r, s') \<Longrightarrow> trade s s'"
| fulfil: "Fulfill oid s = (r, s') \<Longrightarrow> trade s s'"
| deliver: "w \<in> set (topic_products s) \<Longrightarrow> small_ids s \<Longrightarrow> Dispatch_Handle p (Fetch w) s = (r, s')
    \<Longrightarrow> trade s s'"
| relay: "RelayOnce Publish s = (r, s') \<Longrightarrow> trade s s'"
| announce: "e_Type e \<notin> set commerce_events \<Longrightarrow> Publish k e s = (r, s') \<Longrightarrow> trade s s'"
| elsewhere: "unrelated (db s) (db s') \<Longrightarrow> outside s' = outside s \<Longrightarrow> trade s s'"

inductive_cases tradeE: "trade s s'"

inductive shop_step :: "sys \<Rightarrow> sys \<Rightarrow> bool" where
  trading: "trade s s' \<Longrightarrow> shop_step s s'"
| editing: "catalogue (db s) (db s') \<Longrightarrow> outside s' = outside s \<Longrightarrow> shop_step s s'"

inductive_cases shop_stepE: "shop_step s s'"

inductive reachable :: "sys \<Rightarrow> sys \<Rightarrow> bool" for s0 where
  start: "reachable s0 s0"
| step: "reachable s0 s \<Longrightarrow> shop_step s s' \<Longrightarrow> reachable s0 s'"

inductive trades :: "sys \<Rightarrow> sys \<Rightarrow> bool" for s0 where
  none: "trades s0 s0"
| more: "trades s0 s \<Longrightarrow> trade s s' \<Longrightarrow> trades s0 s'"

lemma trade_inv: "trade s s' \<Longrightarrow> system_inv s \<Longrightarrow> system_inv s' \<and> balanced s s'"
proof (induction rule: trade.induct)
  case (create userID items s r s')
  then show ?case
    using sound_step [OF _ sound_CreateOrder] sql_only_operations(1) by (simp add: CreateOrder_def)
next
  case (pay userID oid outcome key s r s')
  then show ?case
    using sound_step [OF _ sound_Pay] sql_only_operations(2) by (simp add: Pay_def)
next
  case (cancel userID oid s r s')
  then show ?case
    using sound_step [OF _ sound_cancelLocked] sql_only_operations(3)
    by (simp add: Cancel_def cancelLocked_def)
next
  case (expire oid s r s')
  then show ?case
    using sound_step [OF _ sound_cancelLocked] sql_only_operations(3)
    by (simp add: CancelSystem_def cancelLocked_def)
next
  case (fulfil oid s r s')
  then show ?case
    using sound_step [OF _ sound_Fulfill] sql_only_operations(4) by (simp add: Fulfill_def)
next
  case (elsewhere s s')
  then obtain us ws ks where "db s' = (db s)\<lparr>users := us, wishlists := ws, idempotency_keys := ks\<rparr>"
    by (auto simp: unrelated_def)
  then have "kept (db s) (db s')"
    using elsewhere(3) by (simp add: kept_def system_inv_def shop_inv_def schema_defs outbox_ok_def
        inbox_ok_def stock_inv_def supply_inv_def stock_of_def)
  with elsewhere show ?case by (intro kept_step)
qed (auto dest: deliver_step relay_step publish_step)

lemma catalogue_inv:
  assumes "system_inv s" and "catalogue (db s) (db s')" and "outside s' = outside s"
  shows "system_inv s'"
proof -
  from assms(2) obtain ps where ps: "db s' = (db s)\<lparr>products := ps\<rparr>" "distinct (map p_ID ps)"
    "set (map p_ID (products (db s))) \<subseteq> set (map p_ID ps)" "\<forall>p\<in>set ps. 0 \<le> p_Stock p"
    by (auto simp: catalogue_def)
  have "shop_inv (db s')"
    using assms(1) ps
    by (auto simp: system_inv_def shop_inv_def schema_defs stock_inv_def table_simps simp del: set_map
        dest: subset_trans)
  with assms(1,3) ps(1) show ?thesis
    by (simp add: system_inv_def outside_def topic_inv_def kafka.relay_inv_def audit_ok_def)
qed

lemma step_inv: "shop_step s s' \<Longrightarrow> system_inv s \<Longrightarrow> system_inv s'"
  by (erule shop_stepE) (auto dest: trade_inv catalogue_inv)

lemma reachable_inv: "reachable s0 s \<Longrightarrow> system_inv s0 \<Longrightarrow> system_inv s"
  by (induction rule: reachable.induct) (auto dest: step_inv)

lemma trades_inv: "trades s0 s \<Longrightarrow> system_inv s0 \<Longrightarrow> system_inv s \<and> balanced s0 s"
  by (induction rule: trades.induct) (auto dest: trade_inv intro: balanced_trans)

lemma trades_supply:
  assumes "trades s0 s" and "system_inv s0"
  shows "stock_of pid (db s) + taken pid (reservations (db s))
       = stock_of pid (db s0) + taken pid (reservations (db s0))"
proof -
  let ?base = "\<lambda>pid. stock_of pid (db s0) - ledger_sum pid (stock_ledger (db s0))"
  have "supply_inv ?base (db s0)" by (simp add: supply_inv_def)
  with trades_inv [OF assms] have "supply_inv ?base (db s)" and inv: "system_inv s"
    by (auto simp: balanced_def)
  with assms(2) show ?thesis
    by (auto simp: supply_inv_def system_inv_def shop_inv_def reserve_inv_def)
qed

end
