(* ===== verification/Product_Service.thy ===== *)
theory Product_Service
  imports Kafka Redis Http Config
begin

text \<open>
  \<open>internal/http/product\<close>: \<open>repository.go\<close> and \<open>service.go\<close>.

  The optional dependencies of the service are the flags of \<open>Deps\<close> (a nil cache, publisher
  or search engine).  A cached product or page is the value itself (\<open>CProduct\<close>, \<open>CList\<close>): its
  JSON text is only written if the value marshals.  The goroutines that publish and index
  are queued in \<open>jobs\<close> and run later by \<open>run_job\<close>, in any order.  The search engine (the
  Typesense client) is the parameter \<open>engine\<close>; its result may be a nil slice (\<open>None\<close>).
\<close>

section \<open>repository.go\<close>

definition product_refuse :: "ProductModel \<Rightarrow> db \<Rightarrow> string option" where
  "product_refuse r d = first_violation
     [check (p_ID r \<notin> set (map p_ID (products d))) duplicate_key,
      check (is_int4 (p_Stock r)) out_of_range,
      check (char_length (p_Name r) \<le> 180) value_too_long,
      check (p_UserID r \<in> set (map u_ID (users d))) foreign_key]"

definition add_product :: "ProductModel \<Rightarrow> db \<Rightarrow> db" where
  "add_product r d = d\<lparr>products := products d @ [r]\<rparr>"

definition live_product :: "ProductModel \<Rightarrow> bool" where
  "live_product r = (p_DeletedAt r = None)"

definition Product_Create :: "(uint \<Rightarrow> time \<Rightarrow> ProductModel) \<Rightarrow> ProductModel io" where
  "Product_Create mk =
     bindE now (\<lambda>t. insert_row SeqProducts (\<lambda>i. mk i t) product_refuse add_product)"

definition Product_FindByID :: "uint \<Rightarrow> ProductModel io" where
  "Product_FindByID i =
     bindE (query (\<lambda>d. List.find (\<lambda>r. p_ID r = i \<and> live_product r) (products d))) (\<lambda>r.
     case r of None \<Rightarrow> throw (Sentinel ErrNotFound) | Some p \<Rightarrow> ret p)"

text \<open>Newest first, below the cursor, at most \<open>limit\<close> rows.\<close>

definition newest_first :: "ProductModel list \<Rightarrow> ProductModel list" where
  "newest_first rows = rev (sort_key (\<lambda>r. unat (p_ID r)) rows)"

definition below :: "uint \<Rightarrow> ProductModel \<Rightarrow> bool" where
  "below cursor r = (0 < cursor \<longrightarrow> p_ID r < cursor)"

definition ListByUserCursor :: "uint \<Rightarrow> uint \<Rightarrow> int \<Rightarrow> ProductModel list io" where
  "ListByUserCursor userID cursor limit =
     query (\<lambda>d. take (nat limit) (newest_first
       (filter (\<lambda>r. p_UserID r = userID \<and> below cursor r \<and> live_product r) (products d))))"

definition ListCatalogCursor :: "uint \<Rightarrow> int \<Rightarrow> ProductModel list io" where
  "ListCatalogCursor cursor limit =
     query (\<lambda>d. take (nat limit) (newest_first
       (filter (\<lambda>r. below cursor r \<and> live_product r) (products d))))"

text \<open>\<open>Save\<close>: an update of every column of the live row with this id; where there is none,
  GORM inserts the row, overwriting one with the same id.\<close>

definition save_rows :: "ProductModel \<Rightarrow> ProductModel list \<Rightarrow> ProductModel list" where
  "save_rows p rows =
     (if p_ID p \<in> set (map p_ID rows) then update_where (\<lambda>r. p_ID r = p_ID p) (\<lambda>_. p) rows
      else rows @ [p])"

definition Product_Update :: "ProductModel \<Rightarrow> ProductModel io" where
  "Product_Update model =
     bindE now (\<lambda>t.
     let p = model\<lparr>p_UpdatedAt := t\<rparr> in
     bindE (sql (\<lambda>_ d.
       if \<not> is_int4 (p_Stock p) then Inl out_of_range
       else if 180 < char_length (p_Name p) then Inl value_too_long
       else if p_UserID p \<notin> set (map u_ID (users d)) then Inl foreign_key
       else Inr ((), d\<lparr>products := save_rows p (products d)\<rparr>))) (\<lambda>_.
     ret p))"

definition Product_Delete :: "uint \<Rightarrow> unit io" where
  "Product_Delete i =
     bindE now (\<lambda>t.
     bindE (sql (\<lambda>_ d.
       let sel = (\<lambda>r. p_ID r = i \<and> live_product r) in
       Inr (length (filter sel (products d)),
            d\<lparr>products := update_where sel (\<lambda>r. r\<lparr>p_DeletedAt := Some t\<rparr>) (products d)\<rparr>))) (\<lambda>n.
     if n = 0 then throw (Sentinel ErrNotFound) else ret ()))"

section \<open>The service: dependencies and background jobs\<close>

record Deps =
  has_redis :: bool
  has_publisher :: bool
  has_search :: bool
  cache_ttl :: duration

record ProductDocument =
  pd_ID :: string
  pd_UserID :: uint
  pd_Name :: string
  pd_Description :: string
  pd_Price :: float64

record SearchEngine =
  IndexProduct :: "Product \<Rightarrow> unit io"
  DeleteProduct :: "uint \<Rightarrow> unit io"
  engine_Search :: "string \<Rightarrow> int \<Rightarrow> ProductDocument list option io"

definition spawn :: "job \<Rightarrow> unit io" where
  "spawn j s = (Inr (), s\<lparr>jobs := jobs s @ [j]\<rparr>)"

definition publishAsync :: "Deps \<Rightarrow> string \<Rightarrow> Product \<Rightarrow> unit io" where
  "publishAsync deps eventType p =
     (if has_publisher deps then spawn (PublishJob eventType p) else ret ())"

definition indexAsync :: "Deps \<Rightarrow> Product \<Rightarrow> unit io" where
  "indexAsync deps p = (if has_search deps then spawn (IndexJob p) else ret ())"

definition deleteIndexAsync :: "Deps \<Rightarrow> uint \<Rightarrow> unit io" where
  "deleteIndexAsync deps i = (if has_search deps then spawn (DeleteIndexJob i) else ret ())"

definition product_event_payload :: "Product \<Rightarrow> (string \<times> goval) list" where
  "product_event_payload p =
     [(''id'', GUint (pr_ID p)), (''userId'', GUint (pr_UserID p)), (''name'', GStr (pr_Name p)),
      (''price'', GFloat (pr_Price p)), (''stock'', GInt (pr_Stock p))]"

text \<open>The body of the goroutine of a job; its errors are only logged.\<close>

fun run_job :: "SearchEngine \<Rightarrow> job \<Rightarrow> unit io" where
  "run_job engine (PublishJob eventType p) =
     bindE (NewEvent eventType (product_event_payload p)) (\<lambda>evt.
     ignore (Publish (show_uint (pr_ID p)) evt))"
| "run_job engine (IndexJob p) = ignore (IndexProduct engine p)"
| "run_job engine (DeleteIndexJob i) = ignore (DeleteProduct engine i)"

section \<open>Cache\<close>

definition productCacheKey :: "uint \<Rightarrow> string" where
  "productCacheKey i = ''product:'' @ show_uint i"

definition listCacheKey :: "uint \<Rightarrow> string" where
  "listCacheKey userID = ''products:user:'' @ show_uint userID"

definition product_value :: "Product \<Rightarrow> goval" where
  "product_value p =
     GMap [(''id'', GUint (pr_ID p)), (''userId'', GUint (pr_UserID p)), (''name'', GStr (pr_Name p)),
           (''description'', GStr (pr_Description p)), (''price'', GFloat (pr_Price p)),
           (''stock'', GInt (pr_Stock p)), (''createdAt'', GTime (pr_CreatedAt p)),
           (''updatedAt'', GTime (pr_UpdatedAt p))]"

definition list_value :: "ListResult \<Rightarrow> goval" where
  "list_value r =
     GMap ([(''items'', GSlice (map product_value (lr_Items r)))]
           @ (if lr_NextCursor r = 0 then [] else [(''nextCursor'', GUint (lr_NextCursor r))])
           @ [(''hasMore'', GBool (lr_HasMore r))])"

definition bad_json :: go_error where "bad_json = Other ''json: cannot unmarshal''"

definition getCache :: "Deps \<Rightarrow> uint \<Rightarrow> Product io" where
  "getCache deps i =
     (if \<not> has_redis deps then throw redis_nil
      else bindE (redis_get (productCacheKey i)) (\<lambda>raw.
           case raw of CProduct p \<Rightarrow> ret p | _ \<Rightarrow> throw bad_json))"

definition setCache :: "Deps \<Rightarrow> Product \<Rightarrow> unit io" where
  "setCache deps p =
     (if \<not> has_redis deps then ret ()
      else bindE (of_sum (marshal (product_value p))) (\<lambda>_.
           redis_set (productCacheKey (pr_ID p)) (CProduct p) (cache_ttl deps)))"

definition deleteCache :: "Deps \<Rightarrow> uint \<Rightarrow> unit io" where
  "deleteCache deps i =
     (if \<not> has_redis deps then ret () else redis_del [productCacheKey i])"

primrec InvalidateProducts :: "Deps \<Rightarrow> uint list \<Rightarrow> unit io" where
  "InvalidateProducts deps [] = ret ()"
| "InvalidateProducts deps (i # ids) =
     (if i = 0 then InvalidateProducts deps ids
      else bindE (deleteCache deps i) (\<lambda>_. InvalidateProducts deps ids))"

definition invalidateListCache :: "Deps \<Rightarrow> uint \<Rightarrow> unit io" where
  "invalidateListCache deps userID =
     (if \<not> has_redis deps then ret () else redis_del [listCacheKey userID])"

definition getCachedFirstPage :: "Deps \<Rightarrow> uint \<Rightarrow> ListResult io" where
  "getCachedFirstPage deps userID =
     (if \<not> has_redis deps then throw redis_nil
      else bindE (redis_get (listCacheKey userID)) (\<lambda>raw.
           case raw of CList r \<Rightarrow> ret r | _ \<Rightarrow> throw bad_json))"

definition cacheFirstPage :: "Deps \<Rightarrow> uint \<Rightarrow> ListResult \<Rightarrow> unit io" where
  "cacheFirstPage deps userID r =
     (if \<not> has_redis deps then ret ()
      else bindE (of_sum (marshal (list_value r))) (\<lambda>_.
           redis_set (listCacheKey userID) (CList r) (cache_ttl deps)))"

definition Product_toDomain :: "ProductModel \<Rightarrow> Product" where
  "Product_toDomain m =
     \<lparr>pr_ID = p_ID m, pr_UserID = p_UserID m, pr_Name = p_Name m, pr_Description = p_Description m,
      pr_Price = p_Price m, pr_Stock = p_Stock m, pr_CreatedAt = p_CreatedAt m,
      pr_UpdatedAt = p_UpdatedAt m\<rparr>"

section \<open>Operations\<close>

record ProductCreateInput =
  pc_UserID :: uint
  pc_Name :: string
  pc_Description :: string
  pc_Price :: float64
  pc_Stock :: int

record ProductUpdateInput =
  pu_Name :: "string option"
  pu_Description :: "string option"
  pu_Price :: "float64 option"
  pu_Stock :: "int option"

definition f64_negative :: "float64 \<Rightarrow> bool" where
  "f64_negative x = f64_less x (f64_of_int 0)"

definition ProductService_Create :: "Deps \<Rightarrow> ProductCreateInput \<Rightarrow> Product io" where
  "ProductService_Create deps inp =
     (let name = TrimSpace (pc_Name inp) in
      if name = [] \<or> f64_negative (pc_Price inp) \<or> pc_Stock inp < 0 then throw (Sentinel ErrInvalid)
      else
        bindE (Product_Create (\<lambda>i t.
                 \<lparr>p_ID = i, p_UserID = pc_UserID inp, p_Name = name,
                  p_Description = TrimSpace (pc_Description inp), p_Price = pc_Price inp,
                  p_Stock = pc_Stock inp, p_CreatedAt = t, p_UpdatedAt = t, p_DeletedAt = None\<rparr>)) (\<lambda>model.
        let product = Product_toDomain model in
        bindE (ignore (setCache deps product)) (\<lambda>_.
        bindE (ignore (invalidateListCache deps (pc_UserID inp))) (\<lambda>_.
        bindE (publishAsync deps EventProductCreated product) (\<lambda>_.
        bindE (indexAsync deps product) (\<lambda>_.
        ret product))))))"

definition GetByID :: "Deps \<Rightarrow> uint \<Rightarrow> Product io" where
  "GetByID deps i =
     bindE (attempt (getCache deps i)) (\<lambda>cached.
     case cached of
       Inr p \<Rightarrow> ret p
     | Inl _ \<Rightarrow>
         bindE (Product_FindByID i) (\<lambda>model.
         let product = Product_toDomain model in
         bindE (ignore (setCache deps product)) (\<lambda>_.
         ret product)))"

definition clamp_limit :: "int \<Rightarrow> int" where
  "clamp_limit limit = (if limit \<le> 0 \<or> 100 < limit then 20 else limit)"

text \<open>The page made of at most \<open>limit + 1\<close> rows.\<close>

definition page :: "int \<Rightarrow> ProductModel list \<Rightarrow> ListResult" where
  "page limit models =
     (let hasMore = limit < int (length models);
          items = map Product_toDomain (if hasMore then take (nat limit) models else models)
      in \<lparr>lr_Items = items,
          lr_NextCursor = (if hasMore \<and> items \<noteq> [] then pr_ID (last items) else 0),
          lr_HasMore = hasMore\<rparr>)"

definition Product_List :: "Deps \<Rightarrow> uint \<Rightarrow> uint \<Rightarrow> int \<Rightarrow> ListResult io" where
  "Product_List deps userID cursor limit =
     (let limit = clamp_limit limit;
          load = bindE (ListByUserCursor userID cursor (limit + 1)) (\<lambda>models.
                 let result = page limit models in
                 if cursor = 0
                 then bindE (ignore (cacheFirstPage deps userID result)) (\<lambda>_. ret result)
                 else ret result)
      in if cursor = 0
         then bindE (attempt (getCachedFirstPage deps userID)) (\<lambda>cached.
              case cached of Inr r \<Rightarrow> ret r | Inl _ \<Rightarrow> load)
         else load)"

definition Catalog :: "uint \<Rightarrow> int \<Rightarrow> ListResult io" where
  "Catalog cursor limit =
     (let limit = clamp_limit limit in
      bindE (ListCatalogCursor cursor (limit + 1)) (\<lambda>models. ret (page limit models)))"

text \<open>\<open>Update\<close> is a read, a change in memory and a write, without a transaction.\<close>

definition apply_update :: "ProductUpdateInput \<Rightarrow> ProductModel \<Rightarrow> go_error + ProductModel" where
  "apply_update inp m =
     (if (case pu_Name inp of None \<Rightarrow> False | Some n \<Rightarrow> TrimSpace n = []) then Inl (Sentinel ErrInvalid)
      else if (case pu_Price inp of None \<Rightarrow> False | Some x \<Rightarrow> f64_negative x) then Inl (Sentinel ErrInvalid)
      else if (case pu_Stock inp of None \<Rightarrow> False | Some n \<Rightarrow> n < 0) then Inl (Sentinel ErrInvalid)
      else Inr (m\<lparr>p_Name := (case pu_Name inp of None \<Rightarrow> p_Name m | Some n \<Rightarrow> TrimSpace n),
                 p_Description := (case pu_Description inp of None \<Rightarrow> p_Description m | Some t \<Rightarrow> TrimSpace t),
                 p_Price := (case pu_Price inp of None \<Rightarrow> p_Price m | Some x \<Rightarrow> x),
                 p_Stock := (case pu_Stock inp of None \<Rightarrow> p_Stock m | Some n \<Rightarrow> n)\<rparr>))"

definition load_for_update :: "uint \<Rightarrow> uint \<Rightarrow> ProductUpdateInput \<Rightarrow> ProductModel io" where
  "load_for_update userID i inp =
     bindE (Product_FindByID i) (\<lambda>model.
     if p_UserID model \<noteq> userID then throw (Sentinel ErrForbidden)
     else of_sum (apply_update inp model))"

definition store_update :: "Deps \<Rightarrow> uint \<Rightarrow> ProductModel \<Rightarrow> Product io" where
  "store_update deps userID model =
     bindE (Product_Update model) (\<lambda>model.
     let product = Product_toDomain model in
     bindE (ignore (setCache deps product)) (\<lambda>_.
     bindE (ignore (invalidateListCache deps userID)) (\<lambda>_.
     bindE (publishAsync deps EventProductUpdated product) (\<lambda>_.
     bindE (indexAsync deps product) (\<lambda>_.
     ret product)))))"

definition ProductService_Update :: "Deps \<Rightarrow> uint \<Rightarrow> uint \<Rightarrow> ProductUpdateInput \<Rightarrow> Product io" where
  "ProductService_Update deps userID i inp =
     bindE (load_for_update userID i inp) (store_update deps userID)"

definition ProductService_Delete :: "Deps \<Rightarrow> uint \<Rightarrow> string \<Rightarrow> uint \<Rightarrow> unit io" where
  "ProductService_Delete deps userID role i =
     bindE (Product_FindByID i) (\<lambda>model.
     if p_UserID model \<noteq> userID \<and> role \<noteq> RoleAdmin then throw (Sentinel ErrForbidden)
     else
       bindE (Product_Delete i) (\<lambda>_.
       bindE (ignore (deleteCache deps i)) (\<lambda>_.
       bindE (ignore (invalidateListCache deps userID)) (\<lambda>_.
       bindE (publishAsync deps EventProductDeleted (Product_toDomain model)) (\<lambda>_.
       deleteIndexAsync deps i)))))"

definition ProductService_Search :: "Deps \<Rightarrow> SearchEngine \<Rightarrow> string \<Rightarrow> int \<Rightarrow> ProductDocument list option io" where
  "ProductService_Search deps engine q limit =
     (if \<not> has_search deps then throw (Sentinel ErrUnavailable)
      else let q = TrimSpace q in
        if q = [] then throw (Sentinel ErrInvalid)
        else engine_Search engine q limit)"

end
