(* ===== verification/Sha256.thy ===== *)
theory Sha256
  imports GoStd
begin

text \<open>
  \<open>crypto/sha256\<close> and \<open>encoding/hex\<close>, which the order service uses to fingerprint a request
  (FIPS 180-4): the message is padded to blocks of 64 bytes, each block is expanded to 64
  words and folded into the eight words of the state.  The lemma \<open>sha256_abc\<close> is the
  standard's test vector.
\<close>

unbundle bit_operations_syntax

text \<open>The constants, four words to a numeral.\<close>

definition quad :: "int \<Rightarrow> 32 word list" where
  "quad n = map (\<lambda>p. of_int (n div p)) [2 ^ 96, 2 ^ 64, 2 ^ 32, 1]"

definition round_constants :: "32 word list" where
  "round_constants = concat (map quad
     [0x428a2f9871374491b5c0fbcfe9b5dba5, 0x3956c25b59f111f1923f82a4ab1c5ed5,
      0xd807aa9812835b01243185be550c7dc3, 0x72be5d7480deb1fe9bdc06a7c19bf174,
      0xe49b69c1efbe47860fc19dc6240ca1cc, 0x2de92c6f4a7484aa5cb0a9dc76f988da,
      0x983e5152a831c66db00327c8bf597fc7, 0xc6e00bf3d5a7914706ca635114292967,
      0x27b70a852e1b21384d2c6dfc53380d13, 0x650a7354766a0abb81c2c92e92722c85,
      0xa2bfe8a1a81a664bc24b8b70c76c51a3, 0xd192e819d6990624f40e3585106aa070,
      0x19a4c1161e376c082748774c34b0bcb5, 0x391c0cb34ed8aa4a5b9cca4f682e6ff3,
      0x748f82ee78a5636f84c878148cc70208, 0x90befffaa4506cebbef9a3f7c67178f2])"

definition initial_state :: "32 word list" where
  "initial_state = concat (map quad
     [0x6a09e667bb67ae853c6ef372a54ff53a, 0x510e527f9b05688c1f83d9ab5be0cd19])"

lemma length_initial_state: "length initial_state = 8"
  by (simp add: initial_state_def quad_def)

definition sha_pad :: "int list \<Rightarrow> int list" where
  "sha_pad m =
     (let n = int (length m)
      in m @ [0x80] @ replicate (nat ((55 - n) mod 64)) 0
         @ map (\<lambda>p. 8 * n div p mod 256)
             [2 ^ 56, 2 ^ 48, 2 ^ 40, 2 ^ 32, 2 ^ 24, 2 ^ 16, 2 ^ 8, 1])"

fun be_words :: "int list \<Rightarrow> 32 word list" where
  "be_words (a # b # c # d # rest) =
     of_int (((a * 256 + b) * 256 + c) * 256 + d) # be_words rest"
| "be_words _ = []"

fun blocks :: "nat \<Rightarrow> 'a list \<Rightarrow> 'a list list" where
  "blocks 0 xs = []"
| "blocks (Suc n) xs = (if xs = [] then [] else take 16 xs # blocks n (drop 16 xs))"

definition small_sigma0 :: "32 word \<Rightarrow> 32 word" where
  "small_sigma0 x = (word_rotr 7 x XOR word_rotr 18 x) XOR drop_bit 3 x"

definition small_sigma1 :: "32 word \<Rightarrow> 32 word" where
  "small_sigma1 x = (word_rotr 17 x XOR word_rotr 19 x) XOR drop_bit 10 x"

definition big_sigma0 :: "32 word \<Rightarrow> 32 word" where
  "big_sigma0 x = (word_rotr 2 x XOR word_rotr 13 x) XOR word_rotr 22 x"

definition big_sigma1 :: "32 word \<Rightarrow> 32 word" where
  "big_sigma1 x = (word_rotr 6 x XOR word_rotr 11 x) XOR word_rotr 25 x"

text \<open>The last 16 words of the schedule are kept, newest last; \<open>n\<close> more are appended.\<close>

fun schedule :: "nat \<Rightarrow> 32 word list \<Rightarrow> 32 word list" where
  "schedule 0 w = []"
| "schedule (Suc n) w =
     (let x = small_sigma1 (w ! 14) + w ! 9 + small_sigma0 (w ! 1) + w ! 0
      in x # schedule n (tl w @ [x]))"

fun sha_round :: "32 word list \<Rightarrow> 32 word \<times> 32 word \<Rightarrow> 32 word list" where
  "sha_round [a, b, c, d, e, f, g, h] (k, w) =
     (let t1 = h + big_sigma1 e + ((e AND f) XOR (NOT e AND g)) + k + w;
          t2 = big_sigma0 a + (((a AND b) XOR (a AND c)) XOR (b AND c))
      in [t1 + t2, a, b, c, d + t1, e, f, g])"
| "sha_round st _ = st"

definition sha_block :: "32 word list \<Rightarrow> 32 word list \<Rightarrow> 32 word list" where
  "sha_block st blk =
     map2 (+) st (foldl sha_round st (zip round_constants (blk @ schedule 48 blk)))"

definition sha256_words :: "int list \<Rightarrow> 32 word list" where
  "sha256_words m =
     (let ws = be_words (sha_pad m) in foldl sha_block initial_state (blocks (length ws) ws))"

definition hex_digit :: "int \<Rightarrow> char" where
  "hex_digit d = (if d < 10 then char_of (48 + d) else char_of (87 + d))"

text \<open>\<open>hex.EncodeToString(sum[:])\<close>\<close>

definition hex_word :: "32 word \<Rightarrow> string" where
  "hex_word w = 
     map (\<lambda>p. hex_digit (uint w div p mod 16))
       [16 ^ 7, 16 ^ 6, 16 ^ 5, 16 ^ 4, 16 ^ 3, 16 ^ 2, 16, 1]"

definition sha256_hex :: "string \<Rightarrow> string" where
  "sha256_hex s = concat (map hex_word (sha256_words (map of_char s)))"

lemma length_sha_round: "length (sha_round st x) = length st"
  by (cases "(st, x)" rule: sha_round.cases) (simp_all add: Let_def)

lemma length_schedule [simp]: "length (schedule n w) = n"
  by (induction n w rule: schedule.induct) (simp_all add: Let_def)

lemma length_foldl_round: "length (foldl sha_round st xs) = length st"
  by (induction xs arbitrary: st) (simp_all add: length_sha_round)

lemma length_sha_block [simp]: "length (sha_block st blk) = length st"
  by (simp add: sha_block_def length_foldl_round)

lemma length_sha256_words: "length (sha256_words m) = 8"
proof -
  have "length (foldl sha_block st bs) = length st" for st bs
    by (induction bs arbitrary: st) simp_all
  then show ?thesis by (simp add: sha256_words_def Let_def length_initial_state)
qed

text \<open>The fingerprint has 64 characters, as the column \<open>request_hash\<close> requires.\<close>

lemma length_sha256_hex: "length (sha256_hex s) = 64"
proof -
  have "length (concat (map hex_word ws)) = 8 * length ws" for ws
    by (induction ws) (simp_all add: hex_word_def)
  then show ?thesis by (simp add: sha256_hex_def length_sha256_words)
qed

lemma sha256_abc:
  "sha256_hex ''abc'' = ''ba7816bf8f01cfea414140de5dae2223b00361a396177a9cb410ff61f20015ad''"
  by code_simp

end
