(* ===== verification/Order_Service.thy ===== *)
theory Order_Service
  imports Order_Repo Product_Service Sha256
begin

text \<open>
  \<open>internal/http/order/service.go\<close> and \<open>handler.go\<close>: the idempotent creation of orders, the
  reads, cancellation, payment, fulfilment, the expiry of unpaid holds, and the HTTP handlers.

  The optional product cache of the service is the product service (\<open>Deps\<close>).  A replayed
  response body is compared and returned as a JSON tree: PostgreSQL stores it as \<open>JSONB\<close>,
  which keeps the value and not the text.
\<close>

section \<open>service.go\<close>

record OrderDeps =
  od_HoldTTL :: duration
  od_Cache :: "Deps option"

record CreateInput =
  in_UserID :: uint
  in_Items :: "CreateItem list"
  in_IdempotencyKey :: string
  in_Method :: string
  in_Path :: string

record PayInput =
  py_UserID :: uint
  py_OrderID :: uint
  py_Outcome :: string
  py_Key :: string

datatype CreateResult = NewOrder Order | Replay int json

text \<open>\<open>json.Marshal(items)\<close>, as text.\<close>

definition item_text :: "CreateItem \<Rightarrow> string" where
  "item_text it =
     ''{\"productId\":'' @ show_uint (ci_ProductID it) @ '',\"qty\":'' @ show_int (ci_Qty it) @ ''}''"

fun join :: "string \<Rightarrow> string list \<Rightarrow> string" where
  "join sep [] = []"
| "join sep [x] = x"
| "join sep (x # y # xs) = x @ sep @ join sep (y # xs)"

definition items_text :: "CreateItem list \<Rightarrow> string" where
  "items_text items = ''['' @ join '','' (map item_text items) @ '']''"

definition hashCreateRequest :: "CreateItem list \<Rightarrow> string" where
  "hashCreateRequest items = sha256_hex (items_text items)"

definition invalidateProductIDs :: "OrderDeps \<Rightarrow> uint list \<Rightarrow> unit io" where
  "invalidateProductIDs od ids =
     (case od_Cache od of
        None \<Rightarrow> ret ()
      | Some deps \<Rightarrow> if ids = [] then ret () else ignore (InvalidateProducts deps ids))"

definition itemProductIDs :: "OrderItemModel list \<Rightarrow> uint list" where
  "itemProductIDs items = map oi_ProductID items"

definition createItemProductIDs :: "CreateItem list \<Rightarrow> uint list" where
  "createItemProductIDs items = map ci_ProductID items"

definition Order_toDomain :: "OrderModel \<Rightarrow> OrderItemModel list \<Rightarrow> Order" where
  "Order_toDomain m items =
     \<lparr>ord_ID = o_ID m, ord_UserID = o_UserID m, ord_Status = o_Status m, ord_Total = o_Total m,
      ord_Currency = o_Currency m, ord_Version = o_Version m,
      ord_Items = map (\<lambda>it. \<lparr>it_ProductID = oi_ProductID it, it_Qty = oi_Qty it,
                              it_UnitPrice = oi_UnitPrice it\<rparr>) items,
      ord_CreatedAt = format_rfc3339 (o_CreatedAt m), ord_UpdatedAt = format_rfc3339 (o_UpdatedAt m)\<rparr>"

definition OrderService_Get :: "uint \<Rightarrow> uint \<Rightarrow> Order io" where
  "OrderService_Get userID i =
     bindE (FindByID userID i) (\<lambda>(model, items). ret (Order_toDomain model items))"

definition create_new :: "OrderDeps \<Rightarrow> CreateInput \<Rightarrow> CreateResult io" where
  "create_new od inp =
     bindE (CreateOrder (in_UserID inp) (in_Items inp)) (\<lambda>model.
     bindE (invalidateProductIDs od (createItemProductIDs (in_Items inp))) (\<lambda>_.
     bindE (OrderService_Get (in_UserID inp) (o_ID model)) (\<lambda>order.
     ret (NewOrder order))))"

definition OrderService_Create :: "OrderDeps \<Rightarrow> CreateInput \<Rightarrow> CreateResult io" where
  "OrderService_Create od inp =
     (let key = TrimSpace (in_IdempotencyKey inp) in
      if key = [] then throw (wrap ErrInvalid ''Idempotency-Key header required'')
      else if in_Items inp = [] then throw (Sentinel ErrInvalid)
      else
        let reqHash = hashCreateRequest (in_Items inp) in
        bindE (FindIdempotency (in_UserID inp) key) (\<lambda>prev.
        case prev of
          None \<Rightarrow> create_new od inp
        | Some row \<Rightarrow>
            (case (ik_ResponseStatus row, ik_ResponseBody row) of
               (Some status, Some body) \<Rightarrow>
                 if ik_RequestHash row \<noteq> [] \<and> ik_RequestHash row \<noteq> reqHash
                 then throw (wrap ErrConflict ''Idempotency-Key reused with different body'')
                 else ret (Replay status body)
             | _ \<Rightarrow> create_new od inp)))"

definition RememberIdempotent ::
  "uint \<Rightarrow> string \<Rightarrow> string \<Rightarrow> string \<Rightarrow> CreateItem list \<Rightarrow> int \<Rightarrow> json \<Rightarrow> unit io" where
  "RememberIdempotent userID key meth path items status body =
     SaveIdempotencyResponse userID key meth path (hashCreateRequest items) status body"

definition OrderService_List :: "uint \<Rightarrow> int \<Rightarrow> Order list io" where
  "OrderService_List userID limit =
     bindE (ListByUser userID limit) (\<lambda>rows. ret (map (\<lambda>m. Order_toDomain m []) rows))"

definition items_or_none :: "(OrderModel \<times> OrderItemModel list) io \<Rightarrow> OrderItemModel list io" where
  "items_or_none m =
     bindE (attempt m) (\<lambda>r. case r of Inl _ \<Rightarrow> ret [] | Inr (_, items) \<Rightarrow> ret items)"

definition OrderService_Cancel :: "OrderDeps \<Rightarrow> uint \<Rightarrow> uint \<Rightarrow> Order io" where
  "OrderService_Cancel od userID i =
     bindE (items_or_none (FindByID userID i)) (\<lambda>items.
     bindE (Cancel userID i) (\<lambda>model.
     bindE (invalidateProductIDs od (itemProductIDs items)) (\<lambda>_.
     OrderService_Get userID (o_ID model))))"

definition OrderService_Pay :: "PayInput \<Rightarrow> (Order \<times> PaymentModel option) io" where
  "OrderService_Pay inp =
     (let given = ToLower (TrimSpace (py_Outcome inp));
          outcome = (if given = [] then ''success'' else given)
      in if outcome \<notin> {''success'', ''fail'', ''timeout''} then throw (Sentinel ErrInvalid)
         else
           let given_key = TrimSpace (py_Key inp);
               key = (if given_key = [] then ''pay-'' @ show_uint (py_OrderID inp) else given_key)
           in bindE (Pay (py_UserID inp) (py_OrderID inp) outcome key) (\<lambda>(order, pay).
              bindE (OrderService_Get (py_UserID inp) (o_ID order)) (\<lambda>full.
              ret (full, pay))))"

definition OrderService_Fulfill :: "uint \<Rightarrow> Order io" where
  "OrderService_Fulfill i =
     bindE (Fulfill i) (\<lambda>model.
     bindE (FindByIDAny (o_ID model)) (\<lambda>(full, items).
     ret (Order_toDomain full items)))"

fun expire_each :: "OrderDeps \<Rightarrow> uint list \<Rightarrow> int \<Rightarrow> int io" where
  "expire_each od [] n = ret n"
| "expire_each od (i # ids) n =
     bindE (items_or_none (FindByIDAny i)) (\<lambda>items.
     bindE (attempt (CancelSystem i)) (\<lambda>r.
     case r of
       Inl _ \<Rightarrow> expire_each od ids n
     | Inr _ \<Rightarrow>
         bindE (invalidateProductIDs od (itemProductIDs items)) (\<lambda>_.
         expire_each od ids (n + 1))))"

definition hold_ttl :: "OrderDeps \<Rightarrow> duration" where
  "hold_ttl od = (if od_HoldTTL od \<le> 0 then 15 * minute else od_HoldTTL od)"

definition ExpireStaleHolds :: "OrderDeps \<Rightarrow> int io" where
  "ExpireStaleHolds od =
     bindE now (\<lambda>t.
     bindE (ListExpiredPendingIDs (t - hold_ttl od) 50) (\<lambda>ids.
     expire_each od ids 0))"

text \<open>One tick of \<open>RunHoldExpiry\<close>: an error is logged.\<close>

definition RunHoldExpiry_tick :: "OrderDeps \<Rightarrow> unit io" where
  "RunHoldExpiry_tick od = ignore (ExpireStaleHolds od)"

section \<open>The JSON of orders and payments\<close>

definition order_item_value :: "OrderItem \<Rightarrow> goval" where
  "order_item_value it =
     GMap [(''productId'', GUint (it_ProductID it)), (''qty'', GInt (it_Qty it)),
           (''unitPrice'', GFloat (it_UnitPrice it))]"

definition order_value :: "Order \<Rightarrow> goval" where
  "order_value o' =
     GMap ([(''id'', GUint (ord_ID o')), (''userId'', GUint (ord_UserID o')),
            (''status'', GStr (ord_Status o')), (''total'', GFloat (ord_Total o')),
            (''currency'', GStr (ord_Currency o')), (''version'', GInt (ord_Version o'))]
           @ (if ord_Items o' = [] then [] else [(''items'', GSlice (map order_item_value (ord_Items o')))])
           @ omit_empty ''createdAt'' (ord_CreatedAt o') @ omit_empty ''updatedAt'' (ord_UpdatedAt o'))"

definition payment_value :: "PaymentModel \<Rightarrow> goval" where
  "payment_value p =
     GMap [(''id'', GUint (pay_ID p)), (''orderId'', GUint (pay_OrderID p)),
           (''idempotencyKey'', GStr (pay_IdempotencyKey p)), (''status'', GStr (pay_Status p)),
           (''amount'', GFloat (pay_Amount p)), (''providerRef'', GStr (pay_ProviderRef p)),
           (''attempt'', GInt (pay_Attempt p)), (''createdAt'', GTime (pay_CreatedAt p)),
           (''updatedAt'', GTime (pay_UpdatedAt p))]"

section \<open>handler.go\<close>

definition dec_create_item :: "json \<Rightarrow> CreateItem option" where
  "dec_create_item j =
     (case body_fields (Inl j) of
        None \<Rightarrow> None
      | Some kjs \<Rightarrow>
          (case (field dec_uint 0 ''productId'' kjs, field dec_int 0 ''qty'' kjs) of
             (Some pid, Some qty) \<Rightarrow> Some \<lparr>ci_ProductID = pid, ci_Qty = qty\<rparr>
           | _ \<Rightarrow> None))"

definition dec_create_items :: "json \<Rightarrow> CreateItem list option" where
  "dec_create_items j = (case j of JArr js \<Rightarrow> decode_all dec_create_item js | _ \<Rightarrow> None)"

text \<open>\<open>createRequest\<close>: the items, \<open>None\<close> for a nil slice.\<close>

definition dec_create_request :: "(string \<times> json) list \<Rightarrow> CreateItem list option option" where
  "dec_create_request kjs = ptr_field dec_create_items ''items'' kjs"

definition valid_create_request :: "CreateItem list option \<Rightarrow> bool" where
  "valid_create_request r =
     (case r of
        None \<Rightarrow> False
      | Some items \<Rightarrow> 1 \<le> length items
          \<and> list_all (\<lambda>it. ci_ProductID it \<noteq> 0 \<and> ci_Qty it \<noteq> 0 \<and> 0 < ci_Qty it) items)"

definition order_mapErr :: "go_error \<Rightarrow> Ctx \<Rightarrow> Ctx" where
  "order_mapErr err =
     (let code = ErrorCode err in
      if errors_is err ErrInvalid then FailCode 400 (error_text err) code
      else if errors_is err ErrUnauthorized \<or> errors_is err ErrTokenExpired
      then FailCode 401 (error_text err) code
      else if errors_is err ErrForbidden then FailCode 403 (error_text err) code
      else if errors_is err ErrNotFound then FailCode 404 (error_text err) code
      else if errors_is err ErrConflict then FailCode 409 (error_text err) code
      else if errors_is err ErrUnavailable then FailCode 503 (error_text err) code
      else FailCode 500 ''internal error'' code)"

definition unauthorized_reply :: "Ctx \<Rightarrow> Ctx" where
  "unauthorized_reply =
     FailCode 401 (error_text (Sentinel ErrUnauthorized)) (ErrorCode (Sentinel ErrUnauthorized))"

definition invalid_reply :: "string \<Rightarrow> Ctx \<Rightarrow> Ctx" where
  "invalid_reply m = FailCode 400 m (ErrorCode (Sentinel ErrInvalid))"

definition Order_create :: "OrderDeps \<Rightarrow> handler" where
  "Order_create od c =
     (case cx_userID c of
        None \<Rightarrow> ret (unauthorized_reply c)
      | Some userID \<Rightarrow>
          (case BindJSON dec_create_request valid_create_request c of
             None \<Rightarrow> ret (invalid_reply ''invalid request body'' c)
           | Some req \<Rightarrow>
               let items = (case req of None \<Rightarrow> [] | Some its \<Rightarrow> its);
                   key = TrimSpace (GetHeader c ''Idempotency-Key'');
                   meth = rq_Method (cx_req c);
                   path = rq_FullPath (cx_req c)
               in bindE (attempt (OrderService_Create od
                    \<lparr>in_UserID = userID, in_Items = items, in_IdempotencyKey = key,
                     in_Method = meth, in_Path = path\<rparr>)) (\<lambda>r.
                  case r of
                    Inl err \<Rightarrow> ret (order_mapErr err c)
                  | Inr (Replay status body) \<Rightarrow> ret (c_Data status (Inl body) c)
                  | Inr (NewOrder order) \<Rightarrow>
                      (case marshal_envelope \<lparr>env_Success = True, env_Message = ''order created'',
                              env_ErrorCode = [], env_Data = Some (order_value order),
                              env_Meta = None, env_Errors = None\<rparr> of
                         Inl err \<Rightarrow> ret (order_mapErr err c)
                       | Inr body \<Rightarrow>
                           bindE (ignore (RememberIdempotent userID key meth path items 201 body)) (\<lambda>_.
                           ret (c_Data 201 (Inl body) c))))))"

definition Order_list :: "handler" where
  "Order_list c =
     (case cx_userID c of
        None \<Rightarrow> ret (unauthorized_reply c)
      | Some userID \<Rightarrow>
          bindE (attempt (OrderService_List userID (Atoi_value (DefaultQuery c ''limit'' ''20'')))) (\<lambda>r.
          case r of
            Inl err \<Rightarrow> ret (order_mapErr err c)
          | Inr items \<Rightarrow> ret (OK ''success'' (Some (GSlice (map order_value items))) c)))"

text \<open>The common shape of the handlers on one order: the user, the id of the path, the
  operation, the reply.\<close>

definition with_order_id :: "Ctx \<Rightarrow> (uint \<Rightarrow> 'a io) \<Rightarrow> ('a \<Rightarrow> Ctx \<Rightarrow> Ctx) \<Rightarrow> Ctx io" where
  "with_order_id c operation reply =
     (case parseID (Param c ''id'') of
        Inl _ \<Rightarrow> ret (invalid_reply ''invalid id'' c)
      | Inr i \<Rightarrow>
          bindE (attempt (operation i)) (\<lambda>r.
          case r of
            Inl err \<Rightarrow> ret (order_mapErr err c)
          | Inr a \<Rightarrow> ret (reply a c)))"

definition Order_getByID :: "handler" where
  "Order_getByID c =
     (case cx_userID c of
        None \<Rightarrow> ret (unauthorized_reply c)
      | Some userID \<Rightarrow>
          with_order_id c (OrderService_Get userID) (\<lambda>order. OK ''success'' (Some (order_value order))))"

definition Order_cancel :: "OrderDeps \<Rightarrow> handler" where
  "Order_cancel od c =
     (case cx_userID c of
        None \<Rightarrow> ret (unauthorized_reply c)
      | Some userID \<Rightarrow>
          with_order_id c (OrderService_Cancel od userID)
            (\<lambda>order. OK ''order cancelled'' (Some (order_value order))))"

text \<open>\<open>_ = c.ShouldBindJSON(&req)\<close>: a field that does not decode keeps its value.\<close>

fun decode_lenient :: "(json \<Rightarrow> 'a option) \<Rightarrow> 'a \<Rightarrow> json list \<Rightarrow> 'a" where
  "decode_lenient dec v [] = v"
| "decode_lenient dec v (j # js) =
     decode_lenient dec (case dec j of None \<Rightarrow> v | Some w \<Rightarrow> w) js"

definition lenient_field :: "string \<Rightarrow> Ctx \<Rightarrow> string" where
  "lenient_field name c =
     (case body_fields (rq_Body (cx_req c)) of
        None \<Rightarrow> []
      | Some kjs \<Rightarrow> decode_lenient dec_string [] (occurrences name kjs))"

definition Order_pay :: "handler" where
  "Order_pay c =
     (case cx_userID c of
        None \<Rightarrow> ret (unauthorized_reply c)
      | Some userID \<Rightarrow>
          with_order_id c (\<lambda>i. OrderService_Pay
              \<lparr>py_UserID = userID, py_OrderID = i, py_Outcome = lenient_field ''outcome'' c,
               py_Key = lenient_field ''key'' c\<rparr>)
            (\<lambda>(order, pay). OK ''payment processed''
               (Some (GMap [(''order'', order_value order),
                            (''payment'', nullable (map_option payment_value pay))]))))"

definition Order_fulfill :: "handler" where
  "Order_fulfill c =
     with_order_id c OrderService_Fulfill (\<lambda>order. OK ''order fulfilled'' (Some (order_value order)))"

end
