(* ===== verification/Runs.thy ===== *)
theory Runs
  imports System Order_Service
begin

text \<open>
  Programs composed of steps.  \<open>step_closed\<close> is the interface of a relation between system
  states that is reflexive, transitive and holds of everything that touches neither the
  tables nor the topics, MongoDB and the environment; \<open>runs m\<close> says that every run of \<open>m\<close>
  stays inside the relation, whatever its outcome, and has one rule per combinator.  It is
  interpreted on the relation \<open>trades\<close> (no catalogue edits) and on \<open>reachable\<close>, which places
  the services of the API inside the system of \<open>System\<close>: what is proved of every reachable
  state holds after every request.
\<close>

locale step_closed =
  fixes rel :: "sys \<Rightarrow> sys \<Rightarrow> bool"
  assumes rel_refl: "rel s s"
    and rel_trans: "rel s1 s2 \<Longrightarrow> rel s2 s3 \<Longrightarrow> rel s1 s3"
    and rel_frame: "db s' = db s \<Longrightarrow> outside s' = outside s \<Longrightarrow> rel s s'"
begin

definition runs :: "'a io \<Rightarrow> bool" where
  "runs m = (\<forall>s. rel s (snd (m s)))"

lemma runsI: "(\<And>s r s'. m s = (r, s') \<Longrightarrow> rel s s') \<Longrightarrow> runs m"
  by (metis prod.collapse runs_def)

lemma runsD: "runs m \<Longrightarrow> m s = (r, s') \<Longrightarrow> rel s s'"
  by (metis runs_def snd_conv)

lemma runs_frame: "(\<And>s. db (snd (m s)) = db s \<and> outside (snd (m s)) = outside s) \<Longrightarrow> runs m"
  by (simp add: runs_def rel_frame)

lemma runs_ret: "runs (ret a)" "runs (throw e)" "runs (of_sum r)"
  by (auto intro!: runs_frame simp: ret_def throw_def of_sum_def)

lemma runs_bindE: "runs m \<Longrightarrow> (\<And>a. runs (f a)) \<Longrightarrow> runs (bindE m f)"
proof (rule runsI)
  fix s r s'
  assume m: "runs m" and f: "\<And>a. runs (f a)" and run: "bindE m f s = (r, s')"
  obtain x s1 where x: "m s = (x, s1)" by fastforce
  from runsD [OF m x] have "rel s s1" .
  with run x f show "rel s s'"
    by (cases x) (auto simp: bindE_def intro: rel_trans dest: runsD)
qed

lemma runs_attempt: "runs m \<Longrightarrow> runs (attempt m)"
  by (simp add: runs_def attempt_def split: prod.split) (metis snd_conv)

lemma runs_ignore: "runs m \<Longrightarrow> runs (ignore m)"
  by (simp add: runs_def ignore_def split: prod.split) (metis snd_conv)

lemma runs_cases:
  "(x = None \<Longrightarrow> runs m) \<Longrightarrow> (\<And>a. x = Some a \<Longrightarrow> runs (f a))
   \<Longrightarrow> runs (case x of None \<Rightarrow> m | Some a \<Rightarrow> f a)"
  "(\<And>e. y = Inl e \<Longrightarrow> runs (h e)) \<Longrightarrow> (\<And>b. y = Inr b \<Longrightarrow> runs (g b))
   \<Longrightarrow> runs (case y of Inl e \<Rightarrow> h e | Inr b \<Rightarrow> g b)"
  "(\<And>a b. z = (a, b) \<Longrightarrow> runs (k a b)) \<Longrightarrow> runs (case z of (a, b) \<Rightarrow> k a b)"
  by (simp_all split: option.split sum.split prod.split)

lemma runs_if: "(b \<Longrightarrow> runs m) \<Longrightarrow> (\<not> b \<Longrightarrow> runs n) \<Longrightarrow> runs (if b then m else n)"
  by simp

lemma runs_query: "runs (query f)"
  by (auto intro!: runs_frame simp: interact_defs split: option.split)

lemma runs_clock: "runs now" "runs new_uuid" "runs ctx_cancelled" "runs get_uint_conv"
  by (auto intro!: runs_frame simp: now_def new_uuid_def ctx_cancelled_def get_uint_conv_def)

lemma runs_redis: "runs (redis_get k)" "runs (redis_set k v ttl)" "runs (redis_del ks)"
  by (auto intro!: runs_frame simp: redis_get_def redis_set_def redis_del_def interact_def outside_def
      split: option.split)

lemma runs_spawn: "runs (spawn j)"
  by (rule runs_frame) (simp add: spawn_def outside_def)

lemmas runs_intros = runs_ret runs_bindE runs_attempt runs_ignore runs_cases runs_if runs_query
  runs_clock runs_redis runs_spawn

lemma runs_cache:
  "runs (getCache deps i)" "runs (setCache deps p)" "runs (deleteCache deps i)"
  "runs (invalidateListCache deps u)" "runs (getCachedFirstPage deps u)" "runs (cacheFirstPage deps u r)"
  unfolding getCache_def setCache_def deleteCache_def invalidateListCache_def getCachedFirstPage_def
    cacheFirstPage_def
  by (intro runs_intros; simp split: cval.split add: runs_ret)+

lemma runs_InvalidateProducts: "runs (InvalidateProducts deps ids)"
  by (induction ids) (auto intro!: runs_intros runs_cache)

lemma runs_async:
  "runs (publishAsync deps ty p)" "runs (indexAsync deps p)" "runs (deleteIndexAsync deps i)"
  unfolding publishAsync_def indexAsync_def deleteIndexAsync_def by (intro runs_intros)+

lemma runs_invalidate: "runs (invalidateProductIDs od ids)"
  unfolding invalidateProductIDs_def by (intro runs_intros runs_InvalidateProducts)

lemma runs_first_order: "runs (first_order P)"
  unfolding first_order_def by (intro runs_intros)

lemma runs_find: "runs (FindByID u i)" "runs (FindByIDAny i)" "runs (FindIdempotency u k)"
  "runs (ListByUser u n)" "runs (ListExpiredPendingIDs t n)" "runs (Product_FindByID i)"
  "runs (ListByUserCursor u c n)" "runs (ListCatalogCursor c n)"
  unfolding FindByID_def FindByIDAny_def FindIdempotency_def ListByUser_def ListExpiredPendingIDs_def
    Product_FindByID_def ListByUserCursor_def ListCatalogCursor_def items_of_def Let_def
  by (intro runs_intros runs_first_order)+

lemma runs_reads:
  "runs (GetByID deps i)" "runs (Product_List deps u c n)" "runs (Catalog c n)"
  "runs (OrderService_Get u i)" "runs (OrderService_List u n)"
  unfolding GetByID_def Product_List_def Catalog_def OrderService_Get_def OrderService_List_def Let_def
  by (intro runs_intros runs_find runs_cache)+

end

section \<open>The two relations\<close>

lemma trades_trans: "trades s2 s3 \<Longrightarrow> trades s1 s2 \<Longrightarrow> trades s1 s3"
  by (induction rule: trades.induct) (auto intro: trades.intros)

lemma reachable_trans: "reachable s2 s3 \<Longrightarrow> reachable s1 s2 \<Longrightarrow> reachable s1 s3"
  by (induction rule: reachable.induct) (auto intro: reachable.intros)

lemma trades_step: "trade s s' \<Longrightarrow> trades s s'"
  by (auto intro: trades.intros)

lemma trades_reachable: "trades s0 s \<Longrightarrow> reachable s0 s"
  by (induction rule: trades.induct) (auto intro: reachable.intros shop_step.intros)

lemma trade_frame: "db s' = db s \<Longrightarrow> outside s' = outside s \<Longrightarrow> trade s s'"
  by (rule trade.elsewhere)
    (auto simp: unrelated_def intro!: exI [of _ "users (db s)"] exI [of _ "wishlists (db s)"]
        exI [of _ "idempotency_keys (db s)"])

interpretation trading: step_closed trades
  by unfold_locales (auto intro: trades.intros trades_trans trade_frame)

interpretation reaching: step_closed reachable
  by unfold_locales (auto intro: reachable.intros shop_step.intros reachable_trans trade_frame)

text \<open>What only reads.\<close>

interpretation reading: step_closed "\<lambda>s s'. db s' = db s \<and> outside s' = outside s"
  by unfold_locales auto

lemma reading_db: "reading.runs m \<Longrightarrow> m s = (r, s') \<Longrightarrow> db s' = db s"
  by (auto dest: reading.runsD)

lemma db_after_read: "(\<And>a. reading.runs (f a)) \<Longrightarrow> db (snd (bindE m f s)) = db (snd (m s))"
  by (cases "m s"; cases "fst (m s)") (auto simp: bindE_def reading.runs_def)

lemma db_after_attempt: "db (snd (attempt m s)) = db (snd (m s))"
  by (simp add: attempt_def split: prod.split)

text \<open>What stays inside the database, Redis and the job queue.\<close>

interpretation framing: step_closed "\<lambda>s s'. outside s' = outside s"
  by unfold_locales auto

lemma framing_sql: "sql_only m \<Longrightarrow> framing.runs m"
  by (auto intro: framing.runsI dest: sql_only_run)

lemma trading_reaching: "trading.runs m \<Longrightarrow> reaching.runs m"
  by (simp add: trading.runs_def reaching.runs_def trades_reachable)

end
