(* ===== verification/Product_Handler.thy ===== *)
theory Product_Handler
  imports Product_Service
begin

text \<open>\<open>internal/http/product/handler.go\<close>: the HTTP handlers of products.\<close>

section \<open>Requests\<close>

record ProductCreateRequest =
  cr_Name :: string
  cr_Description :: string
  cr_Price :: float64
  cr_Stock :: int

definition f64_zero :: float64 where "f64_zero = Fin 0 0"

definition dec_product_create :: "(string \<times> json) list \<Rightarrow> ProductCreateRequest option" where
  "dec_product_create kjs =
     (case (field dec_string [] ''name'' kjs, field dec_string [] ''description'' kjs,
            field dec_float f64_zero ''price'' kjs, field dec_int 0 ''stock'' kjs) of
        (Some n, Some d, Some p, Some s) \<Rightarrow>
          Some \<lparr>cr_Name = n, cr_Description = d, cr_Price = p, cr_Stock = s\<rparr>
      | _ \<Rightarrow> None)"

definition valid_product_create :: "ProductCreateRequest \<Rightarrow> bool" where
  "valid_product_create r = (cr_Name r \<noteq> [] \<and> cr_Price r \<noteq> f64_zero)"

definition dec_product_update :: "(string \<times> json) list \<Rightarrow> ProductUpdateInput option" where
  "dec_product_update kjs =
     (case (ptr_field dec_string ''name'' kjs, ptr_field dec_string ''description'' kjs,
            ptr_field dec_float ''price'' kjs, ptr_field dec_int ''stock'' kjs) of
        (Some n, Some d, Some p, Some s) \<Rightarrow>
          Some \<lparr>pu_Name = n, pu_Description = d, pu_Price = p, pu_Stock = s\<rparr>
      | _ \<Rightarrow> None)"

definition parseCursor :: "string \<Rightarrow> go_error + uint" where
  "parseCursor raw = (if raw = [] then Inr 0 else parseID raw)"

definition queryInt :: "Ctx \<Rightarrow> string \<Rightarrow> int \<Rightarrow> int" where
  "queryInt c key def =
     (let raw = Query c key in
      if raw = [] then def else case Atoi raw of None \<Rightarrow> def | Some n \<Rightarrow> n)"

definition product_mapErr :: "go_error \<Rightarrow> Ctx \<Rightarrow> Ctx" where
  "product_mapErr err =
     (let code = ErrorCode err in
      if errors_is err ErrInvalid then FailCode 400 (error_text err) code
      else if errors_is err ErrUnauthorized \<or> errors_is err ErrTokenExpired
      then FailCode 401 (error_text err) code
      else if errors_is err ErrForbidden then FailCode 403 (error_text err) code
      else if errors_is err ErrNotFound then FailCode 404 (error_text err) code
      else if errors_is err ErrUnavailable then FailCode 503 (error_text err) code
      else FailCode 500 ''internal error'' code)"

definition document_value :: "ProductDocument \<Rightarrow> goval" where
  "document_value d =
     GMap [(''id'', GStr (pd_ID d)), (''userId'', GUint (pd_UserID d)), (''name'', GStr (pd_Name d)),
           (''description'', GStr (pd_Description d)), (''price'', GFloat (pd_Price d))]"

text \<open>The reply to the result of a service call.\<close>

definition product_reply :: "'a io \<Rightarrow> ('a \<Rightarrow> Ctx \<Rightarrow> Ctx) \<Rightarrow> handler" where
  "product_reply operation reply c =
     bindE (attempt operation) (\<lambda>r.
     case r of Inl err \<Rightarrow> ret (product_mapErr err c) | Inr a \<Rightarrow> ret (reply a c))"

definition unauthorized_code :: "Ctx \<Rightarrow> Ctx" where
  "unauthorized_code =
     FailCode 401 (error_text (Sentinel ErrUnauthorized)) (ErrorCode (Sentinel ErrUnauthorized))"

definition unauthorized_plain :: "Ctx \<Rightarrow> Ctx" where
  "unauthorized_plain = Fail 401 (error_text (Sentinel ErrUnauthorized))"

section \<open>Handlers\<close>

definition Product_create :: "Deps \<Rightarrow> handler" where
  "Product_create deps c =
     (case cx_userID c of
        None \<Rightarrow> ret (unauthorized_plain c)
      | Some userID \<Rightarrow>
          (case BindJSON dec_product_create valid_product_create c of
             None \<Rightarrow> ret (Fail 400 ''invalid request body'' c)
           | Some req \<Rightarrow>
               product_reply (ProductService_Create deps
                   \<lparr>pc_UserID = userID, pc_Name = cr_Name req, pc_Description = cr_Description req,
                    pc_Price = cr_Price req, pc_Stock = cr_Stock req\<rparr>)
                 (\<lambda>p. Created ''product created'' (Some (product_value p))) c))"

definition page_reply :: "int \<Rightarrow> ListResult \<Rightarrow> Ctx \<Rightarrow> Ctx" where
  "page_reply limit r =
     OKWithMeta ''success'' (Some (GSlice (map product_value (lr_Items r))))
       (Some (page_meta_value \<lparr>pm_Limit = limit, pm_NextCursor = lr_NextCursor r, pm_HasMore = lr_HasMore r\<rparr>))"

definition bad_cursor :: "Ctx \<Rightarrow> Ctx" where
  "bad_cursor = FailCode 400 ''invalid cursor'' (ErrorCode (Sentinel ErrInvalid))"

definition Product_list :: "Deps \<Rightarrow> handler" where
  "Product_list deps c =
     (case cx_userID c of
        None \<Rightarrow> ret (unauthorized_code c)
      | Some userID \<Rightarrow>
          (case parseCursor (Query c ''cursor'') of
             Inl _ \<Rightarrow> ret (bad_cursor c)
           | Inr cursor \<Rightarrow>
               let limit = queryInt c ''limit'' 20
               in product_reply (Product_List deps userID cursor limit) (page_reply limit) c))"

definition Product_catalog :: "handler" where
  "Product_catalog c =
     (case parseCursor (Query c ''cursor'') of
        Inl _ \<Rightarrow> ret (bad_cursor c)
      | Inr cursor \<Rightarrow>
          let limit = queryInt c ''limit'' 20
          in product_reply (Catalog cursor limit) (page_reply limit) c)"

definition Product_search :: "Deps \<Rightarrow> SearchEngine \<Rightarrow> handler" where
  "Product_search deps engine c =
     product_reply (ProductService_Search deps engine (Query c ''q'') (queryInt c ''limit'' 20))
       (\<lambda>docs. OK ''success''
          (Some (nullable (map_option (\<lambda>ds. GSlice (map document_value ds)) docs)))) c"

definition Product_getByID :: "Deps \<Rightarrow> handler" where
  "Product_getByID deps c =
     (case parseID (Param c ''id'') of
        Inl _ \<Rightarrow> ret (Fail 400 ''invalid id'' c)
      | Inr i \<Rightarrow> product_reply (GetByID deps i) (\<lambda>p. OK ''success'' (Some (product_value p))) c)"

definition no_validation :: "ProductUpdateInput \<Rightarrow> bool" where
  "no_validation r = True"

definition Product_update :: "Deps \<Rightarrow> handler" where
  "Product_update deps c =
     (case cx_userID c of
        None \<Rightarrow> ret (unauthorized_plain c)
      | Some userID \<Rightarrow>
          (case parseID (Param c ''id'') of
             Inl _ \<Rightarrow> ret (Fail 400 ''invalid id'' c)
           | Inr i \<Rightarrow>
               (case BindJSON dec_product_update no_validation c of
                  None \<Rightarrow> ret (Fail 400 ''invalid request body'' c)
                | Some req \<Rightarrow>
                    product_reply (ProductService_Update deps userID i req)
                      (\<lambda>p. OK ''product updated'' (Some (product_value p))) c)))"

definition Product_delete :: "Deps \<Rightarrow> handler" where
  "Product_delete deps c =
     (case cx_userID c of
        None \<Rightarrow> ret (unauthorized_code c)
      | Some userID \<Rightarrow>
          let role = (case cx_userRole c of None \<Rightarrow> [] | Some r \<Rightarrow> r) in
          (case parseID (Param c ''id'') of
             Inl _ \<Rightarrow> ret (Fail 400 ''invalid id'' c)
           | Inr i \<Rightarrow>
               product_reply (ProductService_Delete deps userID role i)
                 (\<lambda>_. OK ''product deleted'' None) c))"

end
