(* ===== verification/Auth_Service.thy ===== *)
theory Auth_Service
  imports Redis Middleware Config
begin

text \<open>
  \<open>internal/http/auth\<close>: \<open>repository.go\<close>, \<open>service.go\<close> and \<open>handler.go\<close>: registration, login,
  rotation of refresh tokens, logout.

  bcrypt is not part of the source: \<open>bcrypt_lib\<close> makes a hash (from a random salt) and
  compares a password with a hash; \<open>bcrypt_ok\<close> states that a password matches the hashes made
  of it.  The store of refresh tokens is the key \<open>refresh:<jti>\<close> in Redis.
\<close>

record bcrypt_lib =
  bc_generate :: "nat \<Rightarrow> string \<Rightarrow> int \<Rightarrow> go_error + string"
  bc_compare :: "string \<Rightarrow> string \<Rightarrow> bool"

definition bcrypt_ok :: "bcrypt_lib \<Rightarrow> bool" where
  "bcrypt_ok B = (\<forall>salt pw cost h. bc_generate B salt pw cost = Inr h \<longrightarrow> bc_compare B h pw)"

text \<open>The salt is fresh randomness.\<close>

definition fresh_salt :: "nat io" where
  "fresh_salt s = (Inr (tick s), tock s)"

section \<open>repository.go\<close>

definition user_refuse :: "UserModel \<Rightarrow> db \<Rightarrow> string option" where
  "user_refuse r d = first_violation
     [check (u_ID r \<notin> set (map u_ID (users d))) duplicate_key,
      check (u_Email r \<notin> set (map u_Email (filter (\<lambda>u. u_DeletedAt u = None) (users d)))) duplicate_key,
      check (char_length (u_Name r) \<le> 120) value_too_long,
      check (char_length (u_Email r) \<le> 180) value_too_long,
      check (char_length (u_PasswordHash r) \<le> 255) value_too_long,
      check (char_length (u_Role r) \<le> 20) value_too_long]"

definition add_user :: "UserModel \<Rightarrow> db \<Rightarrow> db" where
  "add_user r d = d\<lparr>users := users d @ [r]\<rparr>"

definition Auth_isUniqueViolation :: "go_error \<Rightarrow> bool" where
  "Auth_isUniqueViolation err =
     (Contains (error_text err) ''duplicate key'' \<or> Contains (error_text err) ''UNIQUE constraint'')"

definition User_Create :: "(uint \<Rightarrow> time \<Rightarrow> UserModel) \<Rightarrow> UserModel io" where
  "User_Create mk =
     bindE now (\<lambda>t.
     bindE (attempt (insert_row SeqUsers (\<lambda>i. mk i t) user_refuse add_user)) (\<lambda>r.
     case r of
       Inl err \<Rightarrow> throw (if Auth_isUniqueViolation err then Sentinel ErrEmailTaken else err)
     | Inr u \<Rightarrow> ret u))"

definition first_user :: "(UserModel \<Rightarrow> bool) \<Rightarrow> UserModel io" where
  "first_user P =
     bindE (query (\<lambda>d. List.find (\<lambda>u. P u \<and> u_DeletedAt u = None) (users d))) (\<lambda>r.
     case r of None \<Rightarrow> throw (Sentinel ErrNotFound) | Some u \<Rightarrow> ret u)"

definition User_FindByEmail :: "string \<Rightarrow> UserModel io" where
  "User_FindByEmail email = first_user (\<lambda>u. u_Email u = email)"

definition User_FindByID :: "uint \<Rightarrow> UserModel io" where
  "User_FindByID i = first_user (\<lambda>u. u_ID u = i)"

section \<open>service.go\<close>

definition minPasswordLen :: nat where "minPasswordLen = 8"

record AuthDeps =
  ad_jwt :: jwt_lib
  ad_bcrypt :: bcrypt_lib
  ad_cfg :: Config
  ad_cache :: bool

record RegisterInput =
  ri_Name :: string
  ri_Email :: string
  ri_Password :: string

record LoginInput =
  li_Email :: string
  li_Password :: string

definition User_toDomain :: "UserModel \<Rightarrow> User" where
  "User_toDomain m =
     \<lparr>usr_ID = u_ID m, usr_Name = u_Name m, usr_Email = u_Email m, usr_Role = u_Role m,
      usr_PasswordHash = [], usr_CreatedAt = u_CreatedAt m, usr_UpdatedAt = u_UpdatedAt m\<rparr>"

definition refreshKey :: "string \<Rightarrow> string" where
  "refreshKey jti = ''refresh:'' @ jti"

definition storeRefreshJTI :: "AuthDeps \<Rightarrow> string \<Rightarrow> uint \<Rightarrow> unit io" where
  "storeRefreshJTI ad jti userID =
     (if \<not> ad_cache ad \<or> jti = [] then ret ()
      else redis_set (refreshKey jti) (CStr (show_uint userID)) (JWTRefreshTTL (ad_cfg ad)))"

text \<open>\<open>Exists\<close>: how many of the keys are present.\<close>

definition redis_exists :: "string \<Rightarrow> nat io" where
  "redis_exists k = interact (\<lambda>s.
     (Inr (case live (clock (env s) (tick s)) (redis s k) of None \<Rightarrow> 0 | Some _ \<Rightarrow> 1), s))"

definition consumeRefreshJTI :: "AuthDeps \<Rightarrow> string \<Rightarrow> unit io" where
  "consumeRefreshJTI ad jti =
     (if \<not> ad_cache ad then ret ()
      else if jti = [] then throw (Sentinel ErrUnauthorized)
      else
        bindE (redis_exists (refreshKey jti)) (\<lambda>n.
        if n = 0 then throw (Sentinel ErrUnauthorized)
        else redis_del [refreshKey jti]))"

definition revokeRefreshJTI :: "AuthDeps \<Rightarrow> string \<Rightarrow> unit io" where
  "revokeRefreshJTI ad jti =
     (if \<not> ad_cache ad \<or> jti = [] then ret () else redis_del [refreshKey jti])"

text \<open>\<open>jwt.NewNumericDate\<close> cuts an instant to whole seconds.\<close>

definition NewNumericDate :: "time \<Rightarrow> time" where
  "NewNumericDate t = (t div second) * second"

definition issueTokens :: "AuthDeps \<Rightarrow> uint \<Rightarrow> string \<Rightarrow> AuthTokens io" where
  "issueTokens ad userID role =
     bindE now (\<lambda>t.
     bindE (of_sum (jwt_sign (ad_jwt ad) (JWTSecret (ad_cfg ad))
              \<lparr>cl_UserID = userID, cl_Role = role, cl_Type = ''access'', cl_ID = [],
               cl_ExpiresAt = NewNumericDate (t + JWTAccessTTL (ad_cfg ad)),
               cl_IssuedAt = NewNumericDate t\<rparr>)) (\<lambda>access.
     bindE new_uuid (\<lambda>jti.
     bindE (of_sum (jwt_sign (ad_jwt ad) (JWTSecret (ad_cfg ad))
              \<lparr>cl_UserID = userID, cl_Role = role, cl_Type = ''refresh'', cl_ID = jti,
               cl_ExpiresAt = NewNumericDate (t + JWTRefreshTTL (ad_cfg ad)),
               cl_IssuedAt = NewNumericDate t\<rparr>)) (\<lambda>refresh.
     bindE (storeRefreshJTI ad jti userID) (\<lambda>_.
     ret \<lparr>AccessToken = access, RefreshToken = refresh\<rparr>)))))"

definition parseRefresh :: "AuthDeps \<Rightarrow> time \<Rightarrow> string \<Rightarrow> go_error + Claims" where
  "parseRefresh ad t tok =
     (case jwt_parse (ad_jwt ad) (hmac_key (JWTSecret (ad_cfg ad))) t tok of
        Inl e \<Rightarrow> Inl (Sentinel (if Contains (error_text e) token_expired then ErrTokenExpired
                               else ErrUnauthorized))
      | Inr claims \<Rightarrow>
          if cl_Type claims \<noteq> ''refresh'' then Inl (Sentinel ErrUnauthorized) else Inr claims)"

definition Register :: "AuthDeps \<Rightarrow> RegisterInput \<Rightarrow> AuthResult io" where
  "Register ad inp =
     (let name = TrimSpace (ri_Name inp); email = ToLower (TrimSpace (ri_Email inp)) in
      if name = [] \<or> email = [] \<or> length (ri_Password inp) < minPasswordLen
      then throw (Sentinel ErrInvalid)
      else
        bindE fresh_salt (\<lambda>salt.
        bindE (of_sum (bc_generate (ad_bcrypt ad) salt (ri_Password inp) (BcryptCost (ad_cfg ad)))) (\<lambda>hash.
        bindE (User_Create (\<lambda>i t.
                 \<lparr>u_ID = i, u_Name = name, u_Email = email, u_PasswordHash = hash, u_Role = RoleUser,
                  u_CreatedAt = t, u_UpdatedAt = t, u_DeletedAt = None\<rparr>)) (\<lambda>model.
        bindE (issueTokens ad (u_ID model) (u_Role model)) (\<lambda>tokens.
        ret \<lparr>ar_User = User_toDomain model, ar_Tokens = tokens\<rparr>)))))"

definition Login :: "AuthDeps \<Rightarrow> LoginInput \<Rightarrow> AuthResult io" where
  "Login ad inp =
     (let email = ToLower (TrimSpace (li_Email inp)) in
      if email = [] \<or> li_Password inp = [] then throw (Sentinel ErrInvalid)
      else
        bindE (attempt (User_FindByEmail email)) (\<lambda>r.
        case r of
          Inl err \<Rightarrow> throw (if errors_is err ErrNotFound then Sentinel ErrUnauthorized else err)
        | Inr model \<Rightarrow>
            if \<not> bc_compare (ad_bcrypt ad) (u_PasswordHash model) (li_Password inp)
            then throw (Sentinel ErrUnauthorized)
            else
              bindE (issueTokens ad (u_ID model) (u_Role model)) (\<lambda>tokens.
              ret \<lparr>ar_User = User_toDomain model, ar_Tokens = tokens\<rparr>)))"

definition Refresh :: "AuthDeps \<Rightarrow> string \<Rightarrow> AuthTokens io" where
  "Refresh ad tok =
     (if tok = [] then throw (Sentinel ErrInvalid)
      else
        bindE now (\<lambda>t.
        bindE (of_sum (parseRefresh ad t tok)) (\<lambda>claims.
        bindE (consumeRefreshJTI ad (cl_ID claims)) (\<lambda>_.
        bindE (attempt (User_FindByID (cl_UserID claims))) (\<lambda>r.
        case r of
          Inl _ \<Rightarrow> throw (Sentinel ErrUnauthorized)
        | Inr user \<Rightarrow> issueTokens ad (u_ID user) (u_Role user))))))"

definition Logout :: "AuthDeps \<Rightarrow> string \<Rightarrow> unit io" where
  "Logout ad tok =
     (if tok = [] then throw (Sentinel ErrInvalid)
      else
        bindE now (\<lambda>t.
        bindE (of_sum (parseRefresh ad t tok)) (\<lambda>claims.
        revokeRefreshJTI ad (cl_ID claims))))"

definition Me :: "uint \<Rightarrow> User io" where
  "Me userID = bindE (User_FindByID userID) (\<lambda>model. ret (User_toDomain model))"

section \<open>handler.go\<close>

definition user_value :: "User \<Rightarrow> goval" where
  "user_value u =
     GMap [(''id'', GUint (usr_ID u)), (''name'', GStr (usr_Name u)), (''email'', GStr (usr_Email u)),
           (''role'', GStr (usr_Role u)), (''createdAt'', GTime (usr_CreatedAt u)),
           (''updatedAt'', GTime (usr_UpdatedAt u))]"

definition tokens_value :: "AuthTokens \<Rightarrow> goval" where
  "tokens_value t =
     GMap [(''accessToken'', GStr (AccessToken t)), (''refreshToken'', GStr (RefreshToken t))]"

definition auth_result_value :: "AuthResult \<Rightarrow> goval" where
  "auth_result_value r =
     GMap [(''user'', user_value (ar_User r)), (''tokens'', tokens_value (ar_Tokens r))]"

definition dec_register :: "(string \<times> json) list \<Rightarrow> RegisterInput option" where
  "dec_register kjs =
     (case (field dec_string [] ''name'' kjs, field dec_string [] ''email'' kjs,
            field dec_string [] ''password'' kjs) of
        (Some n, Some e, Some p) \<Rightarrow> Some \<lparr>ri_Name = n, ri_Email = e, ri_Password = p\<rparr>
      | _ \<Rightarrow> None)"

definition valid_register :: "validators \<Rightarrow> RegisterInput \<Rightarrow> bool" where
  "valid_register v r =
     (ri_Name r \<noteq> [] \<and> ri_Email r \<noteq> [] \<and> v_email v (ri_Email r)
      \<and> ri_Password r \<noteq> [] \<and> 8 \<le> char_length (ri_Password r))"

definition dec_login :: "(string \<times> json) list \<Rightarrow> LoginInput option" where
  "dec_login kjs =
     (case (field dec_string [] ''email'' kjs, field dec_string [] ''password'' kjs) of
        (Some e, Some p) \<Rightarrow> Some \<lparr>li_Email = e, li_Password = p\<rparr>
      | _ \<Rightarrow> None)"

definition valid_login :: "validators \<Rightarrow> LoginInput \<Rightarrow> bool" where
  "valid_login v r = (li_Email r \<noteq> [] \<and> v_email v (li_Email r) \<and> li_Password r \<noteq> [])"

definition dec_refresh :: "(string \<times> json) list \<Rightarrow> string option" where
  "dec_refresh kjs = field dec_string [] ''refreshToken'' kjs"

definition valid_refresh :: "string \<Rightarrow> bool" where
  "valid_refresh tok = (tok \<noteq> [])"

definition auth_mapErr :: "go_error \<Rightarrow> Ctx \<Rightarrow> Ctx" where
  "auth_mapErr err =
     (let code = ErrorCode err in
      if errors_is err ErrInvalid then FailCode 400 (error_text err) code
      else if errors_is err ErrUnauthorized \<or> errors_is err ErrTokenExpired
      then FailCode 401 (error_text err) code
      else if errors_is err ErrEmailTaken then FailCode 409 (error_text err) code
      else if errors_is err ErrNotFound then FailCode 404 (error_text err) code
      else if errors_is err ErrForbidden then FailCode 403 (error_text err) code
      else FailCode 500 ''internal error'' code)"

definition auth_reply :: "'a io \<Rightarrow> ('a \<Rightarrow> Ctx \<Rightarrow> Ctx) \<Rightarrow> handler" where
  "auth_reply operation reply c =
     bindE (attempt operation) (\<lambda>r.
     case r of Inl err \<Rightarrow> ret (auth_mapErr err c) | Inr a \<Rightarrow> ret (reply a c))"

definition bad_body :: "Ctx \<Rightarrow> Ctx" where
  "bad_body = Fail 400 ''invalid request body''"

definition Auth_register :: "validators \<Rightarrow> AuthDeps \<Rightarrow> handler" where
  "Auth_register v ad c =
     (case BindJSON dec_register (valid_register v) c of
        None \<Rightarrow> ret (bad_body c)
      | Some req \<Rightarrow>
          auth_reply (Register ad req) (\<lambda>r. Created ''registered'' (Some (auth_result_value r))) c)"

definition Auth_login :: "validators \<Rightarrow> AuthDeps \<Rightarrow> handler" where
  "Auth_login v ad c =
     (case BindJSON dec_login (valid_login v) c of
        None \<Rightarrow> ret (bad_body c)
      | Some req \<Rightarrow>
          auth_reply (Login ad req) (\<lambda>r. OK ''login success'' (Some (auth_result_value r))) c)"

definition Auth_refresh :: "AuthDeps \<Rightarrow> handler" where
  "Auth_refresh ad c =
     (case BindJSON dec_refresh valid_refresh c of
        None \<Rightarrow> ret (bad_body c)
      | Some tok \<Rightarrow>
          auth_reply (Refresh ad tok) (\<lambda>t. OK ''token refreshed'' (Some (tokens_value t))) c)"

definition Auth_logout :: "AuthDeps \<Rightarrow> handler" where
  "Auth_logout ad c =
     (case BindJSON dec_refresh valid_refresh c of
        None \<Rightarrow> ret (bad_body c)
      | Some tok \<Rightarrow> auth_reply (Logout ad tok) (\<lambda>_. OK ''logged out'' None) c)"

definition Auth_me :: "handler" where
  "Auth_me c =
     (case cx_userID c of
        None \<Rightarrow> ret (Fail 401 (error_text (Sentinel ErrUnauthorized)) c)
      | Some userID \<Rightarrow> auth_reply (Me userID) (\<lambda>u. OK ''success'' (Some (user_value u))) c)"

end
