(* ===== verification/Wishlist.thy ===== *)
theory Wishlist
  imports Product_Handler
begin

text \<open>
  \<open>internal/http/wishlist\<close>: \<open>repository.go\<close>, \<open>service.go\<close> and \<open>handler.go\<close>.  The count of a
  user's wishes is cached in Redis as a decimal.
\<close>

section \<open>repository.go\<close>

record Item =
  item_ID :: uint
  item_ProductID :: uint
  item_ProductName :: string
  item_Price :: float64
  item_Note :: string
  item_CreatedAt :: time

definition wish_key :: "WishlistModel \<Rightarrow> uint \<times> uint" where
  "wish_key w = (w_UserID w, w_ProductID w)"

definition wish_refuse :: "WishlistModel \<Rightarrow> db \<Rightarrow> string option" where
  "wish_refuse r d = first_violation
     [check (w_ID r \<notin> set (map w_ID (wishlists d))) duplicate_key,
      check (wish_key r \<notin> set (map wish_key (wishlists d))) duplicate_key,
      check (char_length (w_Note r) \<le> 255) value_too_long,
      check (w_UserID r \<in> set (map u_ID (users d))) foreign_key,
      check (w_ProductID r \<in> set (map p_ID (products d))) foreign_key]"

definition add_wish :: "WishlistModel \<Rightarrow> db \<Rightarrow> db" where
  "add_wish r d = d\<lparr>wishlists := wishlists d @ [r]\<rparr>"

definition Wishlist_isUniqueViolation :: "go_error \<Rightarrow> bool" where
  "Wishlist_isUniqueViolation err =
     (let msg = ToLower (error_text err) in Contains msg ''duplicate key'' \<or> Contains msg ''unique'')"

definition Wish_Create :: "(uint \<Rightarrow> time \<Rightarrow> WishlistModel) \<Rightarrow> WishlistModel io" where
  "Wish_Create mk =
     bindE now (\<lambda>t.
     bindE (attempt (insert_row SeqWishlists (\<lambda>i. mk i t) wish_refuse add_wish)) (\<lambda>r.
     case r of
       Inl err \<Rightarrow> throw (if Wishlist_isUniqueViolation err then Sentinel ErrConflict else err)
     | Inr w \<Rightarrow> ret w))"

definition Wish_ListByUser :: "uint \<Rightarrow> WishlistModel list io" where
  "Wish_ListByUser userID =
     query (\<lambda>d. rev (sort_key (\<lambda>w. unat (w_ID w)) (filter (\<lambda>w. w_UserID w = userID) (wishlists d))))"

definition Wish_Delete :: "uint \<Rightarrow> uint \<Rightarrow> unit io" where
  "Wish_Delete userID i =
     bindE (sql (\<lambda>_ d.
       let sel = (\<lambda>w. w_ID w = i \<and> w_UserID w = userID) in
       Inr (length (filter sel (wishlists d)),
            d\<lparr>wishlists := filter (\<lambda>w. \<not> sel w) (wishlists d)\<rparr>))) (\<lambda>n.
     if n = 0 then throw (Sentinel ErrNotFound) else ret ())"

definition CountByUser :: "uint \<Rightarrow> int io" where
  "CountByUser userID =
     query (\<lambda>d. int (length (filter (\<lambda>w. w_UserID w = userID) (wishlists d))))"

section \<open>service.go\<close>

definition countKey :: "uint \<Rightarrow> string" where
  "countKey userID = ''wishlist:count:'' @ show_uint userID"

definition invalidateCountCache :: "Deps \<Rightarrow> uint \<Rightarrow> unit io" where
  "invalidateCountCache deps userID =
     (if \<not> has_redis deps then ret () else redis_del [countKey userID])"

definition toItem :: "WishlistModel \<Rightarrow> string \<Rightarrow> float64 \<Rightarrow> Item" where
  "toItem row name price =
     \<lparr>item_ID = w_ID row, item_ProductID = w_ProductID row, item_ProductName = name,
      item_Price = price, item_Note = w_Note row, item_CreatedAt = w_CreatedAt row\<rparr>"

definition Wishlist_Add :: "Deps \<Rightarrow> uint \<Rightarrow> uint \<Rightarrow> string \<Rightarrow> Item io" where
  "Wishlist_Add deps userID productID note =
     (if productID = 0 then throw (Sentinel ErrInvalid)
      else
        bindE (Product_FindByID productID) (\<lambda>prod.
        bindE (Wish_Create (\<lambda>i t.
                 \<lparr>w_ID = i, w_UserID = userID, w_ProductID = productID, w_Note = TrimSpace note,
                  w_CreatedAt = t\<rparr>)) (\<lambda>row.
        bindE (ignore (invalidateCountCache deps userID)) (\<lambda>_.
        ret (toItem row (p_Name prod) (p_Price prod))))))"

fun wish_items :: "WishlistModel list \<Rightarrow> Item list io" where
  "wish_items [] = ret []"
| "wish_items (row # rows) =
     bindE (attempt (Product_FindByID (w_ProductID row))) (\<lambda>r.
     bindE (wish_items rows) (\<lambda>rest.
     ret ((case r of
             Inr p \<Rightarrow> toItem row (p_Name p) (p_Price p)
           | Inl _ \<Rightarrow> toItem row [] f64_zero) # rest)))"

definition Wishlist_List :: "uint \<Rightarrow> Item list io" where
  "Wishlist_List userID = bindE (Wish_ListByUser userID) wish_items"

definition Wishlist_Remove :: "Deps \<Rightarrow> uint \<Rightarrow> uint \<Rightarrow> unit io" where
  "Wishlist_Remove deps userID i =
     bindE (Wish_Delete userID i) (\<lambda>_. ignore (invalidateCountCache deps userID))"

definition cached_count :: "Deps \<Rightarrow> uint \<Rightarrow> int option io" where
  "cached_count deps userID =
     (if \<not> has_redis deps then ret None
      else bindE (attempt (redis_get (countKey userID))) (\<lambda>r.
           ret (case r of Inr (CStr raw) \<Rightarrow> Atoi raw | _ \<Rightarrow> None)))"

definition Wishlist_Count :: "Deps \<Rightarrow> uint \<Rightarrow> int io" where
  "Wishlist_Count deps userID =
     bindE (cached_count deps userID) (\<lambda>cached.
     case cached of
       Some n \<Rightarrow> ret n
     | None \<Rightarrow>
         bindE (CountByUser userID) (\<lambda>n.
         bindE (if has_redis deps
                then ignore (redis_set (countKey userID) (CStr (show_int n)) (cache_ttl deps))
                else ret ()) (\<lambda>_.
         ret n)))"

section \<open>handler.go\<close>

definition item_value :: "Item \<Rightarrow> goval" where
  "item_value it =
     GMap ([(''id'', GUint (item_ID it)), (''productId'', GUint (item_ProductID it))]
           @ omit_empty ''productName'' (item_ProductName it)
           @ (if item_Price it = f64_zero then [] else [(''price'', GFloat (item_Price it))])
           @ omit_empty ''note'' (item_Note it)
           @ [(''createdAt'', GTime (item_CreatedAt it))])"

record AddRequest =
  ar_ProductID :: uint
  ar_Note :: string

definition dec_add_request :: "(string \<times> json) list \<Rightarrow> AddRequest option" where
  "dec_add_request kjs =
     (case (field dec_uint 0 ''productId'' kjs, field dec_string [] ''note'' kjs) of
        (Some i, Some n) \<Rightarrow> Some \<lparr>ar_ProductID = i, ar_Note = n\<rparr>
      | _ \<Rightarrow> None)"

definition wishlist_mapErr :: "go_error \<Rightarrow> Ctx \<Rightarrow> Ctx" where
  "wishlist_mapErr err =
     (if errors_is err ErrNotFound then FailCode 404 (error_text err) (ErrorCode err)
      else if errors_is err ErrInvalid then FailCode 400 (error_text err) (ErrorCode err)
      else if errors_is err ErrConflict then FailCode 409 ''product already in wishlist'' (ErrorCode err)
      else Fail 500 ''internal error'')"

definition wishlist_reply :: "'a io \<Rightarrow> ('a \<Rightarrow> Ctx \<Rightarrow> Ctx) \<Rightarrow> handler" where
  "wishlist_reply operation reply c =
     bindE (attempt operation) (\<lambda>r.
     case r of Inl err \<Rightarrow> ret (wishlist_mapErr err c) | Inr a \<Rightarrow> ret (reply a c))"

definition Wishlist_add :: "Deps \<Rightarrow> handler" where
  "Wishlist_add deps c =
     (case cx_userID c of
        None \<Rightarrow> ret (unauthorized_code c)
      | Some userID \<Rightarrow>
          (case BindJSON dec_add_request (\<lambda>_. True) c of
             None \<Rightarrow> ret (Fail 400 ''invalid request body'' c)
           | Some req \<Rightarrow>
               wishlist_reply (Wishlist_Add deps userID (ar_ProductID req) (ar_Note req))
                 (\<lambda>it. Created ''added to wishlist'' (Some (item_value it))) c))"

definition Wishlist_list :: "handler" where
  "Wishlist_list c =
     (case cx_userID c of
        None \<Rightarrow> ret (unauthorized_code c)
      | Some userID \<Rightarrow>
          wishlist_reply (Wishlist_List userID)
            (\<lambda>its. OK ''success'' (Some (GSlice (map item_value its)))) c)"

definition Wishlist_count :: "Deps \<Rightarrow> handler" where
  "Wishlist_count deps c =
     (case cx_userID c of
        None \<Rightarrow> ret (unauthorized_code c)
      | Some userID \<Rightarrow>
          wishlist_reply (Wishlist_Count deps userID)
            (\<lambda>n. OK ''success'' (Some (GMap [(''count'', GInt64 n)]))) c)"

definition Wishlist_remove :: "Deps \<Rightarrow> handler" where
  "Wishlist_remove deps c =
     (case cx_userID c of
        None \<Rightarrow> ret (unauthorized_code c)
      | Some userID \<Rightarrow>
          (case ParseUint (Param c ''id'') of
             None \<Rightarrow> ret (Fail 400 ''invalid id'' c)
           | Some i \<Rightarrow>
               wishlist_reply (Wishlist_Remove deps userID i)
                 (\<lambda>_. OK ''removed from wishlist'' None) c))"

end
