(* ===== verification/Typesense.thy ===== *)
theory Typesense
  imports Product_Service
begin

text \<open>
  \<open>internal/platform/typesense/typesense.go\<close>: the search client.

  The Typesense server and the circuit breaker are not part of the source.  \<open>ts_server\<close> has
  the requests of the client, each as the breaker runs it: the request's result, or its
  error, or the breaker's own error while it is open (\<open>breaker_open\<close>).  A hit is the map of
  its document, or nil.  \<open>fmt.Sprint\<close> on values that are neither strings nor numbers and the
  parsing of a decimal fraction by \<open>strconv.ParseFloat\<close> are the parameters \<open>ts_sprint\<close> and
  \<open>ts_parse_float\<close> (its value, 0 on a syntax error).
\<close>

record ts_server =
  ts_upsert :: "ProductDocument \<Rightarrow> unit io"
  ts_delete :: "string \<Rightarrow> unit io"
  ts_search :: "string \<Rightarrow> int \<Rightarrow> (string \<times> goval) list option list option io"
  ts_collections :: "unit io"
  ts_retrieve :: "int option io"
  ts_create :: "unit io"
  ts_sprint :: "goval \<Rightarrow> string"
  ts_parse_float :: "string \<Rightarrow> float64"

definition EnsureProductsCollection :: "ts_server \<Rightarrow> unit io" where
  "EnsureProductsCollection ts =
     bindE (attempt (ts_create ts)) (\<lambda>r.
     case r of
       Inr _ \<Rightarrow> ret ()
     | Inl err \<Rightarrow>
         let msg = ToLower (error_text err) in
         if Contains msg ''already exists'' \<or> Contains msg ''conflict'' then ret () else throw err)"

definition BootstrapSchemas :: "ts_server \<Rightarrow> unit io" where
  "BootstrapSchemas ts = EnsureProductsCollection ts"

text \<open>\<open>strconv.Itoa(int(id))\<close>: the id read as a signed 64-bit number.\<close>

definition document_id :: "uint \<Rightarrow> string" where
  "document_id i = show_int (sint i)"

definition Client_IndexProduct :: "ts_server \<Rightarrow> Product \<Rightarrow> unit io" where
  "Client_IndexProduct ts p =
     bindE (EnsureProductsCollection ts) (\<lambda>_.
     ts_upsert ts
       \<lparr>pd_ID = document_id (pr_ID p), pd_UserID = pr_UserID p, pd_Name = pr_Name p,
        pd_Description = pr_Description p, pd_Price = pr_Price p\<rparr>)"

definition Client_DeleteProduct :: "ts_server \<Rightarrow> uint \<Rightarrow> unit io" where
  "Client_DeleteProduct ts i = ts_delete ts (document_id i)"

definition isCollectionMissing :: "go_error \<Rightarrow> bool" where
  "isCollectionMissing err =
     (let msg = ToLower (error_text err) in
      Contains msg ''collection not found'' \<or> Contains msg ''not found'' \<and> Contains msg ''404'')"

text \<open>\<open>int64(t)\<close> of a \<open>float64\<close>: towards zero, implementation-defined out of range.\<close>

definition f64_to_int64 :: "(float64 \<Rightarrow> int) \<Rightarrow> float64 \<Rightarrow> int" where
  "f64_to_int64 conv x =
     (case x of
        Fin m e \<Rightarrow>
          let v = f64_trunc m e
          in if - (2 ^ 63) \<le> v \<and> v < 2 ^ 63 then v else conv x
      | _ \<Rightarrow> conv x)"

definition asString :: "ts_server \<Rightarrow> (float64 \<Rightarrow> int) \<Rightarrow> goval \<Rightarrow> string" where
  "asString ts conv v =
     (case v of
        GStr t \<Rightarrow> t
      | GFloat t \<Rightarrow> show_int (f64_to_int64 conv t)
      | _ \<Rightarrow> ts_sprint ts v)"

definition asUint_doc :: "(float64 \<Rightarrow> uint) \<Rightarrow> goval \<Rightarrow> uint" where
  "asUint_doc conv v =
     (case v of
        GFloat t \<Rightarrow> f64_to_uint conv t
      | GInt t \<Rightarrow> of_int t
      | GStr t \<Rightarrow> of_int (Atoi_value t)
      | _ \<Rightarrow> 0)"

definition asFloat :: "ts_server \<Rightarrow> goval \<Rightarrow> float64" where
  "asFloat ts v =
     (case v of
        GFloat t \<Rightarrow> t
      | GInt t \<Rightarrow> f64_of_int t
      | GStr t \<Rightarrow> ts_parse_float ts t
      | _ \<Rightarrow> f64_of_int 0)"

definition hit_document :: "ts_server \<Rightarrow> (float64 \<Rightarrow> uint) \<Rightarrow> (string \<times> goval) list \<Rightarrow> ProductDocument" where
  "hit_document ts conv m =
     \<lparr>pd_ID = asString ts (\<lambda>x. sint (conv x)) (lookup m ''id''),
      pd_UserID = asUint_doc conv (lookup m ''userId''),
      pd_Name = asString ts (\<lambda>x. sint (conv x)) (lookup m ''name''),
      pd_Description = asString ts (\<lambda>x. sint (conv x)) (lookup m ''description''),
      pd_Price = asFloat ts (lookup m ''price'')\<rparr>"

fun hit_documents :: "ts_server \<Rightarrow> (float64 \<Rightarrow> uint) \<Rightarrow> (string \<times> goval) list option list \<Rightarrow> ProductDocument list" where
  "hit_documents ts conv [] = []"
| "hit_documents ts conv (None # hits) = hit_documents ts conv hits"
| "hit_documents ts conv (Some m # hits) = hit_document ts conv m # hit_documents ts conv hits"

text \<open>\<open>searchOnce\<close>: a nil slice (\<open>None\<close>) when no document was found.\<close>

definition searchOnce :: "ts_server \<Rightarrow> string \<Rightarrow> int \<Rightarrow> ProductDocument list option io" where
  "searchOnce ts q limit =
     bindE get_uint_conv (\<lambda>conv.
     bindE (ts_search ts q limit) (\<lambda>res.
     ret (case res of
            None \<Rightarrow> None
          | Some hits \<Rightarrow>
              (let docs = hit_documents ts conv hits in if docs = [] then None else Some docs))))"

definition search_error :: "go_error \<Rightarrow> go_error" where
  "search_error err = wrap ErrUnavailable (error_text err)"

text \<open>The breaker's own errors.\<close>

definition breaker_open :: "go_error \<Rightarrow> bool" where
  "breaker_open err = (error_text err \<in> {''circuit breaker is open'', ''too many requests''})"

definition search_failed :: "go_error \<Rightarrow> ProductDocument list option io" where
  "search_failed err =
     throw (if breaker_open err then Sentinel ErrUnavailable else search_error err)"

definition Client_Search :: "ts_server \<Rightarrow> string \<Rightarrow> int \<Rightarrow> ProductDocument list option io" where
  "Client_Search ts q limit =
     (let limit = (if limit \<le> 0 \<or> 100 < limit then 20 else limit) in
      bindE (attempt (searchOnce ts q limit)) (\<lambda>r.
      case r of
        Inr docs \<Rightarrow> ret docs
      | Inl err \<Rightarrow>
          if isCollectionMissing err then
            bindE (attempt (EnsureProductsCollection ts)) (\<lambda>e.
            case e of
              Inl e \<Rightarrow> throw (search_error e)
            | Inr _ \<Rightarrow>
                bindE (attempt (searchOnce ts q limit)) (\<lambda>r.
                case r of
                  Inr docs \<Rightarrow> ret docs
                | Inl err \<Rightarrow>
                    if isCollectionMissing err then ret (Some []) else search_failed err))
          else search_failed err))"

definition Client_Ping :: "ts_server \<Rightarrow> unit io" where
  "Client_Ping ts = ts_collections ts"

record CollectionStats =
  cs_Name :: string
  cs_NumDocuments :: int
  cs_Exists :: bool

definition indexName :: string where "indexName = ''products''"

definition Client_Stats :: "ts_server \<Rightarrow> CollectionStats io" where
  "Client_Stats ts =
     bindE (attempt (ts_retrieve ts)) (\<lambda>r.
     ret (case r of
            Inl _ \<Rightarrow> \<lparr>cs_Name = indexName, cs_NumDocuments = 0, cs_Exists = False\<rparr>
          | Inr n \<Rightarrow> \<lparr>cs_Name = indexName,
                      cs_NumDocuments = (case n of None \<Rightarrow> 0 | Some k \<Rightarrow> k), cs_Exists = True\<rparr>))"

text \<open>The engine of the product service.\<close>

definition typesense_engine :: "ts_server \<Rightarrow> SearchEngine" where
  "typesense_engine ts =
     \<lparr>IndexProduct = Client_IndexProduct ts, DeleteProduct = Client_DeleteProduct ts,
      engine_Search = Client_Search ts\<rparr>"

section \<open>Correctness\<close>

text \<open>Whatever the search server does, a failed search is reported as unavailable, so that the
  handler answers 503.\<close>

lemma Client_Search_unavailable: "fails_with (\<lambda>e. errors_is e ErrUnavailable) (Client_Search ts q limit)"
  unfolding Client_Search_def search_failed_def search_error_def Let_def
  by (intro fails_intro) simp_all

end
