(* ===== verification/Lab.thy ===== *)
theory Lab
  imports Outbox Audit_Worker Typesense Order_Service
begin

text \<open>
  \<open>internal/http/lab\<close>: \<open>service.go\<close> and \<open>handler.go\<close>, the operator endpoints that look into each
  dependency, drive the relay and rebuild the search index.

  The optional dependencies are flags or options of \<open>LabDeps\<close>.  Two commands of Redis that
  no other part uses (\<open>PING\<close>, \<open>KEYS *\<close>) are parameters; \<open>TTL\<close> is written out.  \<open>ld_text\<close> gives
  the bytes that Redis holds for a value.
\<close>

section \<open>Dependencies\<close>

record LabSearch =
  ls_IndexProduct :: "Product \<Rightarrow> unit io"
  ls_Search :: "string \<Rightarrow> int \<Rightarrow> ProductDocument list option io"
  ls_Stats :: "CollectionStats io"
  ls_Ensure :: "unit io"

definition typesense_lab :: "ts_server \<Rightarrow> LabSearch" where
  "typesense_lab ts =
     \<lparr>ls_IndexProduct = Client_IndexProduct ts, ls_Search = Client_Search ts,
      ls_Stats = Client_Stats ts, ls_Ensure = EnsureProductsCollection ts\<rparr>"

record LabDeps =
  ld_cache :: bool
  ld_audit :: bool
  ld_publisher :: bool
  ld_search :: "LabSearch option"
  ld_relay :: "bool option"
  ld_cfg :: Config
  ld_redis_ping :: "unit io"
  ld_redis_keys :: "string list io"
  ld_text :: "cval \<Rightarrow> string"

section \<open>PostgreSQL\<close>

record PostgresSummary =
  ps_Users :: int
  ps_Products :: int
  ps_Wishlists :: int
  ps_Orders :: int

definition count_rows :: "(db \<Rightarrow> 'r list) \<Rightarrow> int io" where
  "count_rows table = query (\<lambda>d. int (length (table d)))"

definition live_users :: "db \<Rightarrow> UserModel list" where
  "live_users d = filter (\<lambda>u. u_DeletedAt u = None) (users d)"

definition live_products :: "db \<Rightarrow> ProductModel list" where
  "live_products d = filter live_product (products d)"

definition Lab_PostgresSummary :: "PostgresSummary io" where
  "Lab_PostgresSummary =
     bindE (count_rows live_users) (\<lambda>us.
     bindE (count_rows live_products) (\<lambda>ps.
     bindE (count_rows wishlists) (\<lambda>ws.
     bindE (attempt (count_rows orders)) (\<lambda>os.
     ret \<lparr>ps_Users = us, ps_Products = ps, ps_Wishlists = ws,
          ps_Orders = (case os of Inl _ \<Rightarrow> 0 | Inr n \<Rightarrow> n)\<rparr>))))"

record SampleProduct =
  sp_ID :: uint
  sp_Name :: string
  sp_Price :: float64
  sp_Stock :: int
  sp_Email :: string

text \<open>The join: a product appears once for each user with the id of its owner.\<close>

definition sample_rows :: "db \<Rightarrow> SampleProduct list" where
  "sample_rows d =
     concat (map (\<lambda>p. map (\<lambda>u. \<lparr>sp_ID = p_ID p, sp_Name = p_Name p, sp_Price = p_Price p,
                                sp_Stock = p_Stock p, sp_Email = u_Email u\<rparr>)
                      (filter (\<lambda>u. u_ID u = p_UserID p) (users d)))
             (newest_first (live_products d)))"

definition Lab_PostgresSamples :: "int \<Rightarrow> SampleProduct list io" where
  "Lab_PostgresSamples limit =
     (let limit = (if limit \<le> 0 \<or> 50 < limit then 10 else limit)
      in query (\<lambda>d. take (nat limit) (sample_rows d)))"

section \<open>Redis\<close>

record RedisSummary =
  rs_Connected :: bool
  rs_SampleKeys :: "string list"

definition Lab_RedisSummary :: "LabDeps \<Rightarrow> RedisSummary io" where
  "Lab_RedisSummary ld =
     (if \<not> ld_cache ld then ret \<lparr>rs_Connected = False, rs_SampleKeys = []\<rparr>
      else
        bindE (attempt (ld_redis_ping ld)) (\<lambda>r.
        case r of
          Inl _ \<Rightarrow> ret \<lparr>rs_Connected = False, rs_SampleKeys = []\<rparr>
        | Inr _ \<Rightarrow>
            bindE (attempt (ld_redis_keys ld)) (\<lambda>r.
            ret \<lparr>rs_Connected = True,
                 rs_SampleKeys = (case r of Inl _ \<Rightarrow> [] | Inr keys \<Rightarrow> take 20 keys)\<rparr>)))"

text \<open>\<open>TTL\<close>: the rest of the time to live in whole seconds, -1 (as a \<open>Duration\<close>, a nanosecond)
  for a key that does not expire, -2 for a missing key; 0 on an error.\<close>

definition redis_ttl :: "string \<Rightarrow> duration io" where
  "redis_ttl k = interact (\<lambda>s.
     let t = clock (env s) (tick s) in
     (Inr (case live t (redis s k) of
             None \<Rightarrow> - 2
           | Some _ \<Rightarrow>
               (case redis s k of
                  Some (_, Some x) \<Rightarrow> ((x - t + second div 2) div second) * second
                | _ \<Rightarrow> - 1)), s))"

text \<open>\<open>Duration.String\<close> on these values.\<close>

definition show_ttl :: "duration \<Rightarrow> string" where
  "show_ttl d =
     (if d < 0 then show_int d @ ''ns''
      else
        let s = d div second; h = s div 3600; m = s div 60 mod 60; sec = show_int (s mod 60) @ ''s''
        in if 0 < h then show_int h @ ''h'' @ show_int m @ ''m'' @ sec
           else if 0 < m then show_int m @ ''m'' @ sec
           else sec)"

record CachePeek =
  cp_Key :: string
  cp_Hit :: bool
  cp_TTL :: string
  cp_Product :: "Product option"
  cp_Raw :: string

definition PeekProductCache :: "LabDeps \<Rightarrow> uint \<Rightarrow> CachePeek io" where
  "PeekProductCache ld i =
     (let key = productCacheKey i;
          out = \<lparr>cp_Key = key, cp_Hit = False, cp_TTL = [], cp_Product = None, cp_Raw = []\<rparr>
      in if \<not> ld_cache ld then ret out
         else
           bindE (attempt (redis_ttl key)) (\<lambda>r.
           let out = out\<lparr>cp_TTL := show_ttl (case r of Inl _ \<Rightarrow> 0 | Inr d \<Rightarrow> d)\<rparr> in
           bindE (attempt (redis_get key)) (\<lambda>r.
           case r of
             Inl err \<Rightarrow> if err = redis_nil then ret out else throw err
           | Inr raw \<Rightarrow>
               ret (out\<lparr>cp_Hit := True, cp_Raw := ld_text ld raw,
                        cp_Product := (case raw of CProduct p \<Rightarrow> Some p | _ \<Rightarrow> None)\<rparr>))))"

text \<open>\<open>Del\<close> counts the keys that were present.\<close>

definition redis_del_count :: "string \<Rightarrow> int io" where
  "redis_del_count k = interact (\<lambda>s.
     (Inr (case live (clock (env s) (tick s)) (redis s k) of None \<Rightarrow> 0 | Some _ \<Rightarrow> 1),
      s\<lparr>redis := (redis s)(k := None)\<rparr>))"

definition em_dash :: string where
  "em_dash = map char_of [0xE2, 0x80, 0x94 :: nat]"

definition InvalidateProductCache :: "LabDeps \<Rightarrow> uint \<Rightarrow> goval io" where
  "InvalidateProductCache ld i =
     (let key = productCacheKey i in
      if \<not> ld_cache ld then ret (GMap [(''deleted'', GInt 0), (''key'', GStr key)])
      else
        bindE (redis_del_count key) (\<lambda>n.
        ret (GMap [(''deleted'', GInt64 n), (''key'', GStr key),
                   (''lesson'', GStr ''Setelah invalidate, GET /products/:id berikutnya harus miss cache lalu isi ulang dari Postgres.'')])))"

section \<open>MongoDB\<close>

definition Lab_MongoSummary :: "LabDeps \<Rightarrow> int io" where
  "Lab_MongoSummary ld = (if \<not> ld_audit ld then ret 0 else bindE Audit_Count (\<lambda>n. ret (int n)))"

definition MongoEvents :: "LabDeps \<Rightarrow> int \<Rightarrow> AuditRecord list io" where
  "MongoEvents ld limit = (if \<not> ld_audit ld then ret [] else ListRecent limit)"

section \<open>Kafka\<close>

record KafkaPingResult =
  kp_EventID :: string
  kp_Type :: string
  kp_Topic :: string

definition KafkaPing :: "LabDeps \<Rightarrow> uint \<Rightarrow> KafkaPingResult io" where
  "KafkaPing ld userID =
     (if \<not> ld_publisher ld then throw (Sentinel ErrUnavailable)
      else
        bindE now (\<lambda>t.
        bindE (NewEvent ''lab.ping''
                 [(''userId'', GUint userID), (''message'', GStr ''hello from /api/v1/lab/kafka/ping''),
                  (''at'', GTime t)]) (\<lambda>evt.
        bindE (Publish (show_uint userID) evt) (\<lambda>_.
        ret \<lparr>kp_EventID = e_ID evt, kp_Type = e_Type evt,
             kp_Topic = KafkaTopicProducts (ld_cfg ld)\<rparr>))))"

section \<open>Typesense\<close>

record TypesenseLab =
  tl_Stats :: CollectionStats
  tl_Query :: string
  tl_Results :: "ProductDocument list"

definition TypesenseExplore :: "LabDeps \<Rightarrow> string \<Rightarrow> TypesenseLab io" where
  "TypesenseExplore ld q =
     (case ld_search ld of
        None \<Rightarrow> throw (Sentinel ErrUnavailable)
      | Some search \<Rightarrow>
          bindE (ls_Stats search) (\<lambda>stats.
          if q = [] then ret \<lparr>tl_Stats = stats, tl_Query = q, tl_Results = []\<rparr>
          else
            bindE (ls_Search search q 10) (\<lambda>docs.
            ret \<lparr>tl_Stats = stats, tl_Query = q,
                 tl_Results = (case docs of None \<Rightarrow> [] | Some ds \<Rightarrow> ds)\<rparr>)))"

record ReindexResult =
  rx_Indexed :: int
  rx_Failed :: int

fun reindex_each :: "LabSearch \<Rightarrow> ProductModel list \<Rightarrow> ReindexResult \<Rightarrow> ReindexResult io" where
  "reindex_each search [] res = ret res"
| "reindex_each search (m # ms) res =
     bindE (attempt (ls_IndexProduct search (Product_toDomain m))) (\<lambda>r.
     case r of
       Inl _ \<Rightarrow> reindex_each search ms (res\<lparr>rx_Failed := rx_Failed res + 1\<rparr>)
     | Inr _ \<Rightarrow> reindex_each search ms (res\<lparr>rx_Indexed := rx_Indexed res + 1\<rparr>))"

definition TypesenseReindex :: "LabDeps \<Rightarrow> ReindexResult io" where
  "TypesenseReindex ld =
     (case ld_search ld of
        None \<Rightarrow> throw (Sentinel ErrUnavailable)
      | Some search \<Rightarrow>
          bindE (ls_Ensure search) (\<lambda>_.
          bindE (query live_products) (\<lambda>models.
          reindex_each search models \<lparr>rx_Indexed = 0, rx_Failed = 0\<rparr>)))"

definition BootstrapTypesense :: "LabDeps \<Rightarrow> unit io" where
  "BootstrapTypesense ld =
     (case ld_search ld of
        None \<Rightarrow> ret ()
      | Some search \<Rightarrow>
          bindE (ls_Ensure search) (\<lambda>_.
          bindE (ls_Stats search) (\<lambda>stats.
          if 0 < cs_NumDocuments stats then ret ()
          else
            bindE (count_rows live_products) (\<lambda>n.
            if n = 0 then ret ()
            else bindE (TypesenseReindex ld) (\<lambda>_. ret ())))))"

section \<open>Overview and failure matrix\<close>

record Overview =
  ov_Postgres :: PostgresSummary
  ov_Redis :: RedisSummary
  ov_Mongo :: int
  ov_Brokers :: "string list"
  ov_TopicProducts :: string
  ov_TopicDLQ :: string
  ov_Typesense :: CollectionStats

definition Lab_Overview :: "LabDeps \<Rightarrow> Overview io" where
  "Lab_Overview ld =
     bindE Lab_PostgresSummary (\<lambda>pg.
     bindE (Lab_RedisSummary ld) (\<lambda>rd.
     bindE (Lab_MongoSummary ld) (\<lambda>mg.
     let none = \<lparr>cs_Name = ''products'', cs_NumDocuments = 0, cs_Exists = False\<rparr> in
     bindE (case ld_search ld of
              None \<Rightarrow> ret none
            | Some search \<Rightarrow>
                bindE (attempt (ls_Stats search)) (\<lambda>r.
                ret (case r of Inl _ \<Rightarrow> none | Inr st \<Rightarrow> st))) (\<lambda>ts.
     ret \<lparr>ov_Postgres = pg, ov_Redis = rd, ov_Mongo = mg, ov_Brokers = KafkaBrokers (ld_cfg ld),
          ov_TopicProducts = KafkaTopicProducts (ld_cfg ld), ov_TopicDLQ = KafkaTopicDLQ (ld_cfg ld),
          ov_Typesense = ts\<rparr>))))"

definition failure_matrix :: "(string \<times> string) list" where
  "failure_matrix =
     [(''PostgreSQL down'', ''API degraded/unavailable; /health/ready fails''),
      (''Redis down'', ''cache bypass '' @ em_dash @ '' product/wishlist still work from Postgres''),
      (''Kafka down'', ''POST /orders still 201; rows sit in outbox_events until relay succeeds''),
      (''Typesense down'', ''search degraded (circuit breaker); CRUD unaffected''),
      (''Worker crash'', ''Kafka redelivery; payment/inventory/audit handlers are idempotent''),
      (''Duplicate event'', ''no double charge / no double stock release (status + unique keys)''),
      (''Network timeout'', ''relay retries; request timeout middleware bounds HTTP''),
      (''Consumer overload'', ''lag grows; no data loss (at-least-once + idempotent)''),
      (''Pod killed'', ''k3s redirects traffic; graceful Shutdown drains in-flight''),
      (''DB slow'', ''REQUEST_TIMEOUT aborts slow handlers'')]"

definition lab_triggers :: "(string \<times> string) list" where
  "lab_triggers =
     [(''pauseRelay'', ''POST /api/v1/lab/outbox/pause '' @ em_dash @ '' simulate Kafka-unavailable publish path''),
      (''resumeRelay'', ''POST /api/v1/lab/outbox/resume''),
      (''pendingOutbox'', ''GET /api/v1/lab/outbox/pending''),
      (''relayOnce'', ''POST /api/v1/lab/outbox/relay-once''),
      (''payFail'', ''POST /api/v1/orders/:id/pay {\"outcome\":\"fail\"}'')]"

definition FailureMatrix :: goval where
  "FailureMatrix =
     GMap [(''lesson'', GStr ''Replicate large-system failure modes without breaking order durability.''),
           (''matrix'', GSlice (map (\<lambda>(f, e). GMap [(''failure'', GStr f), (''expected'', GStr e)]) failure_matrix)),
           (''triggers'', GMap (map (\<lambda>(k, v). (k, GStr v)) lab_triggers))]"

section \<open>Outbox\<close>

text \<open>A \<open>json.RawMessage\<close> as a value.\<close>

fun raw_value :: "json \<Rightarrow> goval" where
  "raw_value JNull = GNil"
| "raw_value (JBool b) = GBool b"
| "raw_value (JInt i) = GInt i"
| "raw_value (JFloat f) = GFloat f"
| "raw_value (JStr t) = GStr t"
| "raw_value (JTime t) = GTime t"
| "raw_value (JArr js) = GSlice (map raw_value js)"
| "raw_value (JObj kjs) = GMap (map (\<lambda>(k, j). (k, raw_value j)) kjs)"

definition event_row_value :: "EventRow \<Rightarrow> goval" where
  "event_row_value r =
     GMap [(''ID'', GUint64 (ev_ID r)), (''EventID'', GStr (ev_EventID r)),
           (''AggregateType'', GStr (ev_AggregateType r)), (''AggregateID'', GUint64 (ev_AggregateID r)),
           (''EventType'', GStr (ev_EventType r)), (''Payload'', raw_value (ev_Payload r)),
           (''CreatedAt'', GTime (ev_CreatedAt r)),
           (''PublishedAt'', nullable (map_option GTime (ev_PublishedAt r)))]"

definition OutboxPending :: "LabDeps \<Rightarrow> int \<Rightarrow> goval io" where
  "OutboxPending ld limit =
     (case ld_relay ld of
        None \<Rightarrow> throw (Sentinel ErrUnavailable)
      | Some has_store \<Rightarrow>
          bindE (ListPending limit) (\<lambda>rows.
          bindE PendingCount (\<lambda>n.
          bindE (Paused has_store) (\<lambda>paused.
          ret (GMap [(''pendingCount'', GInt64 (int n)), (''paused'', GBool paused),
                     (''items'', GSlice (map event_row_value rows)),
                     (''lesson'', GStr ''Unpublished outbox rows prove the request stayed safe while Kafka/relay was unavailable.'')])))))"

definition OutboxRelayOnce :: "LabDeps \<Rightarrow> goval io" where
  "OutboxRelayOnce ld =
     (case ld_relay ld of
        None \<Rightarrow> throw (Sentinel ErrUnavailable)
      | Some has_store \<Rightarrow>
          bindE (RelayOnce Publish) (\<lambda>(n, err).
          case err of
            Some e \<Rightarrow> throw e
          | None \<Rightarrow>
              bindE (Paused has_store) (\<lambda>paused.
              ret (GMap [(''published'', GInt (int n)), (''paused'', GBool paused)]))))"

definition OutboxSetPaused :: "LabDeps \<Rightarrow> bool \<Rightarrow> goval io" where
  "OutboxSetPaused ld paused =
     (case ld_relay ld of
        None \<Rightarrow> ret (GMap [(''ok'', GBool False), (''error'', GStr ''relay unavailable'')])
      | Some has_store \<Rightarrow>
          bindE (SetPaused has_store paused) (\<lambda>_.
          bindE (Paused has_store) (\<lambda>p.
          ret (GMap [(''ok'', GBool True), (''paused'', GBool p)]))))"

end
