(* ===== verification/Lab_Handler.thy ===== *)
theory Lab_Handler
  imports Lab Middleware
begin

text \<open>\<open>internal/http/lab/handler.go\<close>: the HTTP handlers of the operator endpoints.\<close>

section \<open>The JSON of the results\<close>

definition stats_value :: "CollectionStats \<Rightarrow> goval" where
  "stats_value st =
     GMap [(''name'', GStr (cs_Name st)), (''numDocuments'', GInt (cs_NumDocuments st)),
           (''exists'', GBool (cs_Exists st))]"

definition postgres_value :: "PostgresSummary \<Rightarrow> goval" where
  "postgres_value p =
     GMap [(''users'', GInt64 (ps_Users p)), (''products'', GInt64 (ps_Products p)),
           (''wishlists'', GInt64 (ps_Wishlists p)), (''orders'', GInt64 (ps_Orders p))]"

definition overview_value :: "Overview \<Rightarrow> goval" where
  "overview_value o' =
     GMap [(''postgres'', postgres_value (ov_Postgres o')),
           (''redis'', GMap [(''connected'', GBool (rs_Connected (ov_Redis o'))),
                             (''sampleKeys'', GSlice (map GStr (rs_SampleKeys (ov_Redis o'))))]),
           (''mongo'', GMap [(''auditEvents'', GInt64 (ov_Mongo o'))]),
           (''kafka'', GMap [(''brokers'', GSlice (map GStr (ov_Brokers o'))),
                             (''topicProducts'', GStr (ov_TopicProducts o')),
                             (''topicDlq'', GStr (ov_TopicDLQ o'))]),
           (''typesense'', stats_value (ov_Typesense o')),
           (''hint'', GStr ''Gunakan endpoint /api/v1/lab/* untuk drill-down tiap infra. Lihat docs/PANDUAN-BELAJAR.md'')]"

definition sample_value :: "SampleProduct \<Rightarrow> goval" where
  "sample_value p =
     GMap [(''id'', GUint (sp_ID p)), (''name'', GStr (sp_Name p)), (''price'', GFloat (sp_Price p)),
           (''stock'', GInt (sp_Stock p)), (''ownerEmail'', GStr (sp_Email p))]"

definition peek_value :: "CachePeek \<Rightarrow> goval" where
  "peek_value p =
     GMap ([(''key'', GStr (cp_Key p)), (''hit'', GBool (cp_Hit p)), (''ttl'', GStr (cp_TTL p))]
           @ omit_nil ''product'' (map_option product_value (cp_Product p))
           @ omit_empty ''raw'' (cp_Raw p)
           @ [(''lesson'', GStr ''GET product by id mengisi cache ini. DELETE/invalidate menghapusnya. Bandingkan hit=false vs hit=true.'')])"

definition audit_value :: "AuditRecord \<Rightarrow> goval" where
  "audit_value r =
     GMap [(''eventId'', GStr (au_EventID r)), (''type'', GStr (au_Type r)),
           (''payload'', GMap (au_Payload r)), (''occurredAt'', GTime (au_OccurredAt r)),
           (''processedAt'', GTime (au_ProcessedAt r)), (''consumer'', GStr (au_Consumer r))]"

definition ping_value :: "KafkaPingResult \<Rightarrow> goval" where
  "ping_value r =
     GMap [(''eventId'', GStr (kp_EventID r)), (''type'', GStr (kp_Type r)), (''topic'', GStr (kp_Topic r)),
           (''lesson'', GStr (''Cek kubectl logs deploy/worker '' @ em_dash
              @ '' event audited type=lab.ping. Lalu GET /api/v1/lab/mongo/events.''))]"

definition lab_document_value :: "ProductDocument \<Rightarrow> goval" where
  "lab_document_value d =
     GMap [(''id'', GStr (pd_ID d)), (''userId'', GUint (pd_UserID d)), (''name'', GStr (pd_Name d)),
           (''description'', GStr (pd_Description d)), (''price'', GFloat (pd_Price d))]"

definition explore_value :: "TypesenseLab \<Rightarrow> goval" where
  "explore_value t =
     GMap ([(''stats'', stats_value (tl_Stats t))]
           @ omit_empty ''query'' (tl_Query t)
           @ (if tl_Results t = [] then []
              else [(''results'', GSlice (map lab_document_value (tl_Results t)))])
           @ [(''lesson'', GStr ''API boot auto-reindex kalau index kosong. Manual: POST /api/v1/lab/typesense/reindex.'')])"

definition reindex_value :: "ReindexResult \<Rightarrow> goval" where
  "reindex_value r =
     GMap [(''indexed'', GInt (rx_Indexed r)), (''failed'', GInt (rx_Failed r)),
           (''lesson'', GStr (''Postgres = source of truth. Typesense hanya index turunan '' @ em_dash
              @ '' aman di-rebuild kapan saja.''))]"

section \<open>Handlers\<close>

definition lab_mapErr :: "go_error \<Rightarrow> Ctx \<Rightarrow> Ctx" where
  "lab_mapErr err =
     (if errors_is err ErrUnavailable then FailCode 503 (error_text err) (ErrorCode err)
      else if errors_is err ErrNotFound then FailCode 404 (error_text err) (ErrorCode err)
      else Fail 500 ''internal error'')"

definition lab_reply :: "'a io \<Rightarrow> ('a \<Rightarrow> Ctx \<Rightarrow> Ctx) \<Rightarrow> handler" where
  "lab_reply operation reply c =
     bindE (attempt operation) (\<lambda>r.
     case r of Inl err \<Rightarrow> ret (lab_mapErr err c) | Inr a \<Rightarrow> ret (reply a c))"

text \<open>\<open>strconv.Atoi\<close> and \<open>strconv.ParseInt\<close> with the error dropped.\<close>

definition limit_query :: "Ctx \<Rightarrow> string \<Rightarrow> int" where
  "limit_query c def = Atoi_value (DefaultQuery c ''limit'' def)"

definition Lab_overview :: "LabDeps \<Rightarrow> handler" where
  "Lab_overview ld = lab_reply (Lab_Overview ld) (\<lambda>d. OK ''lab overview'' (Some (overview_value d)))"

definition Lab_postgresSummary :: handler where
  "Lab_postgresSummary =
     lab_reply Lab_PostgresSummary (\<lambda>d. OK ''postgres summary'' (Some (postgres_value d)))"

definition Lab_postgresSamples :: handler where
  "Lab_postgresSamples c =
     lab_reply (Lab_PostgresSamples (limit_query c ''10''))
       (\<lambda>d. OK ''postgres samples'' (Some (GSlice (map sample_value d)))) c"

definition Lab_redisPeek :: "LabDeps \<Rightarrow> handler" where
  "Lab_redisPeek ld c =
     (case ParseUint (Param c ''id'') of
        None \<Rightarrow> ret (Fail 400 ''invalid id'' c)
      | Some i \<Rightarrow>
          lab_reply (PeekProductCache ld i) (\<lambda>d. OK ''redis cache peek'' (Some (peek_value d))) c)"

definition Lab_redisInvalidate :: "LabDeps \<Rightarrow> handler" where
  "Lab_redisInvalidate ld c =
     (case ParseUint (Param c ''id'') of
        None \<Rightarrow> ret (Fail 400 ''invalid id'' c)
      | Some i \<Rightarrow>
          lab_reply (InvalidateProductCache ld i) (\<lambda>d. OK ''redis cache invalidated'' (Some d)) c)"

definition Lab_mongoEvents :: "LabDeps \<Rightarrow> handler" where
  "Lab_mongoEvents ld c =
     lab_reply (MongoEvents ld (limit_query c ''20''))
       (\<lambda>d. OK ''mongo audit events'' (Some (GSlice (map audit_value d)))) c"

definition Lab_kafkaPing :: "LabDeps \<Rightarrow> handler" where
  "Lab_kafkaPing ld c =
     (case cx_userID c of
        None \<Rightarrow> ret (unauthorized (Sentinel ErrUnauthorized) c)
      | Some userID \<Rightarrow>
          lab_reply (KafkaPing ld userID) (\<lambda>d. Created ''kafka ping published'' (Some (ping_value d))) c)"

definition Lab_typesenseExplore :: "LabDeps \<Rightarrow> handler" where
  "Lab_typesenseExplore ld c =
     lab_reply (TypesenseExplore ld (Query c ''q''))
       (\<lambda>d. OK ''typesense explore'' (Some (explore_value d))) c"

definition Lab_typesenseReindex :: "LabDeps \<Rightarrow> handler" where
  "Lab_typesenseReindex ld =
     lab_reply (TypesenseReindex ld) (\<lambda>d. OK ''typesense reindex done'' (Some (reindex_value d)))"

definition Lab_failureMatrix :: handler where
  "Lab_failureMatrix c = ret (OK ''commerce failure matrix'' (Some FailureMatrix) c)"

definition Lab_outboxPending :: "LabDeps \<Rightarrow> handler" where
  "Lab_outboxPending ld c =
     lab_reply (OutboxPending ld (limit_query c ''20'')) (\<lambda>d. OK ''outbox pending'' (Some d)) c"

definition Lab_outboxRelayOnce :: "LabDeps \<Rightarrow> handler" where
  "Lab_outboxRelayOnce ld = lab_reply (OutboxRelayOnce ld) (\<lambda>d. OK ''outbox relay once'' (Some d))"

definition Lab_outboxPause :: "LabDeps \<Rightarrow> handler" where
  "Lab_outboxPause ld c =
     bindE (OutboxSetPaused ld True) (\<lambda>d. ret (OK ''outbox relay paused'' (Some d) c))"

definition Lab_outboxResume :: "LabDeps \<Rightarrow> handler" where
  "Lab_outboxResume ld c =
     bindE (OutboxSetPaused ld False) (\<lambda>d. ret (OK ''outbox relay resumed'' (Some d) c))"

end
