(* ===== verification/Health.thy ===== *)
theory Health
  imports Http
begin

text \<open>
  \<open>internal/http/health\<close>: the probes.  A checker is its name, its criticality and its ping (of
  a driver); \<open>checks.go\<close> gives the four of the API.  The pings of \<open>ready\<close> run in parallel and
  are collected by index; here they run in order.  The object \<open>checks\<close> lists its members in
  the order of the checkers.
\<close>

record Checker =
  ck_Name :: string
  ck_Critical :: bool
  ck_Ping :: "unit io"

text \<open>\<open>checks.go\<close>; a nil Typesense client (search disabled) reports healthy.\<close>

definition api_checkers :: "unit io \<Rightarrow> unit io \<Rightarrow> unit io \<Rightarrow> unit io option \<Rightarrow> Checker list" where
  "api_checkers pg_ping rd_ping mg_ping ts_ping =
     [\<lparr>ck_Name = ''postgres'', ck_Critical = True, ck_Ping = pg_ping\<rparr>,
      \<lparr>ck_Name = ''redis'', ck_Critical = True, ck_Ping = rd_ping\<rparr>,
      \<lparr>ck_Name = ''mongo'', ck_Critical = False, ck_Ping = mg_ping\<rparr>,
      \<lparr>ck_Name = ''typesense'', ck_Critical = False,
       ck_Ping = (case ts_ping of None \<Rightarrow> ret () | Some ping \<Rightarrow> ping)\<rparr>]"

definition Health_live :: "handler" where
  "Health_live c = ret (OK ''alive'' (Some (GMap [(''status'', GStr ''up'')])) c)"

record check_result =
  cr_name :: string
  cr_status :: string
  cr_critical :: bool

definition run_check :: "Checker \<Rightarrow> check_result io" where
  "run_check ck =
     bindE (attempt (ck_Ping ck)) (\<lambda>r.
     ret \<lparr>cr_name = ck_Name ck,
          cr_status = (case r of Inl err \<Rightarrow> ''down: '' @ error_text err | Inr _ \<Rightarrow> ''ok''),
          cr_critical = ck_Critical ck\<rparr>)"

fun run_checks :: "Checker list \<Rightarrow> check_result list io" where
  "run_checks [] = ret []"
| "run_checks (ck # cks) =
     bindE (run_check ck) (\<lambda>r. bindE (run_checks cks) (\<lambda>rs. ret (r # rs)))"

definition down :: "check_result \<Rightarrow> bool" where
  "down r = (cr_status r \<noteq> ''ok'')"

definition checks_value :: "check_result list \<Rightarrow> goval" where
  "checks_value rs = GMap (map (\<lambda>r. (cr_name r, GStr (cr_status r))) rs)"

definition ready_reply :: "check_result list \<Rightarrow> Ctx \<Rightarrow> Ctx" where
  "ready_reply rs =
     (if \<exists>r\<in>set rs. down r \<and> cr_critical r then
        c_JSON 503 \<lparr>env_Success = False, env_Message = error_text (Sentinel ErrUnavailable),
          env_ErrorCode = ErrorCode (Sentinel ErrUnavailable),
          env_Data = Some (GMap [(''checks'', checks_value rs), (''mode'', GStr ''unavailable'')]),
          env_Meta = None, env_Errors = None\<rparr>
      else if \<exists>r\<in>set rs. down r \<and> \<not> cr_critical r then
        OK ''degraded'' (Some (GMap [(''checks'', checks_value rs), (''mode'', GStr ''degraded'')]))
      else OK ''ready'' (Some (GMap [(''checks'', checks_value rs)])))"

definition Health_ready :: "Checker list \<Rightarrow> handler" where
  "Health_ready checkers c = bindE (run_checks checkers) (\<lambda>rs. ret (ready_reply rs c))"

section \<open>Correctness\<close>

lemma status_ready_reply:
  "status_of (ready_reply rs c) = Some (if \<exists>r\<in>set rs. down r \<and> cr_critical r then 503 else 200)"
  by (simp add: ready_reply_def)

text \<open>The results are those of the checkers, in their order.\<close>

lemma run_checks_names:
  "wp (run_checks cks)
     (\<lambda>rs _. map cr_name rs = map ck_Name cks \<and> map cr_critical rs = map ck_Critical cks)
     (\<lambda>_ _. False) s"
proof (induction cks arbitrary: s)
  case (Cons ck cks)
  have one: "wp (run_check ck) (\<lambda>r s'. cr_name r = ck_Name ck \<and> cr_critical r = ck_Critical ck)
      (\<lambda>_ _. False) s"
    by (auto simp: run_check_def wp_def bindE_def attempt_def ret_def split: prod.split)
  show ?case
    by (auto simp: wp_simps intro!: wp_mono [OF one] wp_mono [OF Cons.IH])
qed (simp add: wp_simps)

end
