(* ===== verification/Server.thy ===== *)
theory Server
  imports Order_Service Product_Handler Auth_Service Wishlist Lab_Handler Health Notify
begin

text \<open>
  \<open>internal/http/server/server.go\<close> and the \<open>RegisterRoutes\<close> of the handlers: the table of
  routes and the chain of middleware of each.

  Gin chooses the route by method and pattern; the pattern it matched is \<open>rq_FullPath\<close>, so a
  request is served by the first route with its method and pattern, and by gin's own 404
  where there is none.  The handlers of Prometheus, of pprof and of the static documentation
  are the libraries': \<open>app_foreign\<close> is their reply, by pattern, request and time.  Not
  modelled: the recovery from panics.
\<close>

record App =
  app_cfg :: Config
  app_jwt :: jwt_lib
  app_valid :: validators
  app_limiter :: "limiter option"
  app_auth :: AuthDeps
  app_deps :: Deps
  app_engine :: SearchEngine
  app_orders :: OrderDeps
  app_lab :: LabDeps
  app_checkers :: "Checker list"
  app_cors :: cors_lib
  app_ws :: ws_lib
  app_foreign :: "string \<Rightarrow> Request \<Rightarrow> time \<Rightarrow> Reply"

record Route =
  rt_Method :: string
  rt_Pattern :: string
  rt_Handler :: handler

definition route :: "string \<Rightarrow> string \<Rightarrow> handler \<Rightarrow> Route" where
  "route m p h = \<lparr>rt_Method = m, rt_Pattern = p, rt_Handler = h\<rparr>"

section \<open>The routes of each handler\<close>

definition secured :: "App \<Rightarrow> handler \<Rightarrow> handler" where
  "secured app h = Auth (app_jwt app) (JWTSecret (app_cfg app)) h"

definition admin_only :: "App \<Rightarrow> handler \<Rightarrow> handler" where
  "admin_only app h = secured app (RequireRole [RoleAdmin] h)"

definition auth_routes :: "App \<Rightarrow> Route list" where
  "auth_routes app =
     [route ''POST'' ''/authentication/register'' (Auth_register (app_valid app) (app_auth app)),
      route ''POST'' ''/authentication/login'' (Auth_login (app_valid app) (app_auth app)),
      route ''POST'' ''/authentication/refresh-token'' (Auth_refresh (app_auth app)),
      route ''POST'' ''/authentication/logout'' (Auth_logout (app_auth app)),
      route ''GET'' ''/authentication/me'' (secured app Auth_me)]"

definition product_routes :: "App \<Rightarrow> Route list" where
  "product_routes app =
     [route ''GET'' ''/products'' (secured app (Product_list (app_deps app))),
      route ''GET'' ''/products/catalog'' (secured app Product_catalog),
      route ''GET'' ''/products/search'' (secured app (Product_search (app_deps app) (app_engine app))),
      route ''POST'' ''/products'' (secured app (Product_create (app_deps app))),
      route ''GET'' ''/products/:id'' (secured app (Product_getByID (app_deps app))),
      route ''PUT'' ''/products/:id'' (secured app (Product_update (app_deps app))),
      route ''DELETE'' ''/products/:id'' (secured app (Product_delete (app_deps app)))]"

definition wishlist_routes :: "App \<Rightarrow> Route list" where
  "wishlist_routes app =
     [route ''GET'' ''/wishlists'' (secured app Wishlist_list),
      route ''GET'' ''/wishlists/count'' (secured app (Wishlist_count (app_deps app))),
      route ''POST'' ''/wishlists'' (secured app (Wishlist_add (app_deps app))),
      route ''DELETE'' ''/wishlists/:id'' (secured app (Wishlist_remove (app_deps app)))]"

definition order_routes :: "App \<Rightarrow> Route list" where
  "order_routes app =
     [route ''POST'' ''/orders'' (secured app (Order_create (app_orders app))),
      route ''GET'' ''/orders'' (secured app Order_list),
      route ''GET'' ''/orders/:id'' (secured app Order_getByID),
      route ''POST'' ''/orders/:id/cancel'' (secured app (Order_cancel (app_orders app))),
      route ''POST'' ''/orders/:id/pay'' (secured app Order_pay),
      route ''POST'' ''/orders/:id/fulfill'' (admin_only app Order_fulfill)]"

definition lab_routes :: "App \<Rightarrow> bool \<Rightarrow> Route list" where
  "lab_routes app enabled =
     (if \<not> enabled then []
      else
        let ld = app_lab app in
        map (\<lambda>(m, p, h). route m p (admin_only app h))
          [(''GET'', ''/lab/overview'', Lab_overview ld),
           (''GET'', ''/lab/postgres/summary'', Lab_postgresSummary),
           (''GET'', ''/lab/postgres/samples'', Lab_postgresSamples),
           (''GET'', ''/lab/redis/product/:id'', Lab_redisPeek ld),
           (''DELETE'', ''/lab/redis/product/:id'', Lab_redisInvalidate ld),
           (''GET'', ''/lab/mongo/events'', Lab_mongoEvents ld),
           (''POST'', ''/lab/kafka/ping'', Lab_kafkaPing ld),
           (''GET'', ''/lab/typesense'', Lab_typesenseExplore ld),
           (''POST'', ''/lab/typesense/reindex'', Lab_typesenseReindex ld),
           (''GET'', ''/lab/commerce/failure-matrix'', Lab_failureMatrix),
           (''GET'', ''/lab/outbox/pending'', Lab_outboxPending ld),
           (''POST'', ''/lab/outbox/relay-once'', Lab_outboxRelayOnce ld),
           (''POST'', ''/lab/outbox/pause'', Lab_outboxPause ld),
           (''POST'', ''/lab/outbox/resume'', Lab_outboxResume ld)])"

definition health_routes :: "App \<Rightarrow> Route list" where
  "health_routes app =
     [route ''GET'' ''/health/live'' Health_live,
      route ''GET'' ''/health/ready'' (Health_ready (app_checkers app)),
      route ''GET'' ''/health'' (Health_ready (app_checkers app))]"

definition foreign_route :: "App \<Rightarrow> string \<Rightarrow> string \<Rightarrow> Route" where
  "foreign_route app m pattern =
     route m pattern (\<lambda>c. bindE now (\<lambda>t. ret (c\<lparr>cx_reply := Some (app_foreign app pattern (cx_req c) t)\<rparr>)))"

definition debug_routes :: "App \<Rightarrow> Route list" where
  "debug_routes app =
     (if IsProduction (app_cfg app) then []
      else map (\<lambda>p. foreign_route app ''GET'' (''/debug/pprof'' @ p))
             [''/'', ''/cmdline'', ''/profile'', ''/symbol'', ''/trace'', ''/heap'', ''/goroutine'']
           @ [foreign_route app ''GET'' ''/docs/*filepath'', foreign_route app ''HEAD'' ''/docs/*filepath''])"

definition notify_routes :: "App \<Rightarrow> Route list" where
  "notify_routes app =
     [route ''GET'' ''/ws/products''
        (notify_authenticate (ws_IsUpgrade (app_ws app)) (app_jwt app) (app_cfg app)
          (ws_products (app_ws app) (app_cfg app)))]"

section \<open>NewEngine\<close>

text \<open>The group \<open>/api/v1\<close>: its prefix, the API key and the rate limit.\<close>

definition api_route :: "App \<Rightarrow> Route \<Rightarrow> Route" where
  "api_route app r =
     route (rt_Method r) (''/api/v1'' @ rt_Pattern r)
       (APIKey_mw (APIKey (app_cfg app))
         (RateLimit (app_limiter app) (RateLimitMax (app_cfg app)) (RateLimitWindow (app_cfg app))
           (rt_Handler r)))"

definition api_routes :: "App \<Rightarrow> Route list" where
  "api_routes app =
     auth_routes app @ product_routes app @ wishlist_routes app @ order_routes app
     @ lab_routes app (\<not> IsProduction (app_cfg app))"

definition routes :: "App \<Rightarrow> Route list" where
  "routes app =
     health_routes app @ [foreign_route app ''GET'' ''/metrics''] @ debug_routes app
     @ map (api_route app) (api_routes app) @ notify_routes app"

definition no_route :: handler where
  "no_route c = ret (c_Data 404 (Inr ''404 page not found'') c)"

definition find_route :: "App \<Rightarrow> Request \<Rightarrow> handler" where
  "find_route app rq =
     (case List.find (\<lambda>r. rt_Method r = rq_Method rq \<and> rt_Pattern r = rq_FullPath rq) (routes app) of
        None \<Rightarrow> no_route
      | Some r \<Rightarrow> rt_Handler r)"

definition cors_config :: "Config \<Rightarrow> CORSConfig" where
  "cors_config cfg =
     \<lparr>AllowOrigins = CORSOrigins cfg,
      AllowHeaders = [''Origin'', ''Content-Type'', ''Accept'', ''Authorization'', ''apikey'', ''X-API-Key'',
        ''Idempotency-Key''],
      AllowMethods = [''GET'', ''POST'', ''PUT'', ''DELETE'', ''OPTIONS'']\<rparr>"

definition serve :: "App \<Rightarrow> Request \<Rightarrow> Ctx io" where
  "serve app rq =
     RequestID (Tracing (Metrics (SecurityHeaders (EnableHSTS (app_cfg app))
       (CORS_mw (app_cors app) (cors_config (app_cfg app))
         (Timeout (RequestTimeout (app_cfg app)) (RequestLogger (find_route app rq)))))))
     (new_ctx rq)"

text \<open>A sequence of requests, and the replies.\<close>

fun serve_all :: "App \<Rightarrow> Request list \<Rightarrow> Ctx list io" where
  "serve_all app [] = ret []"
| "serve_all app (rq # rqs) =
     bindE (serve app rq) (\<lambda>c. bindE (serve_all app rqs) (\<lambda>cs. ret (c # cs)))"

end
