(* ===== verification/Api.thy ===== *)
theory Api
  imports Runs Server
begin

text \<open>
  The API inside the system: every request is a sequence of steps of \<open>System\<close>.  The orders
  API trades (\<open>trading.runs\<close>); the whole API stays reachable from a state that satisfies the
  invariants (\<open>shopping.runs\<close>), where product edits are catalogue steps.

  The libraries behind the parameters of the model (the limiter, the search server, the pings)
  are assumed to be \<open>harmless\<close>: they touch neither the tables nor the topics.
\<close>

section \<open>The relation\<close>

definition shops :: "sys \<Rightarrow> sys \<Rightarrow> bool" where
  "shops s s' = (system_inv s \<longrightarrow> reachable s s')"

interpretation shopping: step_closed shops
  by unfold_locales
    (auto simp: shops_def intro: reaching.rel_refl reaching.rel_frame
      intro: reachable_inv reachable_trans)

lemma reaching_shopping: "reaching.runs m \<Longrightarrow> shopping.runs m"
  by (simp add: reaching.runs_def shopping.runs_def shops_def)

lemma trading_shopping: "trading.runs m \<Longrightarrow> shopping.runs m"
  by (intro reaching_shopping trading_reaching)

definition harmless :: "'a io \<Rightarrow> bool" where
  "harmless m = (\<forall>s. db (snd (m s)) = db s \<and> outside (snd (m s)) = outside s)"

lemma harmless_runs: "harmless m \<Longrightarrow> trading.runs m" "harmless m \<Longrightarrow> shopping.runs m"
  by (auto simp: harmless_def intro: trading.runs_frame shopping.runs_frame)

text \<open>A bind whose value is known to have a property where the invariants hold.\<close>

lemma shopping_bind:
  assumes m: "shopping.runs m"
    and P: "\<And>s a s'. system_inv s \<Longrightarrow> m s = (Inr a, s') \<Longrightarrow> P a"
    and f: "\<And>a. P a \<Longrightarrow> shopping.runs (f a)"
  shows "shopping.runs (bindE m f)"
proof (rule shopping.runsI)
  fix s r s'
  assume run: "bindE m f s = (r, s')"
  obtain x s1 where x: "m s = (x, s1)" by fastforce
  from shopping.runsD [OF m x] have 1: "shops s s1" .
  show "shops s s'"
  proof (cases x)
    case (Inl e)
    with run x 1 show ?thesis by (simp add: bindE_def)
  next
    case (Inr a)
    have "shops s1 s'" if "system_inv s"
      using f [OF P [OF that]] x Inr run by (auto simp: bindE_def dest: shopping.runsD)
    with 1 show ?thesis by (auto simp: shops_def intro: shopping.rel_trans reachable_trans reachable_inv)
  qed
qed

section \<open>Orders\<close>

text \<open>An operation on users, wishlists or idempotency keys only.\<close>

lemma unrelated_refl [simp]: "unrelated d d"
  by (auto simp: unrelated_def intro!: exI [of _ "users d"] exI [of _ "wishlists d"]
      exI [of _ "idempotency_keys d"])

lemma unrelated_writes [intro]:
  "unrelated d0 d \<Longrightarrow> unrelated d0 (d\<lparr>users := us\<rparr>)"
  "unrelated d0 d \<Longrightarrow> unrelated d0 (d\<lparr>wishlists := ws\<rparr>)"
  "unrelated d0 d \<Longrightarrow> unrelated d0 (d\<lparr>idempotency_keys := ks\<rparr>)"
proof -
  assume "unrelated d0 d"
  then obtain us' ws' ks' where d: "d = d0\<lparr>users := us', wishlists := ws', idempotency_keys := ks'\<rparr>"
    by (auto simp: unrelated_def)
  show "unrelated d0 (d\<lparr>users := us\<rparr>)"
    unfolding unrelated_def d by (intro exI [of _ us] exI [of _ ws'] exI [of _ ks']) simp
  show "unrelated d0 (d\<lparr>wishlists := ws\<rparr>)"
    unfolding unrelated_def d by (intro exI [of _ us'] exI [of _ ws] exI [of _ ks']) simp
  show "unrelated d0 (d\<lparr>idempotency_keys := ks\<rparr>)"
    unfolding unrelated_def d by (intro exI [of _ us'] exI [of _ ws'] exI [of _ ks]) simp
qed

lemma trading_elsewhere:
  assumes "sql_only m" and "\<And>d0. preserves (\<lambda>s. unrelated d0 (db s)) m"
  shows "trading.runs m"
proof (rule trading.runsI)
  fix s r s'
  assume run: "m s = (r, s')"
  have "unrelated (db s) (db s')" by (rule preservesD [OF assms(2) _ run]) simp
  with sql_only_run [OF assms(1) run] show "trades s s'"
    by (intro trades_step trade.elsewhere)
qed

lemma preserves_insert:
  assumes "\<And>r d. J d \<Longrightarrow> J (add r d)"
  shows "preserves (\<lambda>s. J (db s)) (insert_row q mk refuse add)"
  by (rule preservesI)
    (use assms in \<open>simp add: wp_def insert_row_def interact_def Let_def split: option.split\<close>)

lemma trading_inserts:
  "trading.runs (insert_row q mk refuse add_user)" "trading.runs (insert_row q mk' refuse' add_wish)"
  by (rule trading_elsewhere [OF sql_only_insert_row preserves_insert],
      simp add: add_user_def add_wish_def unrelated_writes)+

lemma trading_Save: "trading.runs (SaveIdempotencyResponse u k m p h st b)"
  unfolding SaveIdempotencyResponse_def FindIdempotency_def update_idempotency_def
proof (rule trading_elsewhere, goal_cases)
  case 1
  show ?case by (intro sql_only_intro)
next
  case (2 d0)
  show ?case by (rule transaction_preserves) (intro vcg; auto simp: add_idempotency_def)
qed

lemma trading_orders:
  "trading.runs (CreateOrder u its)" "trading.runs (Pay u i oc k)" "trading.runs (Cancel u i)"
  "trading.runs (CancelSystem i)" "trading.runs (Fulfill i)"
  by (auto intro!: trading.runsI trades_step intro: trade.intros)

lemma trading_items: "trading.runs m \<Longrightarrow> trading.runs (items_or_none m)"
  unfolding items_or_none_def by (intro trading.runs_intros)

lemmas trading_rules = trading.runs_intros trading_orders trading.runs_find trading.runs_reads
  trading.runs_invalidate trading_items trading_Save

lemma trading_order_service:
  "trading.runs (OrderService_Create od inp)" "trading.runs (OrderService_Cancel od u i)"
  "trading.runs (OrderService_Pay pin)" "trading.runs (OrderService_Fulfill i)"
  "trading.runs (RememberIdempotent u k m p its st b)"
  unfolding OrderService_Create_def create_new_def OrderService_Cancel_def OrderService_Pay_def
    OrderService_Fulfill_def RememberIdempotent_def Let_def
  by (intro trading_rules)+

lemma trading_expire: "trading.runs (expire_each od ids n)"
  by (induction ids arbitrary: n) (auto intro!: trading_rules)

lemma trading_expiry: "trading.runs (ExpireStaleHolds od)"
  unfolding ExpireStaleHolds_def by (intro trading_rules trading_expire)

lemma trading_order_id:
  "(\<And>i. trading.runs (operation i)) \<Longrightarrow> trading.runs (with_order_id c operation reply)"
  unfolding with_order_id_def by (intro trading_rules)

lemma trading_result:
  "(\<And>o'. trading.runs (f o')) \<Longrightarrow> (\<And>st b. trading.runs (g st b))
   \<Longrightarrow> trading.runs (case x of NewOrder o' \<Rightarrow> f o' | Replay st b \<Rightarrow> g st b)"
  by (simp split: CreateResult.split)

lemma trading_order_handlers:
  "trading.runs (Order_create od c)" "trading.runs (Order_list c)" "trading.runs (Order_getByID c)"
  "trading.runs (Order_cancel od c)" "trading.runs (Order_pay c)" "trading.runs (Order_fulfill c)"
  unfolding Order_create_def Order_list_def Order_getByID_def Order_cancel_def Order_pay_def
    Order_fulfill_def Let_def
  by (intro trading_rules trading_order_id trading_order_service trading_result)+

section \<open>Users and wishlists\<close>

text \<open>What signs users up and in: closed in every relation that lets a user be added.\<close>

locale user_closed = step_closed +
  assumes runs_insert_user: "runs (insert_row q mk refuse add_user)"
begin

lemma runs_users:
  "runs (User_Create mk)" "runs (User_FindByEmail e)" "runs (User_FindByID i)"
  unfolding User_Create_def User_FindByEmail_def User_FindByID_def first_user_def
  by (intro runs_intros runs_insert_user)+

lemma runs_salt: "runs fresh_salt"
  by (rule runs_frame) (simp add: fresh_salt_def)

lemma runs_exists: "runs (redis_exists k)"
  by (rule runs_frame) (simp add: redis_exists_def interact_def split: option.split)

lemma runs_jti:
  "runs (storeRefreshJTI ad j u)" "runs (consumeRefreshJTI ad j)" "runs (revokeRefreshJTI ad j)"
  unfolding storeRefreshJTI_def consumeRefreshJTI_def revokeRefreshJTI_def
  by (intro runs_intros runs_exists)+

lemma runs_tokens: "runs (issueTokens ad u r)"
  unfolding issueTokens_def by (intro runs_intros runs_jti)

lemma runs_auth_service:
  "runs (Register ad ri)" "runs (Login ad li)" "runs (Refresh ad tok)" "runs (Logout ad tok)" "runs (Me u)"
  unfolding Register_def Login_def Refresh_def Logout_def Me_def Let_def
  by (intro runs_intros runs_users runs_salt runs_jti runs_tokens)+

lemma runs_auth_reply: "runs operation \<Longrightarrow> runs (auth_reply operation reply c)"
  unfolding auth_reply_def by (intro runs_intros; assumption?)

lemma runs_auth_handlers:
  "runs (Auth_register v ad c)" "runs (Auth_login v ad c)" "runs (Auth_refresh ad c)"
  "runs (Auth_logout ad c)" "runs (Auth_me c)"
  unfolding Auth_register_def Auth_login_def Auth_refresh_def Auth_logout_def Auth_me_def
  by (intro runs_intros runs_auth_reply runs_auth_service)+

end

interpretation trading: user_closed trades
  by unfold_locales (rule trading_inserts)

lemma trading_wish:
  "trading.runs (Wish_Create mk)" "trading.runs (Wish_ListByUser u)" "trading.runs (CountByUser u)"
  "trading.runs (Wish_Delete u i)"
proof -
  have "trading.runs (sql (\<lambda>_ d.
       let sel = (\<lambda>w. w_ID w = i \<and> w_UserID w = u) in
       Inr (length (filter sel (wishlists d)),
            d\<lparr>wishlists := filter (\<lambda>w. \<not> sel w) (wishlists d)\<rparr>)))"
    by (rule trading_elsewhere [OF sql_only_sql sql_preserves]) (auto simp: Let_def)
  then show "trading.runs (Wish_Delete u i)"
    unfolding Wish_Delete_def by (intro trading_rules)
qed (unfold Wish_Create_def Wish_ListByUser_def CountByUser_def, (intro trading_rules trading_inserts)+)

lemma trading_wish_items: "trading.runs (wish_items rows)"
  by (induction rows) (auto intro!: trading_rules)

lemma trading_wish_service:
  "trading.runs (Wishlist_Add deps u p n)" "trading.runs (Wishlist_List u)"
  "trading.runs (Wishlist_Remove deps u i)" "trading.runs (Wishlist_Count deps u)"
  unfolding Wishlist_Add_def Wishlist_List_def Wishlist_Remove_def Wishlist_Count_def
    invalidateCountCache_def cached_count_def
  by (intro trading_rules trading_wish trading_wish_items trading.runs_redis)+

section \<open>Products\<close>

text \<open>Product edits are catalogue steps where the invariants hold.\<close>

lemma shops_edit:
  assumes "\<And>s. system_inv s \<Longrightarrow> catalogue (db s) (db (snd (m s)))" and "sql_only m"
  shows "shopping.runs m"
proof (rule shopping.runsI)
  fix s r s'
  assume run: "m s = (r, s')"
  show "shops s s'"
    unfolding shops_def
  proof
    assume inv: "system_inv s"
    from assms(1) [OF inv] run have "catalogue (db s) (db s')" by simp
    with sql_only_run [OF assms(2) run] show "reachable s s'"
      by (intro reachable.step [OF reachable.start] shop_step.editing)
  qed
qed

lemma inv_catalogue: "system_inv s \<Longrightarrow> catalogue (db s) (db s)"
  "system_inv s \<Longrightarrow> distinct (map p_ID (products (db s)))"
  "system_inv s \<Longrightarrow> p \<in> set (products (db s)) \<Longrightarrow> 0 \<le> p_Stock p"
  by (auto simp: system_inv_def shop_inv_def schema_defs stock_inv_def catalogue_def
      intro!: exI [of _ "products (db s)"])

lemma shopping_insert_product:
  assumes "\<And>i. 0 \<le> p_Stock (mk i)"
  shows "shopping.runs (insert_row SeqProducts mk product_refuse add_product)"
proof (rule shops_edit [OF _ sql_only_insert_row])
  fix s
  assume inv: "system_inv s"
  have "catalogue (db s) (add_product (mk i) (db s))" if "product_refuse (mk i) (db s) = None" for i
    using that assms [of i] inv_catalogue(2,3) [OF inv]
    by (auto simp: catalogue_def add_product_def product_refuse_def
        intro!: exI [of _ "products (db s) @ [mk i]"])
  with inv_catalogue(1) [OF inv] show "catalogue (db s)
      (db (snd (insert_row SeqProducts mk product_refuse add_product s)))"
    by (simp add: insert_row_def interact_def Let_def split: option.split)
qed

lemma shopping_sql:
  assumes "\<And>s t a d'. system_inv s \<Longrightarrow> f t (db s) = Inr (a, d') \<Longrightarrow> catalogue (db s) d'"
  shows "shopping.runs (sql f)"
proof (rule shops_edit [OF _ sql_only_sql])
  fix s
  assume "system_inv s"
  then show "catalogue (db s) (db (snd (sql f s)))"
    using assms [of s] inv_catalogue(1) [of s]
    by (fastforce simp: interact_defs split: option.split sum.split)
qed

lemma catalogue_updated:
  assumes "system_inv s" and "\<And>r. p_ID (f r) = p_ID r"
    and "\<And>r. r \<in> set (products (db s)) \<Longrightarrow> P r \<Longrightarrow> 0 \<le> p_Stock (f r)"
  shows "catalogue (db s) ((db s)\<lparr>products := update_where P f (products (db s))\<rparr>)"
proof -
  let ?ps = "update_where P f (products (db s))"
  have ids: "map p_ID ?ps = map p_ID (products (db s))" using assms(2) by (rule update_where_map_same)
  have "0 \<le> p_Stock p" if "p \<in> set ?ps" for p
    using that inv_catalogue(3) [OF assms(1)] assms(3) by (elim in_update_whereE) simp_all
  with ids inv_catalogue(2) [OF assms(1)] show ?thesis
    unfolding catalogue_def by (intro exI [of _ ?ps]) simp
qed

lemma catalogue_saved:
  assumes "system_inv s" and "0 \<le> p_Stock p"
  shows "catalogue (db s) ((db s)\<lparr>products := save_rows p (products (db s))\<rparr>)"
proof (cases "p_ID p \<in> set (map p_ID (products (db s)))")
  case False
  with assms inv_catalogue(2,3) [OF assms(1)] show ?thesis
    by (auto simp: catalogue_def save_rows_def intro!: exI [of _ "products (db s) @ [p]"])
next
  case True
  have same: "update_where (\<lambda>r. p_ID r = p_ID p) (\<lambda>_. p) rows
      = update_where (\<lambda>r. p_ID r = p_ID p) (\<lambda>r. p\<lparr>p_ID := p_ID r\<rparr>) rows" for rows
    by (induction rows) auto
  show ?thesis
    unfolding save_rows_def same using True assms by (auto intro!: catalogue_updated)
qed

lemma shopping_repository:
  "(\<And>i t. 0 \<le> p_Stock (mk i t)) \<Longrightarrow> shopping.runs (Product_Create mk)"
  "0 \<le> p_Stock p \<Longrightarrow> shopping.runs (Product_Update p)"
  "shopping.runs (Product_Delete i)"
proof -
  assume "\<And>i t. 0 \<le> p_Stock (mk i t)"
  then show "shopping.runs (Product_Create mk)"
    unfolding Product_Create_def by (intro shopping.runs_intros shopping_insert_product)
next
  assume "0 \<le> p_Stock p"
  then show "shopping.runs (Product_Update p)"
    unfolding Product_Update_def Let_def
    by (intro shopping.runs_intros shopping_sql) (auto intro!: catalogue_saved split: if_splits)
next
  show "shopping.runs (Product_Delete i)"
    unfolding Product_Delete_def Let_def
    by (intro shopping.runs_intros shopping_sql) (auto intro!: catalogue_updated dest: inv_catalogue(3))
qed

lemma apply_update_stock: "apply_update inp m = Inr m' \<Longrightarrow> 0 \<le> p_Stock m \<Longrightarrow> 0 \<le> p_Stock m'"
  by (auto simp: apply_update_def split: if_splits option.splits)

lemma Product_FindByID_stored:
  "Product_FindByID i s = (Inr p, s') \<Longrightarrow> p \<in> set (products (db s)) \<and> p_ID p = i \<and> live_product p"
  by (auto simp: Product_FindByID_def bindE_def interact_defs throw_def ret_def
      split: option.splits dest: find_SomeD)

lemma load_stock:
  assumes "system_inv s" and "load_for_update u i inp s = (Inr m, s')"
  shows "0 \<le> p_Stock m"
proof -
  from assms(2) obtain p s1 where "Product_FindByID i s = (Inr p, s1)" "apply_update inp p = Inr m"
    by (auto simp: load_for_update_def bindE_def of_sum_def throw_def split: prod.splits sum.splits if_splits)
  with inv_catalogue(3) [OF assms(1)] show ?thesis
    by (auto dest!: Product_FindByID_stored intro: apply_update_stock)
qed

lemma shopping_product_service:
  "shopping.runs (ProductService_Create deps pc)" "shopping.runs (ProductService_Update deps u i pu)"
  "shopping.runs (ProductService_Delete deps u role i)"
proof -
  show "shopping.runs (ProductService_Create deps pc)"
    unfolding ProductService_Create_def Let_def
    by (intro shopping.runs_intros shopping_repository shopping.runs_cache shopping.runs_async) simp
  show "shopping.runs (ProductService_Update deps u i pu)"
    unfolding ProductService_Update_def
  proof (rule shopping_bind [where P = "\<lambda>m. 0 \<le> p_Stock m"])
    show "shopping.runs (load_for_update u i pu)"
      unfolding load_for_update_def by (intro shopping.runs_intros shopping.runs_find)
    show "shopping.runs (store_update deps u m)" if "0 \<le> p_Stock m" for m
      using that unfolding store_update_def Let_def
      by (intro shopping.runs_intros shopping_repository shopping.runs_cache shopping.runs_async)
  qed (rule load_stock)
  show "shopping.runs (ProductService_Delete deps u role i)"
    unfolding ProductService_Delete_def
    by (intro shopping.runs_intros shopping_repository shopping.runs_find shopping.runs_cache
        shopping.runs_async)
qed

lemma shopping_product_reply:
  "shopping.runs operation \<Longrightarrow> shopping.runs (product_reply operation reply c)"
  unfolding product_reply_def by (intro shopping.runs_intros)

lemma shopping_product_handlers:
  "shopping.runs (Product_create deps c)" "shopping.runs (Product_list deps c)"
  "shopping.runs (Product_catalog c)" "shopping.runs (Product_getByID deps c)"
  "shopping.runs (Product_update deps c)" "shopping.runs (Product_delete deps c)"
  "(\<And>q n. harmless (engine_Search engine q n)) \<Longrightarrow> shopping.runs (Product_search deps engine c)"
  unfolding Product_create_def Product_list_def Product_catalog_def Product_getByID_def
    Product_update_def Product_delete_def Product_search_def ProductService_Search_def Let_def
  by (intro shopping.runs_intros shopping_product_reply shopping_product_service shopping.runs_reads
      harmless_runs; simp)+

end
