(* ===== verification/Api_Server.thy ===== *)
theory Api_Server
  imports Api
begin

text \<open>
  The operator endpoints, the middleware and the server inside the system: a request to the
  API stays reachable, whatever it is.
\<close>

section \<open>The operator endpoints\<close>

definition harmless_search :: "LabSearch \<Rightarrow> bool" where
  "harmless_search ls =
     ((\<forall>p. harmless (ls_IndexProduct ls p)) \<and> (\<forall>q n. harmless (ls_Search ls q n))
      \<and> harmless (ls_Stats ls) \<and> harmless (ls_Ensure ls))"

definition harmless_lab :: "LabDeps \<Rightarrow> bool" where
  "harmless_lab ld =
     (harmless (ld_redis_ping ld) \<and> harmless (ld_redis_keys ld)
      \<and> (\<forall>ls. ld_search ld = Some ls \<longrightarrow> harmless_search ls))"

lemma trading_event:
  assumes "ty \<notin> set commerce_events"
    and "\<And>e. (\<And>k. trading.runs (Publish k e)) \<Longrightarrow> trading.runs (f e)"
  shows "trading.runs (bindE (NewEvent ty pl) f)"
proof -
  have "trading.runs (Publish k e)" if "e_Type e = ty" for k e
    using assms(1) that by (auto intro!: trading.runsI trades_step intro: trade.announce)
  then show ?thesis
    unfolding NewEvent_def Inventory_Worker.bindE_assoc Inventory_Worker.bindE_ret
    by (intro trading.runs_intros assms(2)) simp
qed

lemma trading_publish:
  assumes "ty \<notin> set commerce_events" and "\<And>e. trading.runs (f e)"
  shows "trading.runs (bindE (NewEvent ty pl) (\<lambda>e. bindE (Publish k e) (\<lambda>_. f e)))"
  by (rule trading_event [OF assms(1)]) (intro trading.runs_intros assms(2))

lemma trading_relay: "trading.runs (RelayOnce Publish)"
  by (auto intro!: trading.runsI trades_step intro: trade.relay)

lemma trading_flag: "trading.runs (set_relay_paused b)" "trading.runs get_relay_paused"
  by (auto intro!: trading.runs_frame simp: set_relay_paused_def get_relay_paused_def outside_def)

lemma trading_outbox:
  "trading.runs (ListPending n)" "trading.runs PendingCount" "trading.runs (Paused st)"
  "trading.runs (SetPaused st b)"
  unfolding ListPending_def PendingCount_def Paused_def SetPaused_def Let_def
  by (intro trading.runs_intros trading_flag)+

lemma trading_lab_reads:
  "trading.runs (count_rows table)" "trading.runs (ListRecent n)" "trading.runs Audit_Count"
  "trading.runs (redis_ttl k)" "trading.runs (redis_del_count k)"
  by (auto intro!: trading.runs_frame trading.runs_intros simp: count_rows_def ListRecent_def Audit_Count_def
      redis_ttl_def redis_del_count_def interact_def outside_def Let_def split: option.split)

lemma trading_lab_postgres:
  "trading.runs Lab_PostgresSummary" "trading.runs (Lab_PostgresSamples n)"
  unfolding Lab_PostgresSummary_def Lab_PostgresSamples_def Let_def
  by (intro trading.runs_intros trading_lab_reads)+

lemma trading_lab_service:
  "trading.runs (PeekProductCache ld i)" "trading.runs (InvalidateProductCache ld i)"
  "trading.runs (Lab_MongoSummary ld)" "trading.runs (MongoEvents ld n)" "trading.runs (KafkaPing ld u)"
  "trading.runs (OutboxPending ld n)" "trading.runs (OutboxRelayOnce ld)" "trading.runs (OutboxSetPaused ld b)"
  unfolding PeekProductCache_def InvalidateProductCache_def Lab_MongoSummary_def MongoEvents_def
    KafkaPing_def OutboxPending_def OutboxRelayOnce_def OutboxSetPaused_def Let_def
  by (intro trading.runs_intros trading_lab_reads trading_outbox trading_relay trading_publish;
      simp add: commerce_events_def inventory_events_def order_event_distinct str_consts)+

lemma trading_reindex: "harmless_search ls \<Longrightarrow> trading.runs (reindex_each ls ms res)"
proof (induction ms arbitrary: res)
  case (Cons m ms)
  then have "trading.runs (ls_IndexProduct ls p)" for p
    by (auto simp: harmless_search_def intro: harmless_runs)
  with Cons show ?case unfolding reindex_each.simps by (intro trading.runs_intros) auto
qed (simp add: trading.runs_ret)

lemma trading_lab_search:
  assumes "harmless_lab ld"
  shows "trading.runs (Lab_Overview ld)" "trading.runs (TypesenseExplore ld q)"
    "trading.runs (TypesenseReindex ld)" "trading.runs (BootstrapTypesense ld)"
proof -
  have ls: "trading.runs (ls_Stats ls)" "trading.runs (ls_Ensure ls)" "trading.runs (ls_Search ls q n)"
    "trading.runs (reindex_each ls ms res)" if "ld_search ld = Some ls" for ls q n ms res
    using assms that by (auto simp: harmless_lab_def harmless_search_def intro!: harmless_runs trading_reindex)
  have rd: "trading.runs (ld_redis_ping ld)" "trading.runs (ld_redis_keys ld)"
    using assms by (auto simp: harmless_lab_def intro: harmless_runs)
  show "trading.runs (Lab_Overview ld)"
    unfolding Lab_Overview_def Lab_RedisSummary_def Let_def
    by (intro trading.runs_intros trading_lab_postgres trading_lab_service rd ls)
  show "trading.runs (TypesenseExplore ld q)"
    unfolding TypesenseExplore_def by (intro trading.runs_intros ls)
  show reindex: "trading.runs (TypesenseReindex ld)"
    unfolding TypesenseReindex_def by (intro trading.runs_intros ls)
  show "trading.runs (BootstrapTypesense ld)"
    unfolding BootstrapTypesense_def by (intro trading.runs_intros trading_lab_reads reindex ls)
qed

section \<open>Middleware and the server\<close>

text \<open>\<open>serves rq h\<close>: every run of the handler on the request stays inside the relation.  No
  middleware but \<open>Auth\<close> looks at anything except the request, and none changes it.\<close>

context step_closed
begin

definition serves :: "Request \<Rightarrow> handler \<Rightarrow> bool" where
  "serves rq h = (\<forall>c. cx_req c = rq \<longrightarrow> runs (h c))"

lemma servesI: "(\<And>c. cx_req c = rq \<Longrightarrow> runs (h c)) \<Longrightarrow> serves rq h"
  by (simp add: serves_def)

lemma servesD: "serves rq h \<Longrightarrow> cx_req c = rq \<Longrightarrow> runs (h c)"
  by (simp add: serves_def)

lemma runs_harmless: "harmless m \<Longrightarrow> runs m"
  by (auto simp: harmless_def intro: runs_frame)

lemma serves_as:
  assumes "\<And>c. cx_req c = rq \<Longrightarrow> P (cx_userID c) (cx_userRole c) \<Longrightarrow> runs (h c)"
    and "\<And>c t cl. cx_req c = rq \<Longrightarrow> authenticated L secret t c = Some cl \<Longrightarrow> P (Some (cl_UserID cl)) (Some (cl_Role cl))"
  shows "serves rq (Auth L secret h)"
proof (rule servesI, rule runsI)
  fix c s r s'
  assume c: "cx_req c = rq" and run: "Auth L secret h c s = (r, s')"
  have tock: "rel s (tock s)" by (rule rel_frame) simp_all
  show "rel s s'"
  proof (cases "authenticated L secret (clock (env s) (tick s)) c")
    case None
    from Auth_refuses [OF this, of h] run tock show ?thesis by (auto intro: rel_refl)
  next
    case (Some cl)
    from assms(1) [of "c\<lparr>cx_userID := Some (cl_UserID cl), cx_userRole := Some (cl_Role cl)\<rparr>"]
      assms(2) [OF c Some] c run
    show ?thesis
      unfolding Auth_passes [OF Some] by (auto intro: rel_trans [OF tock] dest: runsD)
  qed
qed

lemma serves_middleware:
  assumes "serves rq h"
  shows "serves rq (APIKey_mw key h)" "serves rq (RequireRole roles h)" "serves rq (RequestID h)"
    "serves rq (SecurityHeaders b h)" "serves rq (Metrics h)" "serves rq (RequestLogger h)"
    "serves rq (Tracing h)" "serves rq (Timeout d h)" "serves rq (CORS_mw lib cfg h)"
    "serves rq (notify_authenticate up L cf h)"
  using assms
  unfolding serves_def APIKey_mw_def RequireRole_def RequestID_def SecurityHeaders_def Metrics_def
    RequestLogger_def Tracing_def Timeout_def CORS_mw_def notify_authenticate_def Let_def
  by (auto intro!: runs_intros)

lemma serves_RateLimit:
  assumes "serves rq h" and "\<And>allow k l. lim = Some allow \<Longrightarrow> harmless (allow k l)"
  shows "serves rq (RateLimit lim n w h)"
proof (rule servesI)
  fix c :: Ctx
  assume c: "cx_req c = rq"
  have "runs (allow k l)" if "lim = Some allow" for allow k l
    using assms(2) that by (intro runs_harmless)
  moreover have "runs (h c')" if "cx_req c' = cx_req c" for c'
    using assms(1) c that by (simp add: servesD)
  ultimately show "runs (RateLimit lim n w h c)"
    unfolding RateLimit_def Let_def by (intro runs_intros) simp_all
qed

lemma serves_health: "serves rq Health_live"
  "(\<And>ck. ck \<in> set cks \<Longrightarrow> harmless (ck_Ping ck)) \<Longrightarrow> serves rq (Health_ready cks)"
proof -
  show "serves rq Health_live" by (rule servesI) (simp add: Health_live_def runs_ret)
  assume "\<And>ck. ck \<in> set cks \<Longrightarrow> harmless (ck_Ping ck)"
  then have "runs (run_checks cks)"
  proof (induction cks)
    case (Cons ck cks)
    then have "runs (ck_Ping ck)" by (intro runs_harmless) simp
    with Cons show ?case unfolding run_checks.simps run_check_def by (intro runs_intros) auto
  qed (simp add: runs_ret)
  then show "serves rq (Health_ready cks)"
    by (intro servesI) (auto simp: Health_ready_def intro!: runs_intros)
qed

lemma serves_foreign: "serves rq (rt_Handler (foreign_route app m p))" "serves rq no_route"
  "serves rq (ws_products ws cfg)"
  by (auto intro!: servesI runs_intros simp: foreign_route_def route_def no_route_def ws_products_def)

lemma serves_find_route:
  "list_all (\<lambda>r. serves rq (rt_Handler r)) (routes app) \<Longrightarrow> serves rq (find_route app rq)"
  by (auto simp: find_route_def list_all_iff serves_foreign dest: find_SomeD split: option.split)

lemma serves_serve: "serves rq (find_route app rq) \<Longrightarrow> runs (serve app rq)"
  unfolding serve_def by (rule servesD) (simp_all add: serves_middleware new_ctx_def)

end

lemma trading_replies:
  "trading.runs operation \<Longrightarrow> trading.runs (wishlist_reply operation reply c)"
  "trading.runs operation \<Longrightarrow> trading.runs (lab_reply operation reply c)"
  unfolding wishlist_reply_def lab_reply_def by (intro trading.runs_intros; assumption?)+

lemma trading_wishlist_handlers:
  "trading.runs (Wishlist_add deps c)" "trading.runs (Wishlist_list c)"
  "trading.runs (Wishlist_count deps c)" "trading.runs (Wishlist_remove deps c)"
  unfolding Wishlist_add_def Wishlist_list_def Wishlist_count_def Wishlist_remove_def
  by (intro trading.runs_intros trading_replies trading_wish_service)+

lemma trading_lab_handlers:
  "trading.runs (Lab_postgresSummary c)" "trading.runs (Lab_postgresSamples c)"
  "trading.runs (Lab_redisPeek ld c)" "trading.runs (Lab_redisInvalidate ld c)"
  "trading.runs (Lab_mongoEvents ld c)" "trading.runs (Lab_kafkaPing ld c)"
  "trading.runs (Lab_failureMatrix c)" "trading.runs (Lab_outboxPending ld c)"
  "trading.runs (Lab_outboxRelayOnce ld c)" "trading.runs (Lab_outboxPause ld c)"
  "trading.runs (Lab_outboxResume ld c)"
  "harmless_lab ld \<Longrightarrow> trading.runs (Lab_overview ld c)"
  "harmless_lab ld \<Longrightarrow> trading.runs (Lab_typesenseExplore ld c)"
  "harmless_lab ld \<Longrightarrow> trading.runs (Lab_typesenseReindex ld c)"
  unfolding Lab_postgresSummary_def Lab_postgresSamples_def Lab_redisPeek_def Lab_redisInvalidate_def
    Lab_mongoEvents_def Lab_kafkaPing_def Lab_failureMatrix_def Lab_outboxPending_def
    Lab_outboxRelayOnce_def Lab_outboxPause_def Lab_outboxResume_def Lab_overview_def
    Lab_typesenseExplore_def Lab_typesenseReindex_def
  by (intro trading.runs_intros trading_replies trading_lab_service trading_lab_postgres
      trading_lab_search; assumption?)+

definition harmless_app :: "App \<Rightarrow> bool" where
  "harmless_app app =
     ((\<forall>allow k l. app_limiter app = Some allow \<longrightarrow> harmless (allow k l))
      \<and> (\<forall>q n. harmless (engine_Search (app_engine app) q n))
      \<and> harmless_lab (app_lab app)
      \<and> (\<forall>ck\<in>set (app_checkers app). harmless (ck_Ping ck)))"

lemma serves_handlers:
  "shopping.serves rq (Order_create od)" "shopping.serves rq Order_list" "shopping.serves rq Order_getByID"
  "shopping.serves rq (Order_cancel od)" "shopping.serves rq Order_pay" "shopping.serves rq Order_fulfill"
  "shopping.serves rq (Auth_register v ad)" "shopping.serves rq (Auth_login v ad)"
  "shopping.serves rq (Auth_refresh ad)" "shopping.serves rq (Auth_logout ad)" "shopping.serves rq Auth_me"
  "shopping.serves rq (Wishlist_add deps)" "shopping.serves rq Wishlist_list"
  "shopping.serves rq (Wishlist_count deps)" "shopping.serves rq (Wishlist_remove deps)"
  "shopping.serves rq (Product_create deps)" "shopping.serves rq (Product_list deps)"
  "shopping.serves rq Product_catalog" "shopping.serves rq (Product_getByID deps)"
  "shopping.serves rq (Product_update deps)" "shopping.serves rq (Product_delete deps)"
  by (auto intro!: shopping.servesI intro: trading_shopping trading_order_handlers trading.runs_auth_handlers
      trading_wishlist_handlers shopping_product_handlers)

lemma serves_lab:
  "harmless_lab ld \<Longrightarrow> list_all (shopping.serves rq)
     [Lab_overview ld, Lab_postgresSummary, Lab_postgresSamples, Lab_redisPeek ld, Lab_redisInvalidate ld,
      Lab_mongoEvents ld, Lab_kafkaPing ld, Lab_typesenseExplore ld, Lab_typesenseReindex ld,
      Lab_failureMatrix, Lab_outboxPending ld, Lab_outboxRelayOnce ld, Lab_outboxPause ld,
      Lab_outboxResume ld]"
  by (simp add: shopping.servesI trading_shopping trading_lab_handlers)

lemma serves_secured: "shopping.serves rq h \<Longrightarrow> shopping.serves rq (Auth L secret h)"
  by (rule shopping.serves_as [where P = "\<lambda>_ _. True"]) (auto dest: shopping.servesD)

lemma serves_routes:
  assumes "harmless_app app"
  shows "list_all (\<lambda>r. shopping.serves rq (rt_Handler r)) (routes app)"
proof -
  have ready: "shopping.serves rq (Health_ready (app_checkers app))"
    using assms by (intro shopping.serves_health) (simp add: harmless_app_def)
  have search: "shopping.serves rq (Product_search (app_deps app) (app_engine app))"
    using assms by (intro shopping.servesI shopping_product_handlers) (simp add: harmless_app_def)
  have "harmless_lab (app_lab app)" using assms by (simp add: harmless_app_def)
  note handlers = ready search serves_lab [OF this] serves_handlers shopping.serves_health(1)
    shopping.serves_foreign
  have lim: "\<And>allow k l. app_limiter app = Some allow \<Longrightarrow> harmless (allow k l)"
    using assms by (auto simp: harmless_app_def)
  show ?thesis
    unfolding routes_def health_routes_def api_routes_def auth_routes_def product_routes_def
      wishlist_routes_def order_routes_def lab_routes_def debug_routes_def notify_routes_def Let_def
    by (simp add: shopping.serves_foreign)
      (simp add: route_def api_route_def secured_def admin_only_def handlers,
       intro conjI impI shopping.serves_middleware shopping.serves_RateLimit serves_secured lim;
       (use handlers in simp))
qed

lemma runs_serve: "harmless_app app \<Longrightarrow> shopping.runs (serve app rq)"
  by (intro shopping.serves_serve shopping.serves_find_route serves_routes)

lemma runs_serve_all: "harmless_app app \<Longrightarrow> shopping.runs (serve_all app rqs)"
  by (induction rqs) (auto intro!: shopping.runs_intros runs_serve)

lemma serve_all_reachable:
  assumes "harmless_app app" and "reachable s0 s" and "system_inv s0" and "serve_all app rqs s = (r, s')"
  shows "reachable s0 s'"
  using shopping.runsD [OF runs_serve_all [OF assms(1)] assms(4)] assms(2,3)
  by (auto simp: shops_def intro: reachable_inv reachable_trans)

end
