(* ===== verification/Replies.thy ===== *)
theory Replies
  imports Server
begin

text \<open>
  Every request is answered: \<open>answers Q m\<close> says that a run of \<open>m\<close> never ends with an error of its
  own, whatever fails underneath, and that the context it leaves satisfies \<open>Q\<close>; \<open>replied c\<close> is
  the \<open>Q\<close> of the handlers: there is a reply, and the request and what was observed of it are those
  of \<open>c\<close>.  One rule per combinator and one per middleware; each handler follows from its shape.
\<close>

section \<open>Rules\<close>

definition replied :: "Ctx \<Rightarrow> Ctx \<Rightarrow> bool" where
  "replied c c' = (cx_reply c' \<noteq> None \<and> cx_req c' = cx_req c \<and> cx_seen c' = cx_seen c)"

definition answers :: "(Ctx \<Rightarrow> bool) \<Rightarrow> Ctx io \<Rightarrow> bool" where
  "answers Q m = (\<forall>s. \<exists>c s'. m s = (Inr c, s') \<and> Q c)"

named_theorems answers_intro \<open>rules for answers\<close>

abbreviation total :: "'a io \<Rightarrow> bool" where
  "total m \<equiv> fails_with (\<lambda>_. False) m"

lemma total_run: "total m \<Longrightarrow> \<exists>a s'. m s = (Inr a, s')"
  by (cases "m s"; cases "fst (m s)") (auto dest: fails_withD)

lemma total_clock [fails_intro]:
  "total now" "total new_uuid" "total get_uint_conv" "total (set_relay_paused b)" "total get_relay_paused"
  by (auto intro!: fails_withI simp: now_def new_uuid_def get_uint_conv_def set_relay_paused_def
      get_relay_paused_def)

lemma answers_ret [answers_intro]: "Q c \<Longrightarrow> answers Q (ret c)"
  by (simp add: answers_def ret_def)

lemma answers_bindE [answers_intro]:
  assumes "total m" and "\<And>a. answers Q (f a)"
  shows "answers Q (bindE m f)"
  unfolding answers_def
proof
  fix s
  from total_run [OF assms(1)] obtain a s1 where "m s = (Inr a, s1)" by blast
  with assms(2) [of a] show "\<exists>c s'. bindE m f s = (Inr c, s') \<and> Q c"
    by (auto simp: answers_def bindE_def)
qed

lemma answers_then:
  assumes "answers Q m" and "\<And>c. Q c \<Longrightarrow> answers R (f c)"
  shows "answers R (bindE m f)"
  unfolding answers_def
proof
  fix s
  from assms(1) obtain c s1 where "m s = (Inr c, s1)" "Q c" unfolding answers_def by blast
  with assms(2) [of c] show "\<exists>c s'. bindE m f s = (Inr c, s') \<and> R c"
    by (auto simp: answers_def bindE_def)
qed

lemma answers_mono: "answers Q m \<Longrightarrow> (\<And>c. Q c \<Longrightarrow> R c) \<Longrightarrow> answers R m"
  unfolding answers_def by blast

lemma answers_if [answers_intro]:
  "answers Q m \<Longrightarrow> answers Q n \<Longrightarrow> answers Q (if b then m else n)"
  by simp

lemma answers_option [answers_intro]:
  "answers Q m \<Longrightarrow> (\<And>a. answers Q (f a)) \<Longrightarrow> answers Q (case x of None \<Rightarrow> m | Some a \<Rightarrow> f a)"
  by (simp split: option.split)

lemma answers_sum [answers_intro]:
  "(\<And>e. answers Q (f e)) \<Longrightarrow> (\<And>a. answers Q (g a)) \<Longrightarrow> answers Q (case x of Inl e \<Rightarrow> f e | Inr a \<Rightarrow> g a)"
  by (simp split: sum.split)

lemma answers_result [answers_intro]:
  "(\<And>o'. answers Q (f o')) \<Longrightarrow> (\<And>st b. answers Q (g st b))
   \<Longrightarrow> answers Q (case x of NewOrder o' \<Rightarrow> f o' | Replay st b \<Rightarrow> g st b)"
  by (simp split: CreateResult.split)

lemma replied_response [simp]:
  "replied c (c_JSON st e c') = (cx_req c' = cx_req c \<and> cx_seen c' = cx_seen c)"
  "replied c (c_Data st b c') = (cx_req c' = cx_req c \<and> cx_seen c' = cx_seen c)"
  by (auto simp: replied_def c_JSON_def c_Data_def)

declare response_defs [simp]

lemma replied_errors [simp]:
  "replied c (order_mapErr e c)" "replied c (product_mapErr e c)"
  "replied c (auth_mapErr e c)" "replied c (wishlist_mapErr e c)"
  "replied c (lab_mapErr e c)" "replied c (unauthorized e c)"
  "replied c (unauthorized_reply c)" "replied c (invalid_reply m c)"
  "replied c (unauthorized_code c)" "replied c (unauthorized_plain c)"
  "replied c (bad_cursor c)" "replied c (bad_body c)" "replied c (page_reply l r c)"
  by (simp_all add: order_mapErr_def product_mapErr_def auth_mapErr_def wishlist_mapErr_def lab_mapErr_def
      unauthorized_def unauthorized_reply_def invalid_reply_def unauthorized_code_def unauthorized_plain_def
      bad_cursor_def bad_body_def page_reply_def Let_def)

section \<open>Replies to service calls\<close>

lemma answers_replies [answers_intro]:
  "(\<And>a. replied c (reply a c)) \<Longrightarrow> answers (replied c) (product_reply operation reply c)"
  "(\<And>a. replied c (reply a c)) \<Longrightarrow> answers (replied c) (auth_reply operation reply c)"
  "(\<And>a. replied c (reply a c)) \<Longrightarrow> answers (replied c) (wishlist_reply operation reply c)"
  "(\<And>a. replied c (reply a c)) \<Longrightarrow> answers (replied c) (lab_reply operation reply c)"
  unfolding product_reply_def auth_reply_def wishlist_reply_def lab_reply_def
  by (intro answers_intro fails_intro; simp)+

lemma answers_order_id [answers_intro]:
  "(\<And>a. replied c (reply a c)) \<Longrightarrow> answers (replied c) (with_order_id c operation reply)"
  unfolding with_order_id_def by (intro answers_intro fails_intro; simp)

lemma answers_orders:
  "answers (replied c) (Order_create od c)" "answers (replied c) (Order_list c)" "answers (replied c) (Order_getByID c)"
  "answers (replied c) (Order_cancel od c)" "answers (replied c) (Order_pay c)" "answers (replied c) (Order_fulfill c)"
  unfolding Order_create_def Order_list_def Order_getByID_def Order_cancel_def Order_pay_def
    Order_fulfill_def Let_def
  by (intro answers_intro fails_intro; auto split: prod.split)+

lemma answers_products:
  "answers (replied c) (Product_create deps c)" "answers (replied c) (Product_list deps c)" "answers (replied c) (Product_catalog c)"
  "answers (replied c) (Product_search deps engine c)" "answers (replied c) (Product_getByID deps c)"
  "answers (replied c) (Product_update deps c)" "answers (replied c) (Product_delete deps c)"
  unfolding Product_create_def Product_list_def Product_catalog_def Product_search_def
    Product_getByID_def Product_update_def Product_delete_def Let_def
  by (intro answers_intro fails_intro; simp)+

lemma answers_auth:
  "answers (replied c) (Auth_register v ad c)" "answers (replied c) (Auth_login v ad c)" "answers (replied c) (Auth_refresh ad c)"
  "answers (replied c) (Auth_logout ad c)" "answers (replied c) (Auth_me c)"
  unfolding Auth_register_def Auth_login_def Auth_refresh_def Auth_logout_def Auth_me_def
  by (intro answers_intro fails_intro; simp)+

lemma answers_wishlist:
  "answers (replied c) (Wishlist_add deps c)" "answers (replied c) (Wishlist_list c)" "answers (replied c) (Wishlist_count deps c)"
  "answers (replied c) (Wishlist_remove deps c)"
  unfolding Wishlist_add_def Wishlist_list_def Wishlist_count_def Wishlist_remove_def
  by (intro answers_intro fails_intro; simp)+

lemma total_paused [fails_intro]: "total (Paused st)" "total (SetPaused st b)"
  unfolding Paused_def SetPaused_def by (intro fails_intro)+

lemma total_OutboxSetPaused [fails_intro]: "total (OutboxSetPaused ld b)"
  unfolding OutboxSetPaused_def by (intro fails_intro)

lemma answers_lab:
  "answers (replied c) (Lab_overview ld c)" "answers (replied c) (Lab_postgresSummary c)" "answers (replied c) (Lab_postgresSamples c)"
  "answers (replied c) (Lab_redisPeek ld c)" "answers (replied c) (Lab_redisInvalidate ld c)" "answers (replied c) (Lab_mongoEvents ld c)"
  "answers (replied c) (Lab_kafkaPing ld c)" "answers (replied c) (Lab_typesenseExplore ld c)" "answers (replied c) (Lab_typesenseReindex ld c)"
  "answers (replied c) (Lab_failureMatrix c)" "answers (replied c) (Lab_outboxPending ld c)" "answers (replied c) (Lab_outboxRelayOnce ld c)"
  "answers (replied c) (Lab_outboxPause ld c)" "answers (replied c) (Lab_outboxResume ld c)"
  unfolding Lab_overview_def Lab_postgresSummary_def Lab_postgresSamples_def Lab_redisPeek_def
    Lab_redisInvalidate_def Lab_mongoEvents_def Lab_kafkaPing_def Lab_typesenseExplore_def
    Lab_typesenseReindex_def Lab_failureMatrix_def Lab_outboxPending_def Lab_outboxRelayOnce_def
    Lab_outboxPause_def Lab_outboxResume_def
  by (intro answers_intro fails_intro; simp)+

lemma total_run_checks [fails_intro]: "total (run_checks cks)"
  unfolding run_checks.simps
  by (induction cks) (auto intro!: fails_intro simp: run_check_def)

lemma answers_health: "answers (replied c) (Health_live c)" "answers (replied c) (Health_ready cks c)"
  unfolding Health_live_def Health_ready_def ready_reply_def by (intro answers_intro fails_intro; simp)+

section \<open>Middleware and the server\<close>

definition answering :: "handler \<Rightarrow> bool" where
  "answering h = (\<forall>c. answers (replied c) (h c))"

lemma replied_changes [simp]:
  "replied (c\<lparr>cx_userID := u, cx_userRole := r\<rparr>) = replied c" "replied (c\<lparr>cx_deadline := d\<rparr>) = replied c"
  "replied (set_header k v c) = replied c"
  "replied (foldl (\<lambda>c (k, v). set_header k v c) c kvs) = replied c"
  by (auto simp: replied_def fun_eq_iff)

lemma answering_set_header:
  "answering h \<Longrightarrow> answers (replied c) (h (set_header k v c))"
  "answering h \<Longrightarrow> answers (replied c) (h (c\<lparr>cx_userID := u, cx_userRole := r\<rparr>))"
  unfolding answering_def by (metis replied_changes)+

lemma answering_middleware:
  assumes "answering h"
  shows "answering (APIKey_mw key h)" "answering (Auth L secret h)" "answering (RequireRole roles h)"
    "answering (RateLimit lim n w h)" "answering (notify_authenticate up L cf h)"
proof -
  have h: "answers (replied c) (h c')" if "replied c = replied c'" for c c'
    using assms that by (simp add: answering_def)
  show "answering (APIKey_mw key h)" "answering (Auth L secret h)" "answering (RequireRole roles h)"
    "answering (RateLimit lim n w h)" "answering (notify_authenticate up L cf h)"
    unfolding answering_def APIKey_mw_def Auth_def RequireRole_def RateLimit_def notify_authenticate_def Let_def
    by (auto intro!: answers_intro fails_intro h)
qed

lemma answering_libraries: "answering (rt_Handler (foreign_route app m p))" "answering no_route"
  "answering (ws_products ws cfg)"
  unfolding answering_def foreign_route_def route_def no_route_def ws_products_def
  by (auto intro!: answers_intro fails_intro simp: replied_def c_Data_def split: upgrade_result.split)

lemma answering_routes: "list_all (\<lambda>r. answering (rt_Handler r)) (routes app)"
  unfolding routes_def health_routes_def api_routes_def auth_routes_def product_routes_def
    wishlist_routes_def order_routes_def lab_routes_def debug_routes_def notify_routes_def Let_def
  by (simp add: answering_libraries)
    (simp add: route_def api_route_def secured_def admin_only_def answering_libraries,
      intro conjI impI answering_middleware answering_libraries;
      simp add: answering_def answers_orders answers_products answers_auth answers_wishlist answers_lab
        answers_health)

lemma answering_find_route: "answering (find_route app rq)"
  using answering_routes [of app] answering_libraries(2)
  by (auto simp: find_route_def list_all_iff dest: find_SomeD split: option.split)

section \<open>The whole chain\<close>

text \<open>What is observed of a request whose context is \<open>c\<close> in the end: one log line (unless CORS has
  answered, which happens before the logger), one count, one duration, one span.\<close>

definition sent :: "Request \<Rightarrow> Ctx \<Rightarrow> bool" where
  "sent rq c = (cx_reply c \<noteq> None \<and> cx_req c = rq)"

definition request_line :: "Ctx \<Rightarrow> duration \<Rightarrow> LogLine" where
  "request_line c d =
     \<lparr>log_requestId = (case get_header ''X-Request-ID'' c of None \<Rightarrow> [] | Some v \<Rightarrow> v),
      log_method = rq_Method (cx_req c), log_path = rq_Path (cx_req c), log_route = route_label c,
      log_status = writer_status c, log_ip = rq_ClientIP (cx_req c), log_duration = d,
      log_userId = cx_userID c\<rparr>"

definition request_span :: "Ctx \<Rightarrow> Span" where
  "request_span c =
     (let rq = cx_req c; route = (if rq_FullPath rq = [] then rq_Path rq else rq_FullPath rq) in
      \<lparr>span_Name = rq_Method rq @ '' '' @ route, span_Method = rq_Method rq, span_Path = rq_Path rq,
       span_Status = writer_status c, span_Route = route, span_Error = (500 \<le> writer_status c)\<rparr>)"

definition log_of :: "Ctx \<Rightarrow> duration \<Rightarrow> observation list" where
  "log_of c d = [LogRecord (log_level (writer_status c)) (request_line c d)]"

definition metrics_of :: "Ctx \<Rightarrow> duration \<Rightarrow> observation list" where
  "metrics_of c d =
     [RequestsTotal (rq_Method (cx_req c)) (route_label c) (show_int (writer_status c)),
      RequestDuration (rq_Method (cx_req c)) (route_label c) d]"

definition seen_as :: "Request \<Rightarrow> (Ctx \<Rightarrow> observation list set) \<Rightarrow> Ctx \<Rightarrow> bool" where
  "seen_as rq F c = (sent rq c \<and> cx_seen c \<in> F c)"

definition ends :: "Request \<Rightarrow> (Ctx \<Rightarrow> observation list set) \<Rightarrow> handler \<Rightarrow> bool" where
  "ends rq F h = (\<forall>c. cx_req c = rq \<and> cx_seen c = [] \<longrightarrow> answers (seen_as rq F) (h c))"

lemma observe_fields [simp]:
  "cx_req (observe os c) = cx_req c" "cx_reply (observe os c) = cx_reply c"
  "cx_seen (observe os c) = cx_seen c @ os" "route_label (observe os c) = route_label c"
  "writer_status (observe os c) = writer_status c" "cx_userID (observe os c) = cx_userID c"
  "get_header k (observe os c) = get_header k c"
  by (simp_all add: observe_def route_label_def writer_status_def get_header_def Let_def)

lemma ends_inner: "answering h \<Longrightarrow> ends rq (\<lambda>_. {[]}) h"
  unfolding ends_def answering_def
  by (auto simp: seen_as_def sent_def replied_def intro: answers_mono [where Q = "replied _"])

lemma ends_passing:
  assumes "ends rq F h"
  shows "ends rq F (RequestID h)" "ends rq F (SecurityHeaders b h)" "ends rq F (Timeout d h)"
  using assms unfolding ends_def RequestID_def SecurityHeaders_def Timeout_def Let_def
  by (auto intro!: answers_intro fails_intro)

lemma ends_CORS:
  assumes "ends rq F h" and "lib cfg rq = (hs, abort)"
  shows "ends rq (\<lambda>c. if abort = None then F c else {[]}) (CORS_mw lib cfg h)"
  using assms unfolding ends_def CORS_mw_def Let_def
  by (cases abort) (auto intro!: answers_ret elim!: answers_mono simp: seen_as_def sent_def c_Data_def)

lemma ends_observers:
  assumes "ends rq F h" and "\<And>c os. F (observe os c) = F c"
  shows "ends rq (\<lambda>c. {os @ log_of c d |os d. os \<in> F c}) (RequestLogger h)"
    "ends rq (\<lambda>c. {os @ metrics_of c d |os d. os \<in> F c}) (Metrics h)"
    "ends rq (\<lambda>c. {os @ [SpanEnd (request_span c)] |os. os \<in> F c}) (Tracing h)"
proof -
  have h: "answers (seen_as rq F) (h c)" if "cx_req c = rq" "cx_seen c = []" for c
    using assms(1) that by (simp add: ends_def)
  show "ends rq (\<lambda>c. {os @ log_of c d |os d. os \<in> F c}) (RequestLogger h)"
    unfolding ends_def RequestLogger_def Let_def
    by (intro allI impI answers_bindE total_clock answers_then [OF h] answers_ret)
      (auto simp: seen_as_def sent_def log_of_def request_line_def assms(2))
  show "ends rq (\<lambda>c. {os @ metrics_of c d |os d. os \<in> F c}) (Metrics h)"
    unfolding ends_def Metrics_def Let_def
    by (intro allI impI answers_bindE total_clock answers_then [OF h] answers_ret)
      (auto simp: seen_as_def sent_def metrics_of_def assms(2))
  show "ends rq (\<lambda>c. {os @ [SpanEnd (request_span c)] |os. os \<in> F c}) (Tracing h)"
    unfolding ends_def Tracing_def Let_def
    by (intro allI impI answers_bindE total_clock answers_then [OF h] answers_ret)
      (auto simp: seen_as_def sent_def request_span_def Let_def assms(2))
qed

lemma label_observe [simp]: "log_of (observe os c) = log_of c" "metrics_of (observe os c) = metrics_of c"
  "request_span (observe os c) = request_span c"
  by (simp_all add: log_of_def metrics_of_def request_span_def request_line_def fun_eq_iff Let_def)

definition observations :: "bool \<Rightarrow> Ctx \<Rightarrow> observation list set" where
  "observations logged c =
     {(if logged then log_of c d else []) @ metrics_of c d' @ [SpanEnd (request_span c)] |d d'. True}"

lemma answers_serve:
  assumes "app_cors app (cors_config (app_cfg app)) rq = (hs, abort)"
  shows "answers (seen_as rq (observations (abort = None))) (serve app rq)"
proof -
  let ?inner = "Timeout (RequestTimeout (app_cfg app)) (RequestLogger (find_route app rq))"
  let ?F = "\<lambda>c. if abort = None then {os @ log_of c d |os d. os \<in> {[]}} else {[]}"
  have "ends rq (\<lambda>c. {os @ log_of c d |os d. os \<in> {[]}}) ?inner"
    by (rule ends_passing(3), rule ends_observers(1) [OF ends_inner [OF answering_find_route]]) simp
  from ends_CORS [of rq _ _ "app_cors app", OF this assms]
  have "ends rq ?F (SecurityHeaders (EnableHSTS (app_cfg app))
      (CORS_mw (app_cors app) (cors_config (app_cfg app)) ?inner))"
    by (rule ends_passing(2))
  note metrics = ends_observers(2) [OF this]
  have "ends rq (\<lambda>c. {os @ [SpanEnd (request_span c)] |os. os \<in> {os @ metrics_of c d |os d. os \<in> ?F c}})
      (Tracing (Metrics (SecurityHeaders (EnableHSTS (app_cfg app))
        (CORS_mw (app_cors app) (cors_config (app_cfg app)) ?inner))))"
    by (rule ends_observers(3) [OF metrics]) simp_all
  then have "answers (seen_as rq (\<lambda>c. {os @ [SpanEnd (request_span c)] |os. os \<in> {os @ metrics_of c d |os d. os \<in> ?F c}}))
      (serve app rq)"
    unfolding serve_def using ends_passing(1) by (fastforce simp: ends_def new_ctx_def)
  then show ?thesis
    by (rule answers_mono) (auto simp: seen_as_def observations_def split: if_splits, blast+)
qed

end
