(* ===== verification/Demo.thy ===== *)
theory Demo
  imports Runs
begin

text \<open>
  A small shop at work, on which the properties are exercised: one customer, one product
  with five in stock, an environment without faults.  \<open>shop1\<close> has an order for two,
  \<open>shop2\<close> has its event on the topic, \<open>shop3\<close> has processed it (the order is paid),
  \<open>shop4\<close> has the event of the payment on the topic.
\<close>

definition quiet :: env where
  "quiet = \<lparr>fault = \<lambda>_. None, commit_lost = \<lambda>_. False, clock = \<lambda>n. int n * second,
     uuid = show_nat, ctx_done = \<lambda>_. False, uint_conv = \<lambda>_. 0\<rparr>"

definition alice :: UserModel where
  "alice = \<lparr>u_ID = 1, u_Name = ''alice'', u_Email = ''alice@shop.id'', u_PasswordHash = [],
     u_Role = RoleUser, u_CreatedAt = 0, u_UpdatedAt = 0, u_DeletedAt = None\<rparr>"

definition kopi :: ProductModel where
  "kopi = \<lparr>p_ID = 1, p_UserID = 1, p_Name = ''kopi'', p_Description = [],
     p_Price = f64_of_int 28000, p_Stock = 5, p_CreatedAt = 0, p_UpdatedAt = 0, p_DeletedAt = None\<rparr>"

definition db0 :: db where
  "db0 = \<lparr>users = [alice], products = [kopi], orders = [], order_items = [], reservations = [],
     payments = [], idempotency_keys = [], outbox_events = [], processed_events = [],
     stock_ledger = [], wishlists = []\<rparr>"

definition shop0 :: sys where
  "shop0 = \<lparr>env = quiet, tick = 0, db = db0, seqs = \<lambda>_. 0, topic_products = [], topic_dlq = [],
     mongo = [], redis = \<lambda>_. None, jobs = [], relay_paused = False\<rparr>"

definition basket :: "CreateItem list" where
  "basket = [\<lparr>ci_ProductID = 1, ci_Qty = 2\<rparr>]"

definition worker :: Processor where
  "worker = \<lparr>has_payment = True, has_inventory = True, has_cache = True, has_dlq = True\<rparr>"

definition shop1 :: sys where "shop1 = snd (CreateOrder 1 basket shop0)"
definition shop2 :: sys where "shop2 = snd (RelayOnce Publish shop1)"
definition shop3 :: sys where "shop3 = snd (Dispatch_Handle worker (Fetch (topic_products shop2 ! 0)) shop2)"
definition shop4 :: sys where "shop4 = snd (RelayOnce Publish shop3)"

lemma shop0_inv: "system_inv shop0"
  by (simp add: system_inv_def shop_inv_def schema_defs outbox_ok_def inbox_ok_def stock_inv_def
      qty_inv_def status_inv_def fits_inv_def reserve_inv_def ledger_order_sum_def ledger_sum_def
      reserved_def taken_def pay_inv_def line_inv_def total_inv_def version_inv_def event_inv_def announced_def
      kafka.relay_inv_def topic_inv_def audit_ok_def shop0_def db0_def kopi_def)

lemma shop1_run: "trades shop0 shop1"
  unfolding shop1_def by (rule trades.more [OF trades.none trade.create]) (rule prod.collapse [symmetric])

lemma shop2_run: "trades shop0 shop2"
  unfolding shop2_def by (rule trades.more [OF shop1_run trade.relay]) (rule prod.collapse [symmetric])

text \<open>The relay touches the tables, the topic and the tick only.\<close>

lemma relay_preserves:
  assumes tick: "\<And>s. I s \<Longrightarrow> I (tock s)" and tables: "\<And>s d. I s \<Longrightarrow> I (s\<lparr>db := d\<rparr>)"
    and topic: "\<And>s ws. I s \<Longrightarrow> I (s\<lparr>topic_products := ws\<rparr>)"
  shows "preserves I (RelayOnce Publish)"
proof -
  have basic: "preserves I now" "preserves I (query f)" "preserves I (update_published i t)" for f i t
    using tick tables [OF tick]
    by (auto intro!: preservesI simp: wp_simps wp_def [of "query _"] interact_defs update_published_def
      wp_def [of "interact _"] split: option.split)
  have kafka_write: "preserves I (WriteMessages m)" for m
    using tick topic [OF tick] by (auto intro!: preservesI simp: wp_simps split: option.split)
  have publish: "preserves I (Publish k ev)" for k ev
    unfolding Publish_def
    by (intro preserves_cases preserves_throw preserves_bindE preserves_attempt preserves_ret kafka_write)
  have "preserves I (relay_rows Publish rows n)" for rows n
  proof (induction rows arbitrary: n)
    case (Cons row rows)
    show ?case
      unfolding relay_rows.simps
      by (intro preserves_ret preserves_throw preserves_bindE preserves_attempt preserves_ignore preserves_cases
          basic publish Cons.IH)
  qed (simp add: preserves_ret)
  then show ?thesis
    unfolding RelayOnce_def PendingCount_def
    by (intro preserves_ret preserves_throw preserves_bindE preserves_attempt preserves_ignore preserves_cases
        basic)
qed

lemma env_relay: "preserves (\<lambda>s. env s = e) (RelayOnce Publish)"
  by (rule relay_preserves) simp_all

lemma env_shop1: "env shop1 = quiet"
  using sql_only_run [OF sql_only_operations(1), of 1 basket shop0]
  by (cases "CreateOrder 1 basket shop0") (simp add: shop1_def shop0_def outside_def)

lemma env_shop2: "env shop2 = quiet"
  unfolding shop2_def by (rule preservesD [OF env_relay _ prod.collapse [symmetric]]) (rule env_shop1)

lemma shop2_topic: "length (topic_products shop2) = 1" "list_all (\<lambda>o'. o_ID o' = 1) (orders (db shop2))"
  by code_simp+

lemma shop2_small: "small_ids shop2"
  using shop2_topic(2) by (simp add: small_ids_def list_all_iff)

lemma shop3_run: "trades shop0 shop3"
  unfolding shop3_def
  by (rule trades.more [OF shop2_run trade.deliver [where w = "topic_products shop2 ! 0"
        and p = worker and r = "fst (Dispatch_Handle worker (Fetch (topic_products shop2 ! 0)) shop2)"]])
    (simp_all add: shop2_topic(1) shop2_small)

lemma shop4_run: "trades shop0 shop4"
  unfolding shop4_def by (rule trades.more [OF shop3_run trade.relay]) (rule prod.collapse [symmetric])

text \<open>The customer's payment fails before the worker hears of the order.\<close>

definition shop5 :: sys where "shop5 = snd (Pay 1 1 ''fail'' ''k1'' shop2)"
definition shop6 :: sys where "shop6 = snd (Dispatch_Handle worker (Fetch (topic_products shop5 ! 0)) shop5)"

lemma shop5_run: "trades shop0 shop5"
  unfolding shop5_def by (rule trades.more [OF shop2_run trade.pay]) (rule prod.collapse [symmetric])

lemma shop5_topic: "length (topic_products shop5) = 1" "list_all (\<lambda>o'. o_ID o' = 1) (orders (db shop5))"
  by code_simp+

lemma shop6_run: "trades shop0 shop6"
  unfolding shop6_def
  by (rule trades.more [OF shop5_run trade.deliver [where w = "topic_products shop5 ! 0"
        and p = worker and r = "fst (Dispatch_Handle worker (Fetch (topic_products shop5 ! 0)) shop5)"]])
    (use shop5_topic in \<open>simp_all add: small_ids_def list_all_iff\<close>)

text \<open>Two orders on the topic, and a database that refuses the first transaction.\<close>

definition two_orders :: sys where
  "two_orders = snd (RelayOnce Publish (snd (CreateOrder 1 basket (snd (CreateOrder 1 basket shop0)))))"

definition flaky :: sys where
  "flaky = two_orders\<lparr>env := quiet\<lparr>fault := (\<lambda>n. if n = Suc (tick two_orders) then Some ''connection refused'' else None)\<rparr>\<rparr>"

definition reader0 :: Reader where
  "reader0 = \<lparr>position = 0, committed_offset = 0, backoff = first_backoff\<rparr>"

definition consume_two :: "sys \<Rightarrow> (go_error + Reader) \<times> sys" where
  "consume_two = bindE (consume_one worker reader0) (consume_one worker)"

end
