(* ===== verification/Requests.thy ===== *)
theory Requests
  imports Api_Server Replies Demo
begin

text \<open>
  Properties of whole requests: they are always answered, they keep the invariants of the
  system, and the routes that need a token or the role of an administrator refuse without one.
  \<open>refuses\<close> says that a handler answers one of the given statuses and changes nothing.
\<close>

section \<open>Refusal\<close>

definition refused :: "int set \<Rightarrow> sys \<Rightarrow> (go_error + Ctx) \<times> sys \<Rightarrow> bool" where
  "refused codes s out = (\<exists>c s' st. out = (Inr c, s') \<and> status_of c = Some st \<and> st \<in> codes
     \<and> db s' = db s \<and> outside s' = outside s)"

definition refuses :: "int set \<Rightarrow> Request \<Rightarrow> handler \<Rightarrow> bool" where
  "refuses codes rq h = (\<forall>c s. cx_req c = rq \<longrightarrow> refused codes s (h c s))"

lemma refusesI: "(\<And>c s. cx_req c = rq \<Longrightarrow> refused codes s (h c s)) \<Longrightarrow> refuses codes rq h"
  by (simp add: refuses_def)

lemma refusesD: "refuses codes rq h \<Longrightarrow> cx_req c = rq \<Longrightarrow> refused codes s (h c s)"
  by (simp add: refuses_def)

lemma refused_ret [simp]:
  "refused codes s (ret c s) = (\<exists>st. status_of c = Some st \<and> st \<in> codes)"
  by (simp add: refused_def ret_def)

lemma refused_later:
  "refused codes s1 out \<Longrightarrow> db s1 = db s \<Longrightarrow> outside s1 = outside s \<Longrightarrow> refused codes s out"
  by (simp add: refused_def)

lemma refused_bindE:
  "m s = (Inr a, s1) \<Longrightarrow> db s1 = db s \<Longrightarrow> outside s1 = outside s \<Longrightarrow> refused codes s1 (f a s1)
   \<Longrightarrow> refused codes s (bindE m f s)"
  by (simp add: bindE_def refused_def)

lemma refuses_APIKey: "refuses codes rq h \<Longrightarrow> 401 \<in> codes \<Longrightarrow> refuses codes rq (APIKey_mw key h)"
  by (rule refusesI) (simp add: APIKey_mw_def Let_def refuses_def)

lemma refuses_RateLimit:
  assumes h: "refuses codes rq h" and codes: "429 \<in> codes" "503 \<in> codes"
    and lim: "\<And>allow k l. lim = Some allow \<Longrightarrow> harmless (allow k l)"
  shows "refuses codes rq (RateLimit lim n w h)"
proof (rule refusesI)
  fix c :: Ctx and s :: sys
  assume c: "cx_req c = rq"
  show "refused codes s (RateLimit lim n w h c s)"
  proof (cases lim)
    case None
    with refusesD [OF h c] show ?thesis by (simp add: RateLimit_def)
  next
    case (Some allow)
    let ?ask = "attempt (allow (''rl:'' @ rq_ClientIP rq) \<lparr>lim_Rate = n, lim_Burst = n, lim_Period = w\<rparr>)"
    obtain r s1 where r: "?ask s = (Inr r, s1)" by (fastforce simp: attempt_def split: prod.split)
    then have "s1 = snd (allow (''rl:'' @ rq_ClientIP rq) \<lparr>lim_Rate = n, lim_Burst = n, lim_Period = w\<rparr> s)"
      by (simp add: attempt_def split: prod.splits)
    with lim [OF Some] have "db s1 = db s" "outside s1 = outside s" by (simp_all add: harmless_def)
    note r = r this
    show ?thesis
      unfolding RateLimit_def Some option.case c
      by (rule refused_bindE [where m = ?ask, OF r])
        (use refusesD [OF h] c codes in \<open>simp add: Let_def split: sum.split\<close>)
  qed
qed


lemma refuses_role:
  assumes "\<And>t c cl. cx_req c = rq \<Longrightarrow> authenticated L secret t c = Some cl \<Longrightarrow> cl_Role cl \<notin> set roles"
    and "401 \<in> codes" "403 \<in> codes"
  shows "refuses codes rq (Auth L secret (RequireRole roles h))"
proof (rule refusesI)
  fix c :: Ctx and s :: sys
  assume c: "cx_req c = rq"
  show "refused codes s (Auth L secret (RequireRole roles h) c s)"
  proof (cases "authenticated L secret (clock (env s) (tick s)) c")
    case None
    from Auth_refuses [OF this, of "RequireRole roles h"] assms(2) show ?thesis
      by (auto simp: refused_def)
  next
    case (Some cl)
    from assms(1) [OF c Some] assms(3) have "refused codes (tock s)
        (RequireRole roles h (c\<lparr>cx_userID := Some (cl_UserID cl), cx_userRole := Some (cl_Role cl)\<rparr>) (tock s))"
      by (simp add: RequireRole_def)
    then show ?thesis unfolding Auth_passes [OF Some] by (rule refused_later) simp_all
  qed
qed

lemma authenticated_req: "cx_req c = cx_req c0 \<Longrightarrow> authenticated L secret t c = authenticated L secret t c0"
  by (simp add: authenticated_def bearer_def GetHeader_def)

lemma refused_then:
  assumes "refused codes s (m s)"
    and "\<And>c s1. \<exists>c' s2. f c s1 = (Inr c', s2) \<and> status_of c' = status_of c
           \<and> db s2 = db s1 \<and> outside s2 = outside s1"
  shows "refused codes s (bindE m f s)"
proof -
  from assms(1) obtain c s1 st where m: "m s = (Inr c, s1)" "status_of c = Some st" "st \<in> codes"
    "db s1 = db s" "outside s1 = outside s" by (auto simp: refused_def)
  from assms(2) [of c s1] m show ?thesis by (auto simp: bindE_def refused_def)
qed

lemma status_observe [simp]: "status_of (observe os c) = status_of c"
  by (simp add: status_of_def observe_def)

lemma refused_clock: "refused codes (tock s) (f (clock (env s) (tick s)) (tock s)) \<Longrightarrow> refused codes s (bindE now f s)"
  by (rule refused_bindE) (auto simp: now_def)

lemma refuses_chain:
  assumes h: "refuses codes rq h"
  shows "refuses codes rq (SecurityHeaders b h)" "refuses codes rq (RequestID h)"
    "refuses codes rq (Timeout d h)" "refuses codes rq (Metrics h)" "refuses codes rq (RequestLogger h)"
    "refuses codes rq (Tracing h)"
proof -
  show "refuses codes rq (SecurityHeaders b h)"
    by (rule refusesI) (simp add: SecurityHeaders_def refusesD [OF h])
  show "refuses codes rq (RequestID h)"
    by (rule refusesI)
      (auto simp: RequestID_def Let_def new_uuid_def refusesD [OF h] intro!: refused_bindE)
  show "refuses codes rq (Timeout d h)"
    by (rule refusesI) (auto simp: Timeout_def refusesD [OF h] intro!: refused_clock)
  note after = refused_then [OF refusesD [OF h]]
  show "refuses codes rq (Metrics h)" "refuses codes rq (RequestLogger h)"
    unfolding Metrics_def RequestLogger_def Let_def
    by (rule refusesI, rule refused_clock, rule after; simp add: bindE_def now_def ret_def)+
  show "refuses codes rq (Tracing h)"
    unfolding Tracing_def Let_def by (rule refusesI, rule after; simp add: ret_def)
qed

lemma refuses_CORS:
  assumes "refuses codes rq h" and "cors_ok lib" and "{204, 403} \<subseteq> codes"
  shows "refuses codes rq (CORS_mw lib cfg h)"
proof (rule refusesI)
  fix c :: Ctx and s :: sys
  assume c: "cx_req c = rq"
  obtain hs abort where lib: "lib cfg rq = (hs, abort)" by fastforce
  show "refused codes s (CORS_mw lib cfg h c s)"
  proof (cases abort)
    case None
    with lib c show ?thesis by (simp add: CORS_mw_def refusesD [OF assms(1)])
  next
    case (Some st)
    with lib assms(2) have "st \<in> {204, 403}" unfolding cors_ok_def by blast
    with lib c Some assms(3) show ?thesis by (auto simp: CORS_mw_def)
  qed
qed

lemma refuses_serve:
  assumes "refuses codes rq (find_route app rq)" and "cors_ok (app_cors app)" and "{204, 403} \<subseteq> codes"
  shows "refused codes s (serve app rq s)"
  unfolding serve_def
  by (rule refusesD [where rq = rq]) (intro refuses_chain refuses_CORS assms, simp add: new_ctx_def)

section \<open>The routes without a token, and those of the administrator\<close>



definition route_key :: "Route \<Rightarrow> string \<times> string" where
  "route_key r = (rt_Method r, rt_Pattern r)"

lemma find_route_cases:
  assumes "\<And>r. r \<in> set (routes app) \<Longrightarrow> route_key r = (rq_Method rq, rq_FullPath rq)
      \<Longrightarrow> refuses codes rq (rt_Handler r)" and "404 \<in> codes"
  shows "refuses codes rq (find_route app rq)"
proof (cases "List.find (\<lambda>r. rt_Method r = rq_Method rq \<and> rt_Pattern r = rq_FullPath rq) (routes app)")
  case None
  with assms(2) show ?thesis by (auto simp: find_route_def no_route_def intro: refusesI)
next
  case (Some r)
  with assms(1) [of r] show ?thesis by (auto simp: find_route_def route_key_def dest: find_SomeD)
qed

lemmas route_tables = routes_def health_routes_def api_routes_def auth_routes_def product_routes_def
  wishlist_routes_def order_routes_def lab_routes_def debug_routes_def notify_routes_def foreign_route_def
  route_def api_route_def Let_def route_key_def



definition admin_routes :: "(string \<times> string) list" where
  "admin_routes =
     [(''POST'', ''/api/v1/orders/:id/fulfill''), (''GET'', ''/api/v1/lab/overview''),
      (''GET'', ''/api/v1/lab/postgres/summary''), (''GET'', ''/api/v1/lab/postgres/samples''),
      (''GET'', ''/api/v1/lab/redis/product/:id''), (''DELETE'', ''/api/v1/lab/redis/product/:id''),
      (''GET'', ''/api/v1/lab/mongo/events''), (''POST'', ''/api/v1/lab/kafka/ping''),
      (''GET'', ''/api/v1/lab/typesense''), (''POST'', ''/api/v1/lab/typesense/reindex''),
      (''GET'', ''/api/v1/lab/commerce/failure-matrix''), (''GET'', ''/api/v1/lab/outbox/pending''),
      (''POST'', ''/api/v1/lab/outbox/relay-once''), (''POST'', ''/api/v1/lab/outbox/pause''),
      (''POST'', ''/api/v1/lab/outbox/resume'')]"

lemma admin_refuses:
  assumes "\<And>t c cl. cx_req c = rq \<Longrightarrow> authenticated (app_jwt app) (JWTSecret (app_cfg app)) t c = Some cl
      \<Longrightarrow> cl_Role cl \<noteq> RoleAdmin"
    and "\<And>allow k l. app_limiter app = Some allow \<Longrightarrow> harmless (allow k l)"
    and codes: "{401, 403, 429, 503} \<subseteq> codes"
  shows "list_all (\<lambda>r. route_key r \<notin> set admin_routes \<or> refuses codes rq (rt_Handler r)) (routes app)"
proof -
  have "refuses codes rq (APIKey_mw k (RateLimit (app_limiter app) n w (admin_only app h)))" for k n w h
    unfolding admin_only_def secured_def
    by (intro refuses_APIKey refuses_RateLimit refuses_role assms(2)) (use assms(1) codes in simp_all)
  then show ?thesis
    by (simp add: route_tables admin_routes_def)
qed

section \<open>A server for the examples\<close>

definition demo_claims :: "string \<Rightarrow> Claims" where
  "demo_claims role =
     \<lparr>cl_UserID = 1, cl_Role = role, cl_Type = ''access'', cl_ID = [], cl_ExpiresAt = hour,
      cl_IssuedAt = 0\<rparr>"

definition demo_jwt :: jwt_lib where
  "demo_jwt =
     \<lparr>jwt_parse = (\<lambda>key t tok.
        if tok = ''alice'' then Inr (demo_claims RoleUser)
        else if tok = ''root'' then Inr (demo_claims RoleAdmin)
        else Inl (Other ''token is malformed'')),
      jwt_sign = (\<lambda>secret cl. Inl (Other ''no signer''))\<rparr>"

definition demo_deps :: Deps where
  "demo_deps = \<lparr>has_redis = True, has_publisher = True, has_search = False, cache_ttl = 5 * minute\<rparr>"

definition demo_orders :: OrderDeps where
  "demo_orders = \<lparr>od_HoldTTL = 15 * minute, od_Cache = Some demo_deps\<rparr>"

definition demo_app :: App where
  "demo_app =
     \<lparr>app_cfg = read_config (\<lambda>_. []), app_jwt = demo_jwt,
      app_valid = \<lparr>v_numeric = \<lambda>_. True, v_url = \<lambda>_. True, v_hostname_port = \<lambda>_. True, v_email = \<lambda>_. True\<rparr>,
      app_limiter = None,
      app_auth = \<lparr>ad_jwt = demo_jwt,
        ad_bcrypt = \<lparr>bc_generate = (\<lambda>salt pw cost. Inr pw), bc_compare = (=)\<rparr>,
        ad_cfg = read_config (\<lambda>_. []), ad_cache = True\<rparr>,
      app_deps = demo_deps,
      app_engine = \<lparr>IndexProduct = \<lambda>_. ret (), DeleteProduct = \<lambda>_. ret (), engine_Search = \<lambda>_ _. ret None\<rparr>,
      app_orders = demo_orders,
      app_lab = \<lparr>ld_cache = True, ld_audit = True, ld_publisher = True, ld_search = None,
        ld_relay = Some True, ld_cfg = read_config (\<lambda>_. []), ld_redis_ping = ret (),
        ld_redis_keys = ret [], ld_text = \<lambda>_. []\<rparr>,
      app_checkers = [], app_cors = \<lambda>_ _. ([], None),
      app_ws = \<lparr>ws_IsUpgrade = \<lambda>_. False, ws_Upgrade = \<lambda>_ _. Upgraded\<rparr>,
      app_foreign = \<lambda>_ _ _. \<lparr>rep_status = 200, rep_body = Inr []\<rparr>\<rparr>"

lemma harmless_ret: "harmless (ret a)"
  by (simp add: harmless_def ret_def)

lemma demo_harmless: "harmless_app demo_app" "cors_ok (app_cors demo_app)"
  by (simp_all add: harmless_app_def demo_app_def harmless_lab_def harmless_ret cors_ok_def)

definition demo_request :: "string \<Rightarrow> string \<Rightarrow> string \<Rightarrow> Request" where
  "demo_request m pattern token =
     \<lparr>rq_Method = m, rq_Path = pattern, rq_FullPath = pattern, rq_ClientIP = ''10.0.0.1'',
      rq_Header = (\<lambda>k. if k = ''apikey'' then ''dev-api-key''
                       else if k = ''Authorization'' then ''Bearer '' @ token
                       else []),
      rq_Query = (\<lambda>_. None), rq_Param = (\<lambda>_. ''1''), rq_Body = Inl (JObj [])\<rparr>"

definition pay_request :: Request where
  "pay_request = demo_request ''POST'' ''/api/v1/orders/:id/pay'' ''alice''"


lemma demo_authenticated:
  "authenticated demo_jwt secret t (new_ctx (demo_request m pattern token)) =
     (if token = ''alice'' then Some (demo_claims RoleUser)
      else if token = ''root'' then Some (demo_claims RoleAdmin) else None)"
  by (simp add: authenticated_def bearer_def GetHeader_def new_ctx_def demo_request_def HasPrefix_def
      TrimPrefix_def ParseAccessToken_def parseToken_def demo_jwt_def demo_claims_def)

text \<open>Alice's payment, reduced to its handler.\<close>

definition demo_ctx :: "Request \<Rightarrow> sys \<Rightarrow> Ctx" where
  "demo_ctx rq s =
     (foldl (\<lambda>c (k, v). set_header k v c)
        (set_header ''X-Request-ID'' (uuid (env s) (tick s)) (new_ctx rq)) (security_headers False))
       \<lparr>cx_userID := Some 1, cx_userRole := Some RoleUser,
        cx_deadline := Some (clock (env s) (tick s + 2) + RequestTimeout (read_config (\<lambda>_. [])))\<rparr>"

lemma demo_config: "APIKey (read_config (\<lambda>_. [])) = ''dev-api-key''" "EnableHSTS (read_config (\<lambda>_. [])) = False"
  by (simp_all add: read_config_def env_str_def envBool_def)

lemma demo_find:
  "find_route demo_app pay_request
   = APIKey_mw ''dev-api-key'' (RateLimit None (RateLimitMax (read_config (\<lambda>_. [])))
       (RateLimitWindow (read_config (\<lambda>_. []))) (Auth demo_jwt (JWTSecret (read_config (\<lambda>_. []))) Order_pay))"
  by (simp add: find_route_def route_tables pay_request_def demo_request_def demo_app_def secured_def demo_config)

lemma observers_db:
  "db (snd (Metrics h c s)) = db (snd (h c (tock s)))" "db (snd (Tracing h c s)) = db (snd (h c s))"
  "db (snd (RequestLogger h c s)) = db (snd (h c (tock s)))"
proof -
  have start: "db (snd (bindE now f s)) = db (snd (f (clock (env s) (tick s)) (tock s)))" for f :: "time \<Rightarrow> 'a io"
    by (simp add: bindE_def now_def)
  show "db (snd (Metrics h c s)) = db (snd (h c (tock s)))" "db (snd (RequestLogger h c s)) = db (snd (h c (tock s)))"
    unfolding Metrics_def RequestLogger_def Let_def start
    by (subst db_after_read; intro refl reading.runs_intros)+
  show "db (snd (Tracing h c s)) = db (snd (h c s))"
    unfolding Tracing_def Let_def by (subst db_after_read; intro refl reading.runs_intros)
qed

lemma demo_pay:
  "db (snd (serve demo_app pay_request s))
   = db (snd (Order_pay (demo_ctx pay_request s) (tock (tock (tock (tock (tock s)))))))"
proof -
  let ?c = "demo_ctx pay_request s"
  let ?anon = "?c\<lparr>cx_userID := None, cx_userRole := None\<rparr>"
  have req: "cx_req ?anon = pay_request" by (simp add: demo_ctx_def new_ctx_def)
  have "authenticated demo_jwt secret t ?anon = Some (demo_claims RoleUser)" for secret t
    using authenticated_req [of ?anon "new_ctx pay_request"] req
    by (simp add: new_ctx_def pay_request_def demo_authenticated [unfolded new_ctx_def])
  note pass = Auth_passes [OF this]
  have key: "GetHeader ?anon ''apikey'' = ''dev-api-key''" "GetHeader (new_ctx pay_request) ''X-Request-ID'' = []"
    by (simp_all add: GetHeader_def req) (simp_all add: pay_request_def demo_request_def new_ctx_def)
  have app: "EnableHSTS (app_cfg demo_app) = False" "app_cors demo_app = (\<lambda>_ _. ([], None))"
    "RequestTimeout (app_cfg demo_app) = RequestTimeout (read_config (\<lambda>_. []))"
    by (simp_all add: demo_app_def demo_config)
  have new: "cx_deadline (new_ctx pay_request) = None" by (simp add: new_ctx_def)
  have again: "?c\<lparr>cx_userID := Some 1, cx_userRole := Some RoleUser\<rparr> = ?c"
    by (rule Ctx.equality) (simp_all add: demo_ctx_def)
  have c0: "(foldl (\<lambda>c (k, v). set_header k v c) (set_header ''X-Request-ID'' (uuid (env s) (tick s))
        (new_ctx pay_request)) (security_headers False))
        \<lparr>cx_deadline := Some (clock (env s) (Suc (Suc (tick s))) + RequestTimeout (read_config (\<lambda>_. [])))\<rparr> = ?anon"
    by (rule Ctx.equality) (simp_all add: demo_ctx_def new_ctx_def)
  show ?thesis
    by (simp add: serve_def RequestID_def key(2) bindE_def new_uuid_def observers_db SecurityHeaders_def app
        CORS_mw_def Timeout_def now_def tock_def c0 new demo_find APIKey_mw_def key(1) RateLimit_def pass
        demo_claims_def again)
qed

lemma demo_pay_db:
  "db (snd (serve demo_app pay_request s))
   = db (snd (Pay 1 1 ''success'' ''pay-1'' (tock (tock (tock (tock (tock s)))))))"
proof -
  let ?c = "demo_ctx pay_request s"
  have c: "cx_req ?c = pay_request" "cx_userID ?c = Some 1" by (simp_all add: demo_ctx_def new_ctx_def)
  have i: "parseID (Param ?c ''id'') = Inr 1"
    unfolding Param_def c by (simp add: pay_request_def demo_request_def) code_simp
  have f: "lenient_field ''outcome'' ?c = []" "lenient_field ''key'' ?c = []"
    unfolding lenient_field_def c
    by (simp_all add: pay_request_def demo_request_def body_fields_def occurrences_def)
  have k: "show_uint 1 = ''1''" "ToLower [] = []" by code_simp+
  have pay: "db (snd (OrderService_Pay \<lparr>py_UserID = 1, py_OrderID = 1, py_Outcome = [], py_Key = []\<rparr> s1))
      = db (snd (Pay 1 1 ''success'' ''pay-1'' s1))" for s1
    unfolding OrderService_Pay_def
    by (simp add: Let_def k, subst db_after_read)
      (auto intro!: reading.runs_intros reading.runs_reads)
  show ?thesis
    unfolding demo_pay Order_pay_def with_order_id_def c(2) i option.case sum.case f
    by (subst db_after_read) (auto intro!: reading.runs_intros simp: db_after_attempt pay)
qed

section \<open>Properties\<close>

text \<open>Any sequence of HTTP requests to any route of the API, whoever sends them and
  whatever fails meanwhile, takes a system that satisfies the invariants to one that does.\<close>

theorem requests_keep_inv:
  assumes "harmless_app app" and "system_inv s" and "serve_all app rqs s = (r, s')"
  shows "system_inv s'"
  using serve_all_reachable [OF assms(1) reachable.start assms(2,3)] assms(2) by (rule reachable_inv)

theorem requests_keep_inv_witness:
  "system_inv (snd (serve demo_app pay_request shop2))
   \<and> map pay_Status (payments (db (snd (serve demo_app pay_request shop2)))) = [PaymentSucceeded]"
proof
  have inv: "system_inv shop2" by (rule reachable_inv [OF trades_reachable [OF shop2_run] shop0_inv])
  have "\<exists>r. serve_all demo_app [pay_request] shop2 = (r, snd (serve demo_app pay_request shop2))"
    by (cases "serve demo_app pay_request shop2"; cases "fst (serve demo_app pay_request shop2)")
      (simp_all add: bindE_def ret_def)
  then show "system_inv (snd (serve demo_app pay_request shop2))"
    using requests_keep_inv [OF demo_harmless(1) inv] by blast
  show "map pay_Status (payments (db (snd (serve demo_app pay_request shop2)))) = [PaymentSucceeded]"
    unfolding demo_pay_db by code_simp
qed




text \<open>C25. The fulfilment of orders and the operator endpoints refuse everybody who is not an
  administrator, and nothing changes.\<close>

theorem admin_required:
  assumes "(rq_Method rq, rq_FullPath rq) \<in> set admin_routes" and "harmless_app app"
    and "cors_ok (app_cors app)"
    and "\<And>t cl. authenticated (app_jwt app) (JWTSecret (app_cfg app)) t (new_ctx rq) = Some cl
          \<Longrightarrow> cl_Role cl \<noteq> RoleAdmin"
  shows "refused {204, 401, 403, 404, 429, 503} s (serve app rq s)"
proof (rule refuses_serve [OF find_route_cases])
  fix r
  assume r: "r \<in> set (routes app)" "route_key r = (rq_Method rq, rq_FullPath rq)"
  have "cl_Role cl \<noteq> RoleAdmin"
    if "cx_req c = rq" "authenticated (app_jwt app) (JWTSecret (app_cfg app)) t c = Some cl" for t c cl
    using authenticated_req [of c "new_ctx rq"] assms(4) that by (auto simp: new_ctx_def)
  from admin_refuses [of rq app "{204, 401, 403, 404, 429, 503}", OF this] assms(1,2) r
  show "refuses {204, 401, 403, 404, 429, 503} rq (rt_Handler r)"
    by (auto simp: harmless_app_def list_all_iff)
qed (use assms(3) in simp_all)

theorem admin_required_witness:
  "refused {204, 401, 403, 404, 429, 503} shop3
     (serve demo_app (demo_request ''POST'' ''/api/v1/orders/:id/fulfill'' ''alice'') shop3)"
proof -
  have jwt: "app_jwt demo_app = demo_jwt" by (simp add: demo_app_def)
  show ?thesis
    by (rule admin_required [OF _ demo_harmless])
      (simp_all add: jwt demo_authenticated demo_claims_def RoleUser_def RoleAdmin_def,
       simp add: demo_request_def admin_routes_def)
qed

end
