(* ===== verification/Order_Idempotency.thy ===== *)
theory Order_Idempotency
  imports Demo
begin

text \<open>
  The idempotency of \<open>POST /orders\<close>: what is stored under a key is replayed, a key cannot be
  reused for another request, and a key that does not fit its column is never stored.
\<close>

section \<open>The stored response\<close>

definition stored_under :: "uint \<Rightarrow> string \<Rightarrow> db \<Rightarrow> IdempotencyModel option" where
  "stored_under u key d = List.find (\<lambda>r. ik_UserID r = u \<and> ik_Key r = key) (idempotency_keys d)"

lemma FindIdempotency_live:
  "fault (env s) (tick s) = None \<Longrightarrow> FindIdempotency u key s = (Inr (stored_under u key (db s)), tock s)"
  by (simp add: FindIdempotency_def stored_under_def interact_defs)

lemma find_append: "List.find P (xs @ [x]) = (case List.find P xs of None \<Rightarrow> if P x then Some x else None | Some y \<Rightarrow> Some y)"
  by (induction xs) auto

definition answer_of :: "IdempotencyModel \<Rightarrow> int \<Rightarrow> json \<Rightarrow> string \<Rightarrow> bool" where
  "answer_of row status body h =
     (ik_ResponseStatus row = Some status \<and> ik_ResponseBody row = Some body \<and> ik_RequestHash row = h)"

lemma Save_stores:
  assumes "stored_under u key d = None"
  shows "db_wp (SaveIdempotencyResponse u key m p h st b)
     (\<lambda>_ d'. \<exists>row. stored_under u key d' = Some row \<and> answer_of row st b h) d"
  unfolding SaveIdempotencyResponse_def FindIdempotency_def
  by (intro vcg)
    (use assms in \<open>auto simp: stored_under_def add_idempotency_def find_append answer_of_def\<close>)

text \<open>A valid request of the user \<open>u\<close> with the key and the items.\<close>

definition create_request :: "uint \<Rightarrow> string \<Rightarrow> CreateItem list \<Rightarrow> Ctx \<Rightarrow> bool" where
  "create_request u key items c =
     (cx_userID c = Some u \<and> TrimSpace (GetHeader c ''Idempotency-Key'') = key
      \<and> BindJSON dec_create_request valid_create_request c = Some (Some items))"

lemma create_request_items: "create_request u key items c \<Longrightarrow> items \<noteq> []"
  by (auto simp: create_request_def BindJSON_def valid_create_request_def split: option.splits if_splits)

lemma Order_create_found:
  assumes c: "create_request u key items c" and key: "key \<noteq> []" "TrimSpace key = key"
    and live: "fault (env s) (tick s) = None"
    and row: "stored_under u key (db s) = Some row" "answer_of row st b h"
  shows "Order_create od c s =
     (Inr (if h \<noteq> [] \<and> h \<noteq> hashCreateRequest items
           then order_mapErr (wrap ErrConflict ''Idempotency-Key reused with different body'') c
           else c_Data st (Inl b) c), tock s)"
proof -
  have find: "FindIdempotency u key s = (Inr (Some row), tock s)"
    using FindIdempotency_live [OF live] row(1) by simp
  have "OrderService_Create od \<lparr>in_UserID = u, in_Items = items, in_IdempotencyKey = key,
      in_Method = rq_Method (cx_req c), in_Path = rq_FullPath (cx_req c)\<rparr> s
      = (if h \<noteq> [] \<and> h \<noteq> hashCreateRequest items
         then (Inl (wrap ErrConflict ''Idempotency-Key reused with different body''), tock s)
         else (Inr (Replay st b), tock s))"
    using row(2) key create_request_items [OF c]
    by (simp add: OrderService_Create_def find Let_def bindE_def answer_of_def throw_def ret_def)
  then show ?thesis
    using c by (simp add: Order_create_def create_request_def Let_def bindE_def attempt_def ret_def)
qed

section \<open>Properties\<close>

text \<open>C26. Replay: once the response to a new order is stored under the user's key, every
  later request with the key and the same items gets that status and that body again, and
  changes nothing: not the database, not the cache, not the background jobs.\<close>

theorem remembered_is_replayed:
  assumes "RememberIdempotent u key m p items st b s = (Inr (), s1)"
    and "stored_under u key (db s) = None" and "stored_under u key (db s2) = stored_under u key (db s1)"
    and "fault (env s2) (tick s2) = None" and "create_request u key items c" and "key \<noteq> []"
    and "TrimSpace key = key"
  shows "Order_create od c s2 = (Inr (c_Data st (Inl b) c), tock s2)"
proof -
  from db_wpD [OF Save_stores [OF assms(2)] assms(1) [unfolded RememberIdempotent_def]] assms(3)
  obtain row where "stored_under u key (db s2) = Some row" "answer_of row st b (hashCreateRequest items)"
    by auto
  from Order_create_found [OF assms(5,6,7,4) this, of od] show ?thesis by simp
qed

definition retry_ctx :: "string \<Rightarrow> Ctx" where
  "retry_ctx key =
     \<lparr>cx_req = \<lparr>rq_Method = ''POST'', rq_Path = ''/api/v1/orders'', rq_FullPath = ''/api/v1/orders'',
        rq_ClientIP = ''10.0.0.1'', rq_Header = (\<lambda>k. if k = ''Idempotency-Key'' then key else []),
        rq_Query = (\<lambda>_. None), rq_Param = (\<lambda>_. []),
        rq_Body = Inl (JObj [(''items'', JArr [JObj [(''productId'', JInt 1), (''qty'', JInt 2)]])])\<rparr>,
      cx_userID = Some 1, cx_userRole = Some RoleUser, cx_headers = [], cx_reply = None,
      cx_deadline = None, cx_seen = []\<rparr>"

lemma retry_request: "TrimSpace key = key \<Longrightarrow> create_request 1 key basket (retry_ctx key)"
proof -
  have "BindJSON dec_create_request valid_create_request (retry_ctx key) = Some (Some basket)"
    by code_simp
  moreover assume "TrimSpace key = key"
  ultimately show ?thesis by (simp add: create_request_def retry_ctx_def GetHeader_def)
qed

lemma char_length_le: "char_length s \<le> length s"
  by (simp add: char_length_def)

lemma shop1_remembers:
  "fst (RememberIdempotent 1 ''k1'' ''POST'' ''/api/v1/orders'' basket 201 (JStr ''created'') shop1) = Inr ()"
  and shop1_new: "stored_under 1 ''k1'' (db shop1) = None"
proof -
  have d: "idempotency_keys (db shop1) = []" "map u_ID (users (db shop1)) = [1]" "seqs shop1 SeqIdempotency = 0"
    by code_simp+
  note d = d env_shop1
  show "stored_under 1 ''k1'' (db shop1) = None" by (simp add: stored_under_def d)
  have len: "char_length ''k1'' \<le> 128" "char_length ''POST'' \<le> 16" "char_length ''/api/v1/orders'' \<le> 255"
    "char_length (hashCreateRequest basket) \<le> 64"
    using char_length_le [of "''k1''"] char_length_le [of "''POST''"] char_length_le [of "''/api/v1/orders''"]
      char_length_le [of "hashCreateRequest basket"] length_sha256_hex
    by (simp_all add: hashCreateRequest_def)
  have ids: "u_ID ` set (users (db shop1)) = {1}" using d(2) by (metis list.set_map list.simps(15) empty_set)
  show "fst (RememberIdempotent 1 ''k1'' ''POST'' ''/api/v1/orders'' basket 201 (JStr ''created'') shop1) = Inr ()"
    by (simp add: RememberIdempotent_def SaveIdempotencyResponse_def transaction_def d quiet_def bindE_def
        FindIdempotency_live stored_under_def now_def insert_row_def interact_def Let_def idempotency_refuse_def
        first_violation.simps check_def len ids ret_def)
qed

theorem remembered_is_replayed_witness:
  "let s1 = snd (RememberIdempotent 1 ''k1'' ''POST'' ''/api/v1/orders'' basket 201 (JStr ''created'') shop1)
   in Order_create \<lparr>od_HoldTTL = 0, od_Cache = None\<rparr> (retry_ctx ''k1'') s1
      = (Inr (c_Data 201 (Inl (JStr ''created'')) (retry_ctx ''k1'')), tock s1)"
proof -
  let ?m = "RememberIdempotent 1 ''k1'' ''POST'' ''/api/v1/orders'' basket 201 (JStr ''created'')"
  have run: "?m shop1 = (Inr (), snd (?m shop1))"
    using shop1_remembers by (metis prod.collapse)
  have trim: "TrimSpace ''k1'' = ''k1''" by code_simp
  have "sql_only (?m :: unit io)"
    unfolding RememberIdempotent_def SaveIdempotencyResponse_def FindIdempotency_def update_idempotency_def
    by (intro sql_only_intro)
  from sql_only_run [OF this run] have "env (snd (?m shop1)) = env shop1" by (simp add: outside_def)
  then have "fault (env (snd (?m shop1))) (tick (snd (?m shop1))) = None"
    by (simp add: env_shop1 quiet_def)
  from remembered_is_replayed [OF run shop1_new refl this retry_request [OF trim] _ trim]
  show ?thesis by simp
qed

text \<open>A key that was used for other items is refused with 409 and the code of a conflict, and
  nothing changes.\<close>

theorem key_reuse_refused:
  assumes "create_request u key items c" and "key \<noteq> []" and "TrimSpace key = key"
    and "fault (env s) (tick s) = None" and "stored_under u key (db s) = Some row"
    and "answer_of row st b h" and "h \<noteq> []" and "h \<noteq> hashCreateRequest items"
  shows "\<exists>c'. Order_create od c s = (Inr c', tock s) \<and> status_of c' = Some 409
     \<and> c' = FailCode 409 (error_text (wrap ErrConflict ''Idempotency-Key reused with different body''))
              (ErrorCode (Sentinel ErrConflict)) c"
  using Order_create_found [OF assms(1,2,3,4,5,6), of od] assms(7,8)
  by (simp add: order_mapErr_def Let_def ErrorCode_def)

theorem key_reuse_refused_witness:
  "\<exists>c'. Order_create \<lparr>od_HoldTTL = 0, od_Cache = None\<rparr> (retry_ctx ''k1'')
       (shop1\<lparr>db := (db shop1)\<lparr>idempotency_keys :=
          [\<lparr>ik_ID = 1, ik_Key = ''k1'', ik_UserID = 1, ik_Method = [], ik_Path = [], ik_RequestHash = ''other'',
            ik_ResponseStatus = Some 201, ik_ResponseBody = Some JNull, ik_CreatedAt = 0\<rparr>]\<rparr>\<rparr>)
     = (Inr c', tock (shop1\<lparr>db := (db shop1)\<lparr>idempotency_keys :=
          [\<lparr>ik_ID = 1, ik_Key = ''k1'', ik_UserID = 1, ik_Method = [], ik_Path = [], ik_RequestHash = ''other'',
            ik_ResponseStatus = Some 201, ik_ResponseBody = Some JNull, ik_CreatedAt = 0\<rparr>]\<rparr>\<rparr>))
     \<and> status_of c' = Some 409"
proof -
  let ?row = "\<lparr>ik_ID = 1, ik_Key = ''k1'', ik_UserID = 1, ik_Method = [], ik_Path = [], ik_RequestHash = ''other'',
            ik_ResponseStatus = Some 201, ik_ResponseBody = Some JNull, ik_CreatedAt = 0\<rparr>"
  let ?s = "shop1\<lparr>db := (db shop1)\<lparr>idempotency_keys := [?row]\<rparr>\<rparr>"
  have trim: "TrimSpace ''k1'' = ''k1''" by code_simp
  have "stored_under 1 ''k1'' (db ?s) = Some ?row" "answer_of ?row 201 JNull ''other''"
    "fault (env ?s) (tick ?s) = None"
    by (simp_all add: stored_under_def answer_of_def env_shop1 quiet_def)
  moreover have "length (hashCreateRequest basket) \<noteq> length ''other''"
    by (simp add: hashCreateRequest_def length_sha256_hex)
  then have "''other'' \<noteq> hashCreateRequest basket" by metis
  ultimately show ?thesis
    using key_reuse_refused [OF retry_request [OF trim] _ trim, of ?s ?row 201 JNull "''other''"
        "\<lparr>od_HoldTTL = 0, od_Cache = None\<rparr>"]
    by fastforce
qed

text \<open>C28. The column of the key holds 128 characters and the code does not check the length: a
  longer key is accepted, its response is never stored, and so every retry with it creates
  another order.\<close>

theorem long_key_never_replays:
  assumes "list_all (\<lambda>r. char_length (ik_Key r) \<le> 128) (idempotency_keys (db s))"
    and "128 < char_length key" and "TrimSpace key = key" and "fault (env s) (tick s) = None"
    and "in_IdempotencyKey inp = key" and "in_Items inp \<noteq> []"
  shows "OrderService_Create od inp s = create_new od inp (tock s)
     \<and> db (snd (RememberIdempotent u key m p items st b s)) = db s"
proof
  have none: "stored_under u key (db s) = None" for u
    using assms(1,2) by (auto simp: stored_under_def list_all_iff find_None_iff)
  have "key \<noteq> []" using assms(2) by (auto simp: char_length_def)
  then show "OrderService_Create od inp s = create_new od inp (tock s)"
    using assms(3,5,6) FindIdempotency_live [OF assms(4)] none
    by (simp add: OrderService_Create_def Let_def bindE_def)
  let ?body = "bindE (FindIdempotency u key) (\<lambda>existing.
        case existing of
          Some row \<Rightarrow>
            if ik_ResponseStatus row \<noteq> None then ret ()
            else update_idempotency (ik_ID row) st b
        | None \<Rightarrow>
            bindE now (\<lambda>t.
            bindE (insert_row SeqIdempotency
                     (\<lambda>i. \<lparr>ik_ID = i, ik_Key = key, ik_UserID = u, ik_Method = m,
                           ik_Path = p, ik_RequestHash = hashCreateRequest items, ik_ResponseStatus = Some st,
                           ik_ResponseBody = Some b, ik_CreatedAt = t\<rparr>)
                     idempotency_refuse add_idempotency) (\<lambda>_.
            ret ())))"
  have "db_wp ?body (\<lambda>_ _. False) (db s)"
    unfolding FindIdempotency_def
    by (intro vcg) (use none [unfolded stored_under_def] assms(2) in \<open>auto simp: idempotency_refuse_def\<close>)
  then show "db (snd (RememberIdempotent u key m p items st b s)) = db s"
    using transaction_atomic [of ?body s, OF prod.collapse [symmetric]]
    by (auto simp: RememberIdempotent_def SaveIdempotencyResponse_def db_wp_def)
qed

definition long_input :: CreateInput where
  "long_input = \<lparr>in_UserID = 1, in_Items = basket, in_IdempotencyKey = replicate 129 (CHR ''k''),
     in_Method = ''POST'', in_Path = ''/api/v1/orders''\<rparr>"

theorem long_key_never_replays_witness:
  "let od = \<lparr>od_HoldTTL = 0, od_Cache = None\<rparr>; s1 = snd (OrderService_Create od long_input shop0)
   in length (orders (db s1)) = 1 \<and> OrderService_Create od long_input s1 = create_new od long_input (tock s1)"
proof -
  let ?od = "\<lparr>od_HoldTTL = 0, od_Cache = None\<rparr>"
  let ?key = "replicate 129 (CHR ''k'')"
  let ?new = "\<lambda>s. snd (create_new ?od long_input (tock s))"
  have key: "128 < char_length ?key" by (simp add: char_length_def)
  have trim: "TrimSpace ?key = ?key" by code_simp
  have inp: "in_IdempotencyKey long_input = ?key" "in_Items long_input \<noteq> []"
    by (simp_all add: long_input_def basket_def)
  have 0: "snd (OrderService_Create ?od long_input shop0) = ?new shop0"
    using long_key_never_replays [OF _ key trim _ inp, of shop0 ?od]
    by (simp add: shop0_def db0_def quiet_def)
  have "db (?new shop0) = db (snd (CreateOrder 1 basket (tock shop0)))"
    unfolding create_new_def
    by (subst db_after_read)
      (auto intro!: reading.runs_intros reading.runs_invalidate reading.runs_reads simp: long_input_def)
  moreover have "idempotency_keys (db (snd (CreateOrder 1 basket (tock shop0)))) = []"
    "length (orders (db (snd (CreateOrder 1 basket (tock shop0))))) = 1"
    by code_simp+
  ultimately have one: "idempotency_keys (db (?new shop0)) = []" "length (orders (db (?new shop0))) = 1"
    by simp_all
  have live: "fault (env (?new shop0)) (tick (?new shop0)) = None"
  proof -
    have "framing.runs (create_new ?od long_input)"
      unfolding create_new_def
      by (intro framing.runs_intros framing.runs_invalidate framing.runs_reads
          framing_sql [OF sql_only_operations(1)])
    then have "outside (?new shop0) = outside (tock shop0)" unfolding framing.runs_def by blast
    then have "env (?new shop0) = env shop0" by (simp add: outside_def)
    then show ?thesis by (simp add: shop0_def quiet_def)
  qed
  from long_key_never_replays [OF _ key trim live inp] one(1)
  have "OrderService_Create ?od long_input (?new shop0) = create_new ?od long_input (tock (?new shop0))"
    by simp
  then show ?thesis by (simp add: 0 Let_def one(2))
qed

end
