(* ===== verification/Hold_Expiry.thy ===== *)
theory Hold_Expiry
  imports Demo
begin

text \<open>
  The expiry of unpaid holds (\<open>ExpireStaleHolds\<close> of \<open>internal/http/order/service.go\<close>): which
  orders it may touch.  \<open>cancels ids\<close> is the relation between the tables before and after:
  every order is still there, or it is one of \<open>ids\<close> and was cancelled.
\<close>

definition cancels :: "uint set \<Rightarrow> db \<Rightarrow> db \<Rightarrow> bool" where
  "cancels ids d d' = (\<forall>o'\<in>set (orders d). o' \<in> set (orders d')
     \<or> o_ID o' \<in> ids \<and> CanTransition (o_Status o') OrderCancelled
       \<and> (\<exists>t. advance OrderCancelled t o' \<in> set (orders d')))"

lemma cancels_refl [simp]: "cancels ids d d"
  by (simp add: cancels_def)










end
