(* ===== verification/Pagination.thy ===== *)
theory Pagination
  imports Demo
begin

text \<open>
  Keyset pagination of the catalogue (\<open>Catalog\<close>, \<open>ListCatalogCursor\<close>): a client that follows
  \<open>nextCursor\<close> from page to page while \<open>hasMore\<close> holds.  \<open>walk n\<close> is that client with at most
  \<open>n\<close> requests; as many as there are products are enough.
\<close>

fun walk :: "nat \<Rightarrow> uint \<Rightarrow> int \<Rightarrow> Product list io" where
  "walk 0 cursor limit = throw (Other ''too many pages'')"
| "walk (Suc n) cursor limit =
     bindE (Catalog cursor limit) (\<lambda>r.
     if lr_HasMore r
     then bindE (walk n (lr_NextCursor r) limit) (\<lambda>rest. ret (lr_Items r @ rest))
     else ret (lr_Items r))"

section \<open>One page\<close>

definition descending :: "ProductModel list \<Rightarrow> bool" where
  "descending rows = sorted_wrt (\<lambda>a b. p_ID b < p_ID a) rows"

lemma descending_newest_first:
  assumes "distinct (map p_ID rows)"
  shows "descending (newest_first rows)"
proof -
  let ?f = "\<lambda>r. unat (p_ID r)"
  have "distinct (map ?f rows)"
    using assms by (auto simp: distinct_map inj_on_def word_unat_eq_iff)
  then have "distinct (map ?f (sort_key ?f rows))" by (simp add: distinct_map)
  then have "sorted_wrt (\<lambda>a b. ?f a < ?f b) (sort_key ?f rows)"
    using strict_sorted_iff [of "map ?f (sort_key ?f rows)"] sorted_sort_key [of ?f rows]
    by (simp only: sorted_wrt_map simp_thms)
  then show ?thesis
    by (simp add: descending_def newest_first_def sorted_wrt_rev word_less_nat_alt)
qed

lemma newest_first_filter: "newest_first (filter P rows) = filter P (newest_first rows)"
  by (simp add: newest_first_def filter_sort [symmetric] rev_filter)

lemma below_drop:
  assumes "descending rows" and "k < length rows"
  shows "filter (\<lambda>r. p_ID r < p_ID (rows ! k)) rows = drop (Suc k) rows"
  using assms
proof (induction rows arbitrary: k)
  case (Cons r rows)
  show ?case
  proof (cases k)
    case 0
    with Cons.prems show ?thesis by (auto simp: descending_def filter_id_conv)
  next
    case (Suc j)
    with Cons.prems have "p_ID (rows ! j) < p_ID r" "descending rows" "j < length rows"
      by (auto simp: descending_def)
    with Suc Cons.IH [of j] show ?thesis by simp
  qed
qed simp

lemma page_last: "int (length rows) \<le> k \<Longrightarrow> page k rows = \<lparr>lr_Items = map Product_toDomain rows, lr_NextCursor = 0, lr_HasMore = False\<rparr>"
  by (simp add: page_def Let_def)

lemma page_more:
  assumes "0 < k" and "k < int (length rows)"
  shows "page k (take (nat (k + 1)) rows)
       = \<lparr>lr_Items = map Product_toDomain (take (nat k) rows), lr_NextCursor = p_ID (rows ! (nat k - 1)),
          lr_HasMore = True\<rparr>"
proof -
  obtain j where j: "nat k = Suc j" using assms(1) by (cases "nat k") auto
  then have "take (nat k) rows = take j rows @ [rows ! j]"
    using assms(2) by (simp add: take_Suc_conv_app_nth)
  then have "take (nat k) rows \<noteq> []" "last (take (nat k) rows) = rows ! (nat k - 1)"
    by (simp_all add: j)
  then show ?thesis
    using assms by (simp add: page_def Let_def last_map Product_toDomain_def min_def)
qed

text \<open>What is left of the catalogue below a cursor.\<close>

definition catalogue_from :: "uint \<Rightarrow> db \<Rightarrow> ProductModel list" where
  "catalogue_from cursor d = filter (below cursor) (newest_first (filter live_product (products d)))"

lemma Catalog_live:
  assumes "no_faults (env s)"
  shows "Catalog cursor limit s
       = (Inr (page (clamp_limit limit) (take (nat (clamp_limit limit + 1)) (catalogue_from cursor (db s)))),
          tock s)"
proof -
  have "newest_first (filter (\<lambda>r. below cursor r \<and> live_product r) (products (db s)))
      = catalogue_from cursor (db s)"
    by (simp add: catalogue_from_def newest_first_filter filter_filter conj_commute)
  with assms show ?thesis
    by (simp add: Catalog_def ListCatalogCursor_def Let_def bindE_def interact_defs ret_def)
qed

lemma catalogue_next:
  assumes "descending (catalogue_from cursor d)" and "j < length (catalogue_from cursor d)"
    and "p_ID (catalogue_from cursor d ! j) \<noteq> 0"
  shows "catalogue_from (p_ID (catalogue_from cursor d ! j)) d = drop (Suc j) (catalogue_from cursor d)"
proof -
  let ?xs = "catalogue_from cursor d"
  let ?n = "p_ID (?xs ! j)"
  have pos: "0 < ?n" using assms(3) by (simp add: word_gt_0)
  have "?xs ! j \<in> set ?xs" using assms(2) by simp
  then have "below cursor (?xs ! j)" by (simp add: catalogue_from_def)
  then have "below ?n r \<longleftrightarrow> below cursor r \<and> p_ID r < ?n" for r
    using pos by (auto simp: below_def)
  then have "filter (below ?n) rows = filter (\<lambda>r. p_ID r < ?n) (filter (below cursor) rows)" for rows
    by (simp add: conj_commute cong: filter_cong)
  then have "catalogue_from ?n d = filter (\<lambda>r. p_ID r < ?n) ?xs"
    unfolding catalogue_from_def by blast
  with below_drop [OF assms(1,2)] show ?thesis by simp
qed

lemma clamp_range: "0 < clamp_limit limit \<and> clamp_limit limit \<le> 100"
  by (simp add: clamp_limit_def)

lemma walk_from:
  assumes "no_faults (env s)" and "descending (catalogue_from cursor (db s))"
    and "\<forall>r\<in>set (products (db s)). p_ID r \<noteq> 0" and "length (catalogue_from cursor (db s)) \<le> n"
  shows "\<exists>s'. walk (Suc n) cursor limit s = (Inr (map Product_toDomain (catalogue_from cursor (db s))), s')"
  using assms
proof (induction n arbitrary: s cursor)
  case 0
  then show ?case by (simp add: bindE_def Catalog_live page_last ret_def clamp_range less_imp_le)
next
  case (Suc n)
  let ?k = "clamp_limit limit" and ?xs = "catalogue_from cursor (db s)"
  show ?case
  proof (cases "?k < int (length ?xs)")
    case False
    then have "take (nat (?k + 1)) ?xs = ?xs" by simp
    with False Suc.prems(1) show ?thesis
      by (simp add: bindE_def Catalog_live page_last ret_def)
  next
    case True
    let ?j = "nat ?k - 1"
    have j: "?j < length ?xs" "Suc ?j = nat ?k" using True clamp_range [of limit] by auto
    have "?xs ! ?j \<in> set (products (db s))"
      using nth_mem [OF j(1)] by (auto simp: catalogue_from_def newest_first_def)
    with Suc.prems(3) have "p_ID (?xs ! ?j) \<noteq> 0" by blast
    from catalogue_next [OF Suc.prems(2) j(1) this] j(2)
    have rest: "catalogue_from (p_ID (?xs ! ?j)) (db (tock s)) = drop (nat ?k) ?xs" by simp
    have "descending (drop (nat ?k) ?xs)"
      using Suc.prems(2) by (simp add: descending_def sorted_wrt_drop)
    with Suc.IH [of "tock s" "p_ID (?xs ! ?j)"] Suc.prems rest
    obtain s' where "walk (Suc n) (p_ID (?xs ! ?j)) limit (tock s) = (Inr (map Product_toDomain (drop (nat ?k) ?xs)), s')"
      using clamp_range [of limit] by force
    then show ?thesis
      using page_more [OF _ True] clamp_range [of limit] Suc.prems(1)
      by (simp add: bindE_def [of "Catalog _ _"] Catalog_live del: walk.simps(2))
        (simp add: walk.simps(2) [of "Suc n"] bindE_def Catalog_live ret_def flip: map_append)
  qed
qed

section \<open>Properties\<close>

text \<open>C30. Following the cursors of the catalogue from the start, with any page size, ends after at
  most one request more than there are products and yields exactly the products on sale, each
  once, newest first: the pages are the reference list, cut into pieces.\<close>

theorem catalogue_walk_complete:
  assumes "no_faults (env s)" and "distinct (map p_ID (products (db s)))"
    and "list_all (\<lambda>r. p_ID r \<noteq> 0) (products (db s))"
  shows "\<exists>s'. walk (Suc (length (products (db s)))) 0 limit s
     = (Inr (map Product_toDomain (newest_first (filter live_product (products (db s))))), s')"
proof -
  let ?L = "newest_first (filter live_product (products (db s)))"
  have L: "catalogue_from 0 (db s) = ?L" by (simp add: catalogue_from_def below_def)
  have "descending ?L" using assms(2) by (intro descending_newest_first) (simp add: distinct_map_filter)
  moreover have "length ?L \<le> length (products (db s))" by (simp add: newest_first_def)
  ultimately show ?thesis
    using walk_from [of s 0 _ limit] assms(1,3) by (simp add: L list_all_iff)
qed

definition shelf :: sys where
  "shelf = shop0\<lparr>db := db0\<lparr>products :=
     map (\<lambda>(i, gone). kopi\<lparr>p_ID := i, p_DeletedAt := gone\<rparr>)
       [(1, None), (2, None), (3, Some 0), (4, None)]\<rparr>\<rparr>"

theorem catalogue_walk_complete_witness:
  "case walk 5 0 1 shelf of (Inr items, _) \<Rightarrow> map pr_ID items = [4, 2, 1] | _ \<Rightarrow> False"
proof -
  have n: "Suc (length (products (db shelf))) = 5" by (simp add: shelf_def db0_def)
  have "no_faults (env shelf)" by (simp add: no_faults_def shelf_def shop0_def quiet_def)
  moreover have "distinct (map p_ID (products (db shelf)))" "list_all (\<lambda>r. p_ID r \<noteq> 0) (products (db shelf))"
    "map pr_ID (map Product_toDomain (newest_first (filter live_product (products (db shelf))))) = [4, 2, 1]"
    by code_simp+
  ultimately show ?thesis
    using catalogue_walk_complete [of shelf 1] by (auto simp: n simp del: walk.simps map_map)
qed

end
