(* ===== verification/Product_Cache.thy ===== *)
theory Product_Cache
  imports Demo Order_Service
begin

text \<open>
  The product service with its cache, against its specification: a plain map from identifiers
  to products.  \<open>catalogue_of\<close> abstracts the tables, \<open>coherent\<close> says that a cached product is
  the one of the table, \<open>product_spec\<close> is the specification of a call.  The refinement holds
  while Redis answers; it is broken by a payment that fails (the stock goes back, the
  cache is not told) and by writes that race with orders, see the last two properties.
\<close>

section \<open>Abstraction\<close>

definition catalogue_of :: "db \<Rightarrow> uint \<Rightarrow> Product option" where
  "catalogue_of d i = map_option Product_toDomain (List.find (\<lambda>r. p_ID r = i \<and> live_product r) (products d))"

definition coherent :: "sys \<Rightarrow> bool" where
  "coherent s = (\<forall>i p x. redis s (productCacheKey i) = Some (CProduct p, x) \<longrightarrow> catalogue_of (db s) i = Some p)"

definition finite_price :: "Product \<Rightarrow> bool" where
  "finite_price p = (case pr_Price p of Fin _ _ \<Rightarrow> True | _ \<Rightarrow> False)"

datatype ProductCall =
    CallGet uint
  | CallCreate ProductCreateInput
  | CallUpdate uint uint ProductUpdateInput
  | CallDelete uint string uint

fun do_call :: "Deps \<Rightarrow> ProductCall \<Rightarrow> Product option io" where
  "do_call deps (CallGet i) = bindE (GetByID deps i) (\<lambda>p. ret (Some p))"
| "do_call deps (CallCreate inp) = bindE (ProductService_Create deps inp) (\<lambda>p. ret (Some p))"
| "do_call deps (CallUpdate u i inp) = bindE (ProductService_Update deps u i inp) (\<lambda>p. ret (Some p))"
| "do_call deps (CallDelete u role i) = bindE (ProductService_Delete deps u role i) (\<lambda>_. ret None)"

text \<open>The specification: a read returns what is in the map; a write changes one entry, the
  owner's (or an administrator's, for a deletion), or fails and changes nothing.\<close>

fun product_spec ::
  "ProductCall \<Rightarrow> (uint \<Rightarrow> Product option) \<Rightarrow> go_error + Product option \<Rightarrow> (uint \<Rightarrow> Product option) \<Rightarrow> bool" where
  "product_spec (CallGet i) m r m' =
     (m' = m \<and> r = (case m i of None \<Rightarrow> Inl (Sentinel ErrNotFound) | Some p \<Rightarrow> Inr (Some p)))"
| "product_spec (CallCreate inp) m r m' =
     (case r of
        Inl _ \<Rightarrow> m' = m
      | Inr None \<Rightarrow> False
      | Inr (Some p) \<Rightarrow> m (pr_ID p) = None \<and> m' = m(pr_ID p \<mapsto> p) \<and> pr_UserID p = pc_UserID inp)"
| "product_spec (CallUpdate u i inp) m r m' =
     (case r of
        Inl _ \<Rightarrow> m' = m
      | Inr None \<Rightarrow> False
      | Inr (Some p) \<Rightarrow> m' = m(i \<mapsto> p) \<and> (\<exists>old. m i = Some old \<and> pr_UserID old = u \<and> pr_UserID p = u))"
| "product_spec (CallDelete u role i) m r m' =
     (case r of
        Inl _ \<Rightarrow> m' = m
      | Inr None \<Rightarrow> m' = m(i := None) \<and> (\<exists>old. m i = Some old \<and> (pr_UserID old = u \<or> role = RoleAdmin))
      | Inr (Some _) \<Rightarrow> False)"

section \<open>The cache\<close>

lemma productCacheKey_inj [simp]: "productCacheKey i = productCacheKey j \<longleftrightarrow> i = j"
  by (simp add: productCacheKey_def)

lemma list_key_differs [simp]: "productCacheKey i \<noteq> listCacheKey u"
  by (simp add: productCacheKey_def listCacheKey_def)

text \<open>Effects that concern neither the tables nor the cached products.\<close>

definition calm :: "sys \<Rightarrow> sys \<Rightarrow> bool" where
  "calm s s' = (db s' = db s \<and> env s' = env s
     \<and> (\<forall>i. redis s' (productCacheKey i) = redis s (productCacheKey i)))"

lemma calm_simps [simp]: "calm s s" "calm s (tock s)" "calm (tock s) s' = calm s s'"
  by (simp_all add: calm_def)

lemma calm_trans: "calm s s1 \<Longrightarrow> calm s1 s2 \<Longrightarrow> calm s s2"
  by (simp add: calm_def)

definition calmly :: "'a io \<Rightarrow> bool" where
  "calmly m = (\<forall>s. wp m (\<lambda>_. calm s) (\<lambda>_. calm s) s)"

lemma calmlyD: "calmly m \<Longrightarrow> m s = (r, s') \<Longrightarrow> calm s s'"
  by (cases r) (auto simp: calmly_def wp_def dest!: spec [of _ s])

lemma calmly_del: "(\<And>i. productCacheKey i \<notin> set ks) \<Longrightarrow> calmly (redis_del ks)"
  by (auto simp: calmly_def wp_def redis_del_def interact_def calm_def split: option.split)

lemma calmly_steps:
  "calmly (ret a)" "calmly (spawn j)" "calmly m \<Longrightarrow> calmly (ignore m)" "calmly (publishAsync deps ty p)"
  "calmly (indexAsync deps p)" "calmly (deleteIndexAsync deps i)"
  by (simp_all add: calmly_def wp_simps publishAsync_def indexAsync_def deleteIndexAsync_def
      wp_def [of "spawn _"] spawn_def calm_def)

lemma calmly_list: "calmly (invalidateListCache deps u)"
  by (simp add: invalidateListCache_def calmly_steps calmly_del)

lemma calmly_bindE:
  assumes "calmly m" and "\<And>a. calmly (f a)"
  shows "calmly (bindE m f)"
  unfolding calmly_def wp_bindE
proof
  fix s
  have "wp (f a) (\<lambda>_. calm s) (\<lambda>_. calm s) s1" if "calm s s1" for a s1
    by (rule wp_mono [OF assms(2) [unfolded calmly_def, rule_format]])
      (auto intro: calm_trans [OF that])
  with assms(1) show "wp m (\<lambda>a. wp (f a) (\<lambda>_. calm s) (\<lambda>_. calm s)) (\<lambda>_. calm s) s"
    unfolding calmly_def by (blast intro: wp_mono)
qed

lemma coherent_calm: "calm s s' \<Longrightarrow> coherent s \<Longrightarrow> coherent s'"
  by (simp add: calm_def coherent_def)

lemma marshal_product: "finite_price p \<Longrightarrow> \<exists>j. marshal (product_value p) = Inr j"
  by (auto simp: product_value_def finite_price_def split: float64.splits)

text \<open>\<open>setCache\<close> without faults stores the product, unless it does not marshal.\<close>

definition stored :: "Product \<Rightarrow> sys \<Rightarrow> sys \<Rightarrow> bool" where
  "stored p s s' = (db s' = db s \<and> env s' = env s \<and>
     (\<exists>x. redis s' = (redis s)(productCacheKey (pr_ID p) \<mapsto> (CProduct p, x))))"

lemma setCache_live:
  assumes "no_faults (env s)" and "setCache deps p s = (r, s')"
  shows "calm s s' \<and> (has_redis deps \<longrightarrow> \<not> finite_price p) \<or> stored p s s'"
proof (cases "has_redis deps")
  case False
  with assms show ?thesis by (simp add: setCache_def ret_def)
next
  case True
  show ?thesis
  proof (cases "marshal (product_value p)")
    case (Inl e)
    with True assms marshal_product [of p] show ?thesis by (auto simp: setCache_def bindE_def of_sum_def)
  next
    case (Inr j)
    with True assms have "stored p s s'"
      by (auto simp: setCache_def bindE_def of_sum_def redis_set_def interact_def stored_def)
    then show ?thesis ..
  qed
qed

text \<open>Coherent but for one entry: what a write to the tables leaves behind.\<close>

definition coherent_but :: "uint \<Rightarrow> sys \<Rightarrow> bool" where
  "coherent_but j s = (\<forall>i p x. i \<noteq> j \<longrightarrow> redis s (productCacheKey i) = Some (CProduct p, x)
     \<longrightarrow> catalogue_of (db s) i = Some p)"

lemma coherent_but: "coherent s \<Longrightarrow> coherent_but j s"
  by (simp add: coherent_def coherent_but_def)

lemma coherent_but_db:
  "coherent s \<Longrightarrow> (\<And>i. i \<noteq> j \<Longrightarrow> catalogue_of (db s') i = catalogue_of (db s) i) \<Longrightarrow> redis s' = redis s
   \<Longrightarrow> coherent_but j s'"
  by (simp add: coherent_def coherent_but_def)

lemma setCache_same:
  assumes "no_faults (env s)" and "setCache deps p s = (r, s')" and "coherent s"
    and "catalogue_of (db s) (pr_ID p) = Some p"
  shows "db s' = db s \<and> env s' = env s \<and> coherent s'"
  using setCache_live [OF assms(1,2)] assms(3,4)
  by (auto simp: calm_def stored_def coherent_def split: if_splits)

lemma setCache_repairs:
  assumes "no_faults (env s)" and "setCache deps p s = (r, s')" and "coherent_but (pr_ID p) s"
    and "catalogue_of (db s) (pr_ID p) = Some p" and "has_redis deps" and "finite_price p"
  shows "db s' = db s \<and> env s' = env s \<and> coherent s'"
  using setCache_live [OF assms(1,2)] assms(3-)
  by (auto simp: stored_def coherent_def coherent_but_def split: if_splits)

lemma deleteCache_repairs:
  assumes "no_faults (env s)" and "deleteCache deps i s = (r, s')" and "coherent_but i s" and "has_redis deps"
  shows "db s' = db s \<and> env s' = env s \<and> coherent s'"
  using assms
  by (auto simp: deleteCache_def redis_del_def interact_def live_def coherent_def coherent_but_def
      split: option.splits if_splits)

lemma getCache_live:
  assumes "no_faults (env s)" and "getCache deps i s = (r, s')" and "coherent s"
  shows "calm s s' \<and> (\<forall>p. r = Inr p \<longrightarrow> catalogue_of (db s) i = Some p)"
  using assms
  by (auto simp: getCache_def throw_def bindE_def redis_get_def interact_def live_def ret_def coherent_def
      split: option.splits if_splits cval.splits)

section \<open>The tables\<close>

lemma catalogue_add:
  assumes "p_ID r \<notin> set (map p_ID (products d))" and "live_product r"
  shows "catalogue_of d (p_ID r) = None"
    and "catalogue_of (add_product r d) = (catalogue_of d)(p_ID r \<mapsto> Product_toDomain r)"
proof -
  have none: "List.find (\<lambda>q. p_ID q = p_ID r \<and> live_product q) (products d) = None"
    unfolding find_None_iff using assms(1) by (metis image_eqI list.set_map)
  then show "catalogue_of d (p_ID r) = None" by (simp add: catalogue_of_def)
  have app: "List.find P (xs @ [x]) = (case List.find P xs of None \<Rightarrow> if P x then Some x else None | Some y \<Rightarrow> Some y)"
    for P and xs :: "ProductModel list" and x
    by (induction xs) auto
  show "catalogue_of (add_product r d) = (catalogue_of d)(p_ID r \<mapsto> Product_toDomain r)"
    using assms(2) none by (auto simp: catalogue_of_def add_product_def app split: option.split)
qed

lemma catalogue_save:
  assumes "r \<in> set (products d)" and "p_ID p = p_ID r" and "live_product p"
  shows "catalogue_of (d\<lparr>products := save_rows p (products d)\<rparr>) = (catalogue_of d)(p_ID p \<mapsto> Product_toDomain p)"
proof -
  have "List.find (\<lambda>q. p_ID q = i \<and> live_product q) (update_where (\<lambda>q. p_ID q = p_ID p) (\<lambda>_. p) rows)
      = (if i = p_ID p \<and> p_ID p \<in> p_ID ` set rows then Some p
         else if i = p_ID p then None
         else List.find (\<lambda>q. p_ID q = i \<and> live_product q) rows)" for i rows
    using assms(3) by (induction rows) auto
  moreover have "p_ID p \<in> p_ID ` set (products d)" using assms(1,2) by auto
  ultimately show ?thesis by (auto simp: catalogue_of_def save_rows_def)
qed

lemma catalogue_delete:
  "catalogue_of (d\<lparr>products := update_where (\<lambda>r. p_ID r = i \<and> live_product r) (\<lambda>r. r\<lparr>p_DeletedAt := Some t\<rparr>) (products d)\<rparr>)
   = (catalogue_of d)(i := None)"
proof -
  have "List.find (\<lambda>q. p_ID q = j \<and> live_product q)
        (update_where (\<lambda>r. p_ID r = i \<and> live_product r) (\<lambda>r. r\<lparr>p_DeletedAt := Some t\<rparr>) rows)
      = (if j = i then None else List.find (\<lambda>q. p_ID q = j \<and> live_product q) rows)" for j rows
    by (induction rows) (auto simp: live_product_def)
  then show ?thesis by (auto simp: catalogue_of_def)
qed

lemma FindByID_live:
  assumes "no_faults (env s)"
  shows "Product_FindByID i s
     = (case List.find (\<lambda>r. p_ID r = i \<and> live_product r) (products (db s)) of
          None \<Rightarrow> (Inl (Sentinel ErrNotFound), tock s) | Some p \<Rightarrow> (Inr p, tock s))"
  using assms by (simp add: Product_FindByID_def bindE_def interact_defs throw_def ret_def split: option.split)

section \<open>The calls refine the specification\<close>

text \<open>What a call that returned \<open>r\<close> did: what the specification says, and the cache is as good as
  before.\<close>

definition refined :: "ProductCall \<Rightarrow> sys \<Rightarrow> go_error + Product option \<Rightarrow> sys \<Rightarrow> bool" where
  "refined call s r s' = (product_spec call (catalogue_of (db s)) r (catalogue_of (db s'))
     \<and> coherent s' \<and> env s' = env s)"

lemma catalogue_of_row:
  "catalogue_of d i = (case List.find (\<lambda>r. p_ID r = i \<and> live_product r) (products d) of
     None \<Rightarrow> None | Some r \<Rightarrow> Some (Product_toDomain r))"
  by (simp add: catalogue_of_def split: option.split)

lemma refine_Get:
  assumes live: "no_faults (env s)" and coh: "coherent s" and run: "GetByID deps i s = (r, s')"
  shows "refined (CallGet i) s (map_sum id Some r) s'"
proof -
  obtain x s1 where x: "getCache deps i s = (x, s1)" by fastforce
  note got = getCache_live [OF live x coh]
  then have s1: "db s1 = db s" "env s1 = env s" "coherent s1" using coh
    by (auto simp: calm_def intro: coherent_calm)
  show ?thesis
  proof (cases x)
    case (Inr p)
    with got have "catalogue_of (db s) i = Some p" by simp
    moreover from run x Inr have "r = Inr p" "s' = s1"
      by (auto simp: GetByID_def bindE_def attempt_def ret_def)
    ultimately show ?thesis using s1 by (simp add: refined_def)
  next
    case (Inl e)
    let ?row = "List.find (\<lambda>r. p_ID r = i \<and> live_product r) (products (db s))"
    note find = FindByID_live [of s1 i, unfolded s1(1,2), OF live]
    show ?thesis
    proof (cases ?row)
      case None
      with run x Inl find s1 show ?thesis
        by (auto simp: refined_def GetByID_def bindE_def attempt_def catalogue_of_row intro: coherent_calm [where s = s1])
    next
      case (Some row)
      let ?p = "Product_toDomain row"
      obtain y s2 where y: "setCache deps ?p (tock s1) = (y, s2)" by fastforce
      have id: "pr_ID ?p = i" using find_SomeD [OF Some] by (simp add: Product_toDomain_def)
      have p: "catalogue_of (db s) i = Some ?p" using Some by (simp add: catalogue_of_row)
      have "db s2 = db s \<and> env s2 = env s \<and> coherent s2"
        using setCache_same [OF _ y] live s1 p id coherent_calm [of s1 "tock s1"] by simp
      with run x Inl find Some y p show ?thesis
        by (auto simp: refined_def GetByID_def bindE_def attempt_def ignore_def ret_def Let_def)
    qed
  qed
qed

text \<open>What follows a write to the tables: it succeeds and disturbs neither tables nor products.\<close>

definition announce :: "Deps \<Rightarrow> uint \<Rightarrow> string \<Rightarrow> Product \<Rightarrow> Product io" where
  "announce deps u ty p =
     bindE (ignore (invalidateListCache deps u)) (\<lambda>_.
     bindE (publishAsync deps ty p) (\<lambda>_. bindE (indexAsync deps p) (\<lambda>_. ret p)))"

lemma announce_calm:
  assumes "announce deps u ty p s = (r, s')"
  shows "r = Inr p \<and> calm s s'"
proof
  have "calmly (announce deps u ty p)"
    unfolding announce_def by (intro calmly_bindE calmly_steps calmly_list)
  from calmlyD [OF this assms] show "calm s s'" .
  show "r = Inr p"
    using assms
    by (auto simp: announce_def bindE_def ignore_def publishAsync_def indexAsync_def spawn_def ret_def
        split: prod.splits if_splits)
qed

definition announce_deletion :: "Deps \<Rightarrow> uint \<Rightarrow> Product \<Rightarrow> uint \<Rightarrow> unit io" where
  "announce_deletion deps u p i =
     bindE (ignore (invalidateListCache deps u)) (\<lambda>_.
     bindE (publishAsync deps EventProductDeleted p) (\<lambda>_. deleteIndexAsync deps i))"

lemma announce_deletion_calm:
  assumes "announce_deletion deps u p i s = (r, s')"
  shows "r = Inr () \<and> calm s s'"
proof
  have "calmly (announce_deletion deps u p i)"
    unfolding announce_deletion_def by (intro calmly_bindE calmly_steps calmly_list)
  from calmlyD [OF this assms] show "calm s s'" .
  show "r = Inr ()"
    using assms
    by (auto simp: announce_deletion_def bindE_def ignore_def publishAsync_def deleteIndexAsync_def spawn_def ret_def
        split: prod.splits if_splits)
qed

lemma Product_Create_live:
  assumes "no_faults (env s)" and "Product_Create mk s = (x, s1)"
  shows "env s1 = env s \<and> redis s1 = redis s
     \<and> (case x of
          Inl _ \<Rightarrow> db s1 = db s
        | Inr r \<Rightarrow> db s1 = add_product r (db s) \<and> p_ID r \<notin> set (map p_ID (products (db s)))
            \<and> (\<exists>i t. r = mk i t))"
  using assms
  by (auto simp: Product_Create_def bindE_def now_def insert_row_def interact_def Let_def product_refuse_def
      first_violation_None split: if_splits option.splits) blast

lemma refine_Create:
  assumes live: "no_faults (env s)" and coh: "coherent s"
    and run: "ProductService_Create deps inp s = (r, s')"
  shows "refined (CallCreate inp) s (map_sum id Some r) s'"
proof (cases "TrimSpace (pc_Name inp) = [] \<or> f64_negative (pc_Price inp) \<or> pc_Stock inp < 0")
  case True
  with run coh show ?thesis by (auto simp: refined_def ProductService_Create_def throw_def)
next
  case False
  let ?mk = "\<lambda>i t. \<lparr>p_ID = i, p_UserID = pc_UserID inp, p_Name = TrimSpace (pc_Name inp),
                  p_Description = TrimSpace (pc_Description inp), p_Price = pc_Price inp,
                  p_Stock = pc_Stock inp, p_CreatedAt = t, p_UpdatedAt = t, p_DeletedAt = None\<rparr>"
  obtain x s1 where x: "Product_Create ?mk s = (x, s1)" by fastforce
  note made = Product_Create_live [OF live x]
  show ?thesis
  proof (cases x)
    case (Inl e)
    with made have "coherent s1" using coh by (simp add: coherent_def)
    with made run False x Inl show ?thesis by (auto simp: refined_def ProductService_Create_def bindE_def)
  next
    case (Inr row)
    let ?p = "Product_toDomain row"
    from made Inr have row: "p_ID row \<notin> set (map p_ID (products (db s)))" "db s1 = add_product row (db s)"
      and id: "pr_ID ?p = p_ID row" "pr_UserID ?p = pc_UserID inp" "live_product row"
      by (auto simp: Product_toDomain_def live_product_def)
    note cat = catalogue_add [OF row(1) id(3)]
    obtain y s2 where y: "setCache deps ?p s1 = (y, s2)" by fastforce
    have "coherent s1" using coh cat made row(2) by (fastforce simp: coherent_def)
    then have s2: "db s2 = db s1" "env s2 = env s1" "coherent s2"
      using setCache_same [OF _ y] live made cat row(2) id by auto
    from run False x Inr y have "announce deps (pc_UserID inp) EventProductCreated ?p s2 = (r, s')"
      by (simp add: ProductService_Create_def announce_def bindE_def ignore_def Let_def)
    note told = announce_calm [OF this]
    have "db s' = db s2" "env s' = env s2" using told by (simp_all add: calm_def)
    moreover have "coherent s'" using told s2 coherent_calm [of s2 s'] by simp
    moreover have "r = Inr ?p" using told by simp
    ultimately
    show ?thesis using made s2 row id cat by (simp add: refined_def)
  qed
qed

text \<open>An update reads the row, changes it in memory and saves it whole.\<close>

lemma apply_update_keeps:
  "apply_update inp m = Inr m' \<Longrightarrow> p_ID m' = p_ID m \<and> p_UserID m' = p_UserID m \<and> p_DeletedAt m' = p_DeletedAt m"
  by (auto simp: apply_update_def split: if_splits)

lemma load_live:
  assumes "no_faults (env s)" and "load_for_update u i inp s = (x, s1)"
  shows "calm s s1 \<and> redis s1 = redis s \<and> (\<forall>m. x = Inr m \<longrightarrow>
     (\<exists>row. row \<in> set (products (db s)) \<and> p_ID row = i \<and> p_UserID row = u \<and> live_product row
        \<and> catalogue_of (db s) i = Some (Product_toDomain row)
        \<and> p_ID m = i \<and> p_UserID m = u \<and> live_product m))"
proof (cases "List.find (\<lambda>r. p_ID r = i \<and> live_product r) (products (db s))")
  case None
  with assms FindByID_live [OF assms(1), of i] show ?thesis
    by (auto simp: load_for_update_def bindE_def)
next
  case (Some row)
  from find_SomeD [OF Some] have row: "row \<in> set (products (db s))" "p_ID row = i" "live_product row" by auto
  have cat: "catalogue_of (db s) i = Some (Product_toDomain row)" using Some by (simp add: catalogue_of_row)
  from Some assms FindByID_live [OF assms(1), of i] show ?thesis
    using row cat apply_update_keeps [of inp row]
    by (auto simp: load_for_update_def bindE_def throw_def of_sum_def live_product_def split: if_splits)
qed

lemma Product_Update_live:
  assumes "no_faults (env s)" and "Product_Update m s = (x, s1)"
  shows "env s1 = env s \<and> redis s1 = redis s
     \<and> (case x of
          Inl _ \<Rightarrow> db s1 = db s
        | Inr p \<Rightarrow> (\<exists>t. p = m\<lparr>p_UpdatedAt := t\<rparr>) \<and> db s1 = (db s)\<lparr>products := save_rows p (products (db s))\<rparr>)"
  using assms
  by (auto simp: Product_Update_def bindE_def now_def sql_def interact_def Let_def ret_def
      split: if_splits)

lemma refine_Update:
  assumes live: "no_faults (env s)" and coh: "coherent s" and cache: "has_redis deps"
    and run: "ProductService_Update deps u i inp s = (r, s')" and price: "\<forall>p. r = Inr p \<longrightarrow> finite_price p"
  shows "refined (CallUpdate u i inp) s (map_sum id Some r) s'"
proof -
  obtain x s1 where x: "load_for_update u i inp s = (x, s1)" by fastforce
  note loaded = load_live [OF live x]
  have s1: "db s1 = db s" "env s1 = env s" "redis s1 = redis s" "coherent s1"
    using loaded coherent_calm coh by (auto simp: calm_def)
  show ?thesis
  proof (cases x)
    case (Inl e)
    with run x s1 show ?thesis by (auto simp: refined_def ProductService_Update_def bindE_def)
  next
    case (Inr m)
    with loaded obtain row where row: "row \<in> set (products (db s))" "p_ID row = i" "p_UserID row = u"
      "catalogue_of (db s) i = Some (Product_toDomain row)" "p_ID m = i" "p_UserID m = u" "live_product m"
      by blast
    obtain y s2 where y: "Product_Update m s1 = (y, s2)" by fastforce
    note saved = Product_Update_live [OF live [folded s1(2)] y]
    show ?thesis
    proof (cases y)
      case (Inl e)
      with saved s1 have "coherent s2" by (simp add: coherent_def)
      with run x Inr y Inl saved s1 show ?thesis
        by (auto simp: refined_def ProductService_Update_def store_update_def bindE_def)
    next
      case p': (Inr p)
      let ?p = "Product_toDomain p"
      from saved p' row have p: "p_ID p = p_ID row" "p_UserID p = u" "live_product p"
        and db2: "db s2 = (db s)\<lparr>products := save_rows p (products (db s))\<rparr>"
        by (auto simp: s1 live_product_def)
      note cat = catalogue_save [OF row(1) p(1,3), folded db2]
      have id: "pr_ID ?p = i" "pr_UserID ?p = u" using p row by (simp_all add: Product_toDomain_def)
      obtain z s3 where z: "setCache deps ?p s2 = (z, s3)" by fastforce
      from run x Inr y p' z have tail: "announce deps u EventProductUpdated ?p s3 = (r, s')"
        by (simp add: ProductService_Update_def store_update_def announce_def bindE_def ignore_def Let_def)
      note told = announce_calm [OF tail]
      have "coherent_but i s2"
        by (rule coherent_but_db [OF coh]) (use cat saved s1 p row in auto)
      then have "db s3 = db s2" and "env s3 = env s2" and "coherent s3"
        using setCache_repairs [OF _ z] live saved s1 cat id p row cache price told by auto
      moreover have "db s' = db s3" "env s' = env s3" using told by (simp_all add: calm_def)
      moreover have "coherent s'" using told \<open>coherent s3\<close> coherent_calm [of s3 s'] by simp
      ultimately show ?thesis using told saved s1 cat id p row by (simp add: refined_def Product_toDomain_def)
    qed
  qed
qed

lemma Product_Delete_live:
  assumes "no_faults (env s)" and "Product_Delete i s = (x, s1)"
  shows "env s1 = env s \<and> redis s1 = redis s \<and> catalogue_of (db s1) = (catalogue_of (db s))(i := None)"
proof -
  have "\<exists>t. db s1 = (db s)\<lparr>products := update_where (\<lambda>r. p_ID r = i \<and> live_product r)
      (\<lambda>r. r\<lparr>p_DeletedAt := Some t\<rparr>) (products (db s))\<rparr>"
    and "env s1 = env s" "redis s1 = redis s"
    using assms
    by (auto simp: Product_Delete_def bindE_def now_def sql_def interact_def Let_def ret_def throw_def
        split: if_splits)
  then show ?thesis using catalogue_delete by auto
qed

lemma deleted_row:
  assumes "List.find (\<lambda>r. p_ID r = i \<and> live_product r) (products (db s)) = Some row"
    and "no_faults (env s)" and "Product_Delete i s = (x, s1)"
  shows "x = Inr ()"
proof -
  from find_SomeD [OF assms(1)] have "filter (\<lambda>r. p_ID r = i \<and> live_product r) (products (db s)) \<noteq> []"
    by (auto simp: filter_empty_conv)
  with assms(2,3) show ?thesis
    by (auto simp: Product_Delete_def bindE_def now_def sql_def interact_def Let_def ret_def split: if_splits)
qed

lemma refine_Delete:
  assumes live: "no_faults (env s)" and coh: "coherent s" and cache: "has_redis deps"
    and run: "ProductService_Delete deps u role i s = (r, s')"
  shows "refined (CallDelete u role i) s (map_sum id (\<lambda>_. None) r) s'"
proof -
  note find = FindByID_live [OF live, of i]
  have tick: "coherent (tock s)" using coherent_calm [of s "tock s"] coh by simp
  show ?thesis
  proof (cases "List.find (\<lambda>r. p_ID r = i \<and> live_product r) (products (db s))")
    case None
    with run find tick show ?thesis by (auto simp: refined_def ProductService_Delete_def bindE_def)
  next
    case (Some row)
    show ?thesis
    proof (cases "p_UserID row \<noteq> u \<and> role \<noteq> RoleAdmin")
      case True
      with run find Some tick show ?thesis by (auto simp: refined_def ProductService_Delete_def bindE_def throw_def)
    next
      case False
      obtain x s1 where x: "Product_Delete i (tock s) = (x, s1)" by fastforce
      have gone: "env s1 = env s" "redis s1 = redis s" "catalogue_of (db s1) = (catalogue_of (db s))(i := None)"
        using Product_Delete_live [OF _ x] live by simp_all
      have "x = Inr ()" using deleted_row [OF _ _ x] Some live by simp
      obtain z s2 where z: "deleteCache deps i s1 = (z, s2)" by fastforce
      have "coherent_but i s1" by (rule coherent_but_db [OF coh]) (simp_all add: gone)
      then have s2: "db s2 = db s1" "env s2 = env s1" "coherent s2"
        using deleteCache_repairs [OF _ z _ cache] live gone by auto
      from run find Some False x \<open>x = Inr ()\<close> z
      have "announce_deletion deps u (Product_toDomain row) i s2 = (r, s')"
        by (simp add: ProductService_Delete_def announce_deletion_def bindE_def ignore_def)
      note told = announce_deletion_calm [OF this]
      have "db s' = db s2" "env s' = env s2" using told by (simp_all add: calm_def)
      moreover have "coherent s'" using told s2 coherent_calm [of s2 s'] by simp
      ultimately show ?thesis using told s2 gone Some False
        by (auto simp: refined_def catalogue_of_row Product_toDomain_def)
    qed
  qed
qed

lemma refine_call:
  assumes "no_faults (env s)" and "coherent s" and "has_redis deps" and "do_call deps call s = (r, s')"
    and "\<forall>p. r = Inr (Some p) \<longrightarrow> finite_price p"
  shows "refined call s r s'"
proof (cases call)
  case (CallGet i)
  with assms obtain r0 where "GetByID deps i s = (r0, s')" "r = map_sum id Some r0"
    by (auto simp: ret_def elim!: bindE_cases)
  with CallGet refine_Get [OF assms(1,2)] show ?thesis by simp
next
  case (CallCreate inp)
  with assms obtain r0 where "ProductService_Create deps inp s = (r0, s')" "r = map_sum id Some r0"
    by (auto simp: ret_def elim!: bindE_cases)
  with CallCreate refine_Create [OF assms(1,2)] show ?thesis by simp
next
  case (CallUpdate u i inp)
  with assms obtain r0 where "ProductService_Update deps u i inp s = (r0, s')" "r = map_sum id Some r0"
    by (auto simp: ret_def elim!: bindE_cases)
  with CallUpdate refine_Update [OF assms(1-3)] assms(5) show ?thesis by simp
next
  case (CallDelete u role i)
  with assms obtain r0 where "ProductService_Delete deps u role i s = (r0, s')" "r = map_sum id (\<lambda>_. None) r0"
    by (auto simp: ret_def elim!: bindE_cases)
  with CallDelete refine_Delete [OF assms(1-3)] show ?thesis by simp
qed

text \<open>A sequence of calls, and what the specification allows it to return.\<close>

fun do_calls :: "Deps \<Rightarrow> ProductCall list \<Rightarrow> sys \<Rightarrow> (go_error + Product option) list \<times> sys" where
  "do_calls deps [] s = ([], s)"
| "do_calls deps (call # calls) s =
     (let (r, s1) = do_call deps call s; (rs, s') = do_calls deps calls s1 in (r # rs, s'))"

fun spec_trace ::
  "ProductCall list \<Rightarrow> (uint \<Rightarrow> Product option) \<Rightarrow> (go_error + Product option) list \<Rightarrow> (uint \<Rightarrow> Product option) \<Rightarrow> bool" where
  "spec_trace [] m [] m' = (m' = m)"
| "spec_trace (call # calls) m (r # rs) m' = (\<exists>m1. product_spec call m r m1 \<and> spec_trace calls m1 rs m')"
| "spec_trace _ _ _ _ = False"

definition finite_result :: "go_error + Product option \<Rightarrow> bool" where
  "finite_result r = (case r of Inr (Some p) \<Rightarrow> finite_price p | _ \<Rightarrow> True)"

lemma refine_calls:
  "no_faults (env s) \<Longrightarrow> coherent s \<Longrightarrow> has_redis deps \<Longrightarrow> do_calls deps calls s = (rs, s')
   \<Longrightarrow> list_all finite_result rs
   \<Longrightarrow> spec_trace calls (catalogue_of (db s)) rs (catalogue_of (db s')) \<and> coherent s'"
proof (induction calls arbitrary: s rs)
  case Nil
  then show ?case by simp
next
  case (Cons call calls)
  obtain r s1 where r: "do_call deps call s = (r, s1)" by fastforce
  obtain rs1 s2 where rs1: "do_calls deps calls s1 = (rs1, s2)" by fastforce
  from Cons.prems(4) r rs1 have rs: "rs = r # rs1" "s2 = s'" by auto
  have "refined call s r s1"
    by (rule refine_call [OF Cons.prems(1-3) r]) (use Cons.prems(5) rs in \<open>auto simp: finite_result_def\<close>)
  then have one: "product_spec call (catalogue_of (db s)) r (catalogue_of (db s1))" "coherent s1" "env s1 = env s"
    by (simp_all add: refined_def)
  from Cons.IH [of s1 rs1] one Cons.prems rs rs1 show ?case by auto
qed

text \<open>C31. Refinement: with Redis and the database up, any sequence of reads, creations, updates
  and deletions through the product service, with its cache in between, returns what a plain
  map from ids to products would return and leaves the tables as that map; the cache stays
  coherent.  (Prices must be finite: a product whose price does not marshal is not cached.)\<close>

theorem product_service_refines:
  assumes "no_faults (env s)" and "coherent s" and "has_redis deps"
    and "do_calls deps calls s = (rs, s')" and "list_all finite_result rs"
  shows "spec_trace calls (catalogue_of (db s)) rs (catalogue_of (db s')) \<and> coherent s'"
  by (rule refine_calls [OF assms])

definition cached_deps :: Deps where
  "cached_deps = \<lparr>has_redis = True, has_publisher = False, has_search = False, cache_ttl = 300 * second\<rparr>"

definition restock :: ProductUpdateInput where
  "restock = \<lparr>pu_Name = None, pu_Description = None, pu_Price = None, pu_Stock = Some 9\<rparr>"

definition shift :: "ProductCall list" where
  "shift = [CallGet 1, CallUpdate 1 1 restock, CallGet 1, CallUpdate 2 1 restock, CallDelete 1 RoleUser 1, CallGet 1]"

theorem product_service_refines_witness:
  "spec_trace shift (catalogue_of (db shop0)) (fst (do_calls cached_deps shift shop0))
       (catalogue_of (db (snd (do_calls cached_deps shift shop0))))
   \<and> coherent (snd (do_calls cached_deps shift shop0))
   \<and> map (map_sum id (map_option pr_Stock)) (fst (do_calls cached_deps shift shop0))
     = [Inr (Some 5), Inr (Some 9), Inr (Some 9), Inl (Sentinel ErrForbidden), Inr None, Inl (Sentinel ErrNotFound)]"
proof -
  have "list_all finite_result (fst (do_calls cached_deps shift shop0))" by code_simp
  moreover have "no_faults (env shop0)" "coherent shop0" "has_redis cached_deps"
    by (simp_all add: shop0_def quiet_def no_faults_def coherent_def cached_deps_def)
  moreover have "map (map_sum id (map_option pr_Stock)) (fst (do_calls cached_deps shift shop0))
     = [Inr (Some 5), Inr (Some 9), Inr (Some 9), Inl (Sentinel ErrForbidden), Inr None, Inl (Sentinel ErrNotFound)]"
    by code_simp
  ultimately show ?thesis
    using product_service_refines [of shop0 cached_deps shift] by (metis prod.collapse)
qed

section \<open>Where the cache and the table part\<close>

lemma sql_only_OrderService_Pay: "sql_only (OrderService_Pay inp)"
  unfolding OrderService_Pay_def OrderService_Get_def FindByID_def items_of_def Let_def
  by (intro sql_only_intro sql_only_operations)

text \<open>C32. Paying, unlike ordering and cancelling, does not invalidate the cached products: a
  product that is cached when a payment is made is served as cached afterwards, also when the
  payment failed and its stock went back on sale.\<close>

theorem pay_keeps_cached_product:
  assumes "OrderService_Pay inp s = (r, s1)" and "has_redis deps" and "fault (env s1) (tick s1) = None"
    and "live (clock (env s1) (tick (tock s1))) (redis s (productCacheKey i)) = Some (CProduct p)"
  shows "fst (GetByID deps i s1) = Inr p"
proof -
  have "redis s1 = redis s"
    using sql_only_redis [OF sql_only_OrderService_Pay assms(1)] .
  with assms(2-) show ?thesis
    by (simp add: GetByID_def getCache_def bindE_def attempt_def redis_get_def interact_def ret_def)
qed

definition failing :: PayInput where
  "failing = \<lparr>py_UserID = 1, py_OrderID = 1, py_Outcome = ''fail'', py_Key = []\<rparr>"

definition warm_shop :: sys where "warm_shop = snd (GetByID cached_deps 1 shop1)"
definition failed_shop :: sys where "failed_shop = snd (OrderService_Pay failing warm_shop)"

theorem pay_keeps_cached_product_witness:
  "map_sum id pr_Stock (fst (GetByID cached_deps 1 failed_shop)) = Inr 3 \<and> stock_of 1 (db failed_shop) = 5"
proof -
  have "let s = failed_shop in stock_of 1 (db s) = 5 \<and> clock (env s) (tick (tock s)) < 100 * second
      \<and> fault (env s) (tick s) = None"
    by code_simp
  then have late: "stock_of 1 (db failed_shop) = 5" "clock (env failed_shop) (tick (tock failed_shop)) < 100 * second"
    "fault (env failed_shop) (tick failed_shop) = None"
    by (simp_all only: Let_def conj_assoc)
  have "case redis warm_shop (productCacheKey 1) of
      Some (CProduct p, Some x) \<Rightarrow> pr_Stock p = 3 \<and> 100 * second \<le> x | _ \<Rightarrow> False"
    by code_simp
  then obtain p x where p: "redis warm_shop (productCacheKey 1) = Some (CProduct p, Some x)" "pr_Stock p = 3"
    "100 * second \<le> x"
    by (auto split: option.split_asm cval.split_asm) (metis cval.exhaust option.exhaust)
  have "fst (GetByID cached_deps 1 failed_shop) = Inr p"
    by (rule pay_keeps_cached_product [where inp = failing and s = warm_shop
          and r = "fst (OrderService_Pay failing warm_shop)"])
      (use late p in \<open>auto simp: failed_shop_def cached_deps_def live_def\<close>)
  with p late show ?thesis by simp
qed

definition reprice :: ProductUpdateInput where
  "reprice = \<lparr>pu_Name = None, pu_Description = None, pu_Price = Some (f64_of_int 30000), pu_Stock = None\<rparr>"

definition read_row :: ProductModel where
  "read_row = (case fst (load_for_update 1 1 reprice shop0) of Inr m \<Rightarrow> m | Inl _ \<Rightarrow> kopi)"

definition sold_shop :: sys where
  "sold_shop = snd (CreateOrder 1 basket (snd (load_for_update 1 1 reprice shop0)))"

lemma find_distinct:
  "distinct (map p_ID ps) \<Longrightarrow> p \<in> set ps \<Longrightarrow> List.find (\<lambda>r. p_ID r = p_ID p) ps = Some p"
  by (induction ps) auto

lemma find_save_rows: "List.find (\<lambda>r. p_ID r = p_ID p) (save_rows p rows) = Some p"
proof -
  have "List.find (\<lambda>r. p_ID r = p_ID p) (update_where (\<lambda>r. p_ID r = p_ID p) (\<lambda>_. p) rows)
      = (if p_ID p \<in> set (map p_ID rows) then Some p else None)"
    by (induction rows) (auto simp: update_where_def)
  moreover have "List.find (\<lambda>r. p_ID r = p_ID p) (rows @ [p]) = Some p" if "p_ID p \<notin> set (map p_ID rows)"
    using that by (induction rows) auto
  ultimately show ?thesis by (simp add: save_rows_def)
qed

lemma loaded_row:
  assumes "system_inv s" and "load_for_update u pid inp s = (Inr m, s1)" and "pu_Stock inp = None"
  shows "p_ID m = pid \<and> p_Stock m = stock_of pid (db s) \<and> db s1 = db s \<and> outside s1 = outside s"
proof -
  have "reading.runs (load_for_update u pid inp)"
    unfolding load_for_update_def by (intro reading.runs_intros reading.runs_find)
  from reading.runsD [OF this assms(2)] have "db s1 = db s \<and> outside s1 = outside s" .
  moreover from assms(2) obtain row where "List.find (\<lambda>r. p_ID r = pid \<and> live_product r) (products (db s)) = Some row"
    and m: "apply_update inp row = Inr m"
    by (auto simp: load_for_update_def Product_FindByID_def bindE_def of_sum_def throw_def ret_def interact_defs
        split: if_splits option.splits)
  moreover from this find_SomeD have "row \<in> set (products (db s))" "p_ID row = pid" by fastforce+
  moreover have "distinct (map p_ID (products (db s)))"
    using assms(1) by (simp add: system_inv_def shop_inv_def schema_defs)
  ultimately show ?thesis
    using find_distinct [of "products (db s)" row] m assms(3)
    by (auto simp: apply_update_def stock_of_def split: if_splits)
qed

lemma stored_row:
  assumes "store_update deps u m s = (Inr p, s')"
  shows "stock_of (p_ID m) (db s') = p_Stock m \<and> reservations (db s') = reservations (db s)"
proof -
  let ?announce = "\<lambda>row. bindE (ignore (setCache deps (Product_toDomain row))) (\<lambda>_.
     bindE (ignore (invalidateListCache deps u)) (\<lambda>_.
     bindE (publishAsync deps EventProductUpdated (Product_toDomain row)) (\<lambda>_.
     bindE (indexAsync deps (Product_toDomain row)) (\<lambda>_. ret (Product_toDomain row)))))"
  from assms obtain row s1 where saved: "Product_Update m s = (Inr row, s1)" and told: "?announce row s1 = (Inr p, s')"
    unfolding store_update_def Let_def by (auto simp: bindE_def [of "Product_Update m"] split: prod.splits sum.splits)
  have "reading.runs (?announce row)"
    by (intro reading.runs_intros reading.runs_cache reading.runs_async)
  from reading.runsD [OF this told] have "db s' = db s1" by blast
  moreover have "\<exists>t. db s1 = (db s)\<lparr>products := save_rows (m\<lparr>p_UpdatedAt := t\<rparr>) (products (db s))\<rparr>"
    using saved by (auto simp: Product_Update_def bindE_def now_def interact_defs Let_def ret_def
        split: if_splits option.splits)
  ultimately show ?thesis
    using find_save_rows [of "m\<lparr>p_UpdatedAt := t\<rparr>" for t] by (auto simp: stock_of_def)
qed

text \<open>C33. Changing a product is a read and a later write of the whole row, without a lock: a
  seller who changes anything but the stock, while orders are placed, cancelled or paid in between,
  writes back the stock that was read; the supply grows by what they took meanwhile, which is on
  sale a second time.\<close>

theorem racing_update_restores_stock:
  assumes "system_inv s" and "load_for_update u pid inp s = (Inr m, s1)" and "pu_Stock inp = None"
    and "trades s1 s2" and "store_update deps u m s2 = (Inr p, s3)"
  shows "stock_of pid (db s3) = stock_of pid (db s)
    \<and> stock_of pid (db s3) + taken pid (reservations (db s3))
      = stock_of pid (db s) + taken pid (reservations (db s)) + (stock_of pid (db s) - stock_of pid (db s2))"
proof -
  note loaded = loaded_row [OF assms(1-3)] and stored = stored_row [OF assms(5)]
  have "trades s s1" using loaded by (intro trading.rel_frame) simp_all
  with assms(4) have "trades s s2" by (rule trades_trans)
  from trades_supply [OF this assms(1), of pid] loaded stored show ?thesis by auto
qed

theorem racing_update_restores_stock_witness:
  "stock_of 1 (db shop0) = 5 \<and> stock_of 1 (db sold_shop) = 3
   \<and> (let d = db (snd (store_update cached_deps 1 read_row sold_shop)) in
        stock_of 1 d = 5 \<and> stock_of 1 d + taken 1 (reservations d) = 7)"
proof -
  let ?s1 = "snd (load_for_update 1 1 reprice shop0)" and ?s3 = "store_update cached_deps 1 read_row sold_shop"
  have ok: "case fst (load_for_update 1 1 reprice shop0) of Inr m \<Rightarrow> m = read_row | Inl _ \<Rightarrow> False"
    "case fst ?s3 of Inr _ \<Rightarrow> True | Inl _ \<Rightarrow> False" by code_simp+
  have stock: "stock_of 1 (db shop0) = 5" "taken 1 (reservations (db shop0)) = 0" "stock_of 1 (db sold_shop) = 3" by code_simp+
  have load: "load_for_update 1 1 reprice shop0 = (Inr read_row, ?s1)"
    using ok(1) by (simp add: prod_eq_iff split: sum.splits)
  obtain p where store: "?s3 = (Inr p, snd ?s3)"
    using ok(2) by (cases "fst ?s3") (simp_all add: prod_eq_iff)
  have sold: "trades ?s1 sold_shop"
    unfolding sold_shop_def by (rule trades_step, rule trade.create, rule prod.collapse [symmetric])
  from racing_update_restores_stock [OF shop0_inv load _ sold store] stock show ?thesis
    by (simp add: reprice_def Let_def)
qed

end
