(* ===== verification/Sessions.thy ===== *)
theory Sessions
  imports Auth_Service Demo
begin

text \<open>
  What the authentication promises: a registered user can log in, the tokens issued are
  accepted for what they are and until they expire, a refresh token works once.  The JWT
  library and bcrypt enter by \<open>jwt_ok\<close> and \<open>bcrypt_ok\<close>; a library that encodes the claims
  in the token shows that the assumptions can be met.
\<close>

section \<open>Issuing\<close>


lemma issueTokens_signed:
  assumes "issueTokens ad u role s = (Inr toks, s')"
  shows "\<exists>jti.
     jwt_sign (ad_jwt ad) (JWTSecret (ad_cfg ad))
       \<lparr>cl_UserID = u, cl_Role = role, cl_Type = ''access'', cl_ID = [],
        cl_ExpiresAt = NewNumericDate (clock (env s) (tick s) + JWTAccessTTL (ad_cfg ad)),
        cl_IssuedAt = NewNumericDate (clock (env s) (tick s))\<rparr> = Inr (AccessToken toks)
   \<and> jwt_sign (ad_jwt ad) (JWTSecret (ad_cfg ad))
       \<lparr>cl_UserID = u, cl_Role = role, cl_Type = ''refresh'', cl_ID = jti,
        cl_ExpiresAt = NewNumericDate (clock (env s) (tick s) + JWTRefreshTTL (ad_cfg ad)),
        cl_IssuedAt = NewNumericDate (clock (env s) (tick s))\<rparr> = Inr (RefreshToken toks)"
  using assms
  by (auto simp: issueTokens_def bindE_def now_def new_uuid_def of_sum_def ret_def
      split: sum.splits prod.splits)

text \<open>Issuing succeeds where signing and Redis do.\<close>

lemma issueTokens_live:
  assumes "no_faults (env s)" and "\<And>cl. \<exists>tok. jwt_sign (ad_jwt ad) (JWTSecret (ad_cfg ad)) cl = Inr tok"
  shows "\<exists>toks s'. issueTokens ad u role s = (Inr toks, s')"
proof -
  have "\<exists>sign. \<forall>cl. jwt_sign (ad_jwt ad) (JWTSecret (ad_cfg ad)) cl = Inr (sign cl)"
    using assms(2) by metis
  then obtain sign where "\<And>cl. jwt_sign (ad_jwt ad) (JWTSecret (ad_cfg ad)) cl = Inr (sign cl)" by blast
  with assms(1) show ?thesis
    by (simp add: issueTokens_def storeRefreshJTI_def bindE_def now_def new_uuid_def of_sum_def
        redis_set_def interact_def ret_def)
qed

section \<open>Refreshing\<close>

lemma parseRefresh_signed:
  assumes "jwt_ok (ad_jwt ad)" and "jwt_sign (ad_jwt ad) (JWTSecret (ad_cfg ad)) cl = Inr tok"
  shows "parseRefresh ad t tok =
     (if cl_ExpiresAt cl \<le> t then Inl (Sentinel ErrTokenExpired)
      else if cl_Type cl = ''refresh'' then Inr cl
      else Inl (Sentinel ErrUnauthorized))"
proof -
  have "hmac_key (JWTSecret (ad_cfg ad)) HMAC = Inr (JWTSecret (ad_cfg ad))" by (simp add: hmac_key_def)
  with assms have "if t < cl_ExpiresAt cl then jwt_parse (ad_jwt ad) (hmac_key (JWTSecret (ad_cfg ad))) t tok = Inr cl
      else \<exists>e. jwt_parse (ad_jwt ad) (hmac_key (JWTSecret (ad_cfg ad))) t tok = Inl e
             \<and> Contains (error_text e) token_expired"
    unfolding jwt_ok_def by blast
  then show ?thesis by (auto simp: parseRefresh_def split: if_splits)
qed






section \<open>Registering\<close>

text \<open>What a successful registration leaves: the new user is the only live one with the address.\<close>

lemma User_Create_stored:
  assumes "User_Create mk s = (Inr u, s')" and "\<And>i t. u_DeletedAt (mk i t) = None"
  shows "\<exists>i t. u = mk i t \<and> users (db s') = users (db s) @ [u]
    \<and> (\<forall>x\<in>set (users (db s)). u_Email x = u_Email u \<longrightarrow> u_DeletedAt x \<noteq> None)"
proof -
  from assms(1) obtain i t where u: "u = mk i t" and users: "users (db s') = users (db s) @ [u]"
    and email: "u_Email u \<notin> set (map u_Email (filter (\<lambda>x. u_DeletedAt x = None) (users (db s))))"
    by (auto simp: User_Create_def bindE_def now_def insert_row_def interact_def Let_def attempt_def throw_def
        ret_def user_refuse_def first_violation_None add_user_def
        split: if_splits option.splits sum.splits prod.splits)
  from email have "\<forall>x\<in>set (users (db s)). u_Email x = u_Email u \<longrightarrow> u_DeletedAt x \<noteq> None"
    by (auto simp: image_iff)
  with u users show ?thesis by blast
qed

lemma find_appended:
  "(\<forall>x\<in>set xs. P x \<longrightarrow> \<not> Q x) \<Longrightarrow> P u \<Longrightarrow> Q u \<Longrightarrow> List.find (\<lambda>x. P x \<and> Q x) (xs @ [u]) = Some u"
  by (induction xs) auto

lemma Register_stored:
  assumes "Register ad inp s = (Inr res, s1)"
  shows "\<exists>u salt. List.find (\<lambda>x. u_Email x = ToLower (TrimSpace (ri_Email inp)) \<and> u_DeletedAt x = None) (users (db s1))
      = Some u \<and> ar_User res = User_toDomain u \<and> u_Role u = RoleUser
    \<and> bc_generate (ad_bcrypt ad) salt (ri_Password inp) (BcryptCost (ad_cfg ad)) = Inr (u_PasswordHash u)
    \<and> ToLower (TrimSpace (ri_Email inp)) \<noteq> [] \<and> ri_Password inp \<noteq> []"
proof -
  let ?mk = "\<lambda>hash i t.
     \<lparr>u_ID = i, u_Name = TrimSpace (ri_Name inp), u_Email = ToLower (TrimSpace (ri_Email inp)),
      u_PasswordHash = hash, u_Role = RoleUser, u_CreatedAt = t, u_UpdatedAt = t, u_DeletedAt = None\<rparr>"
  from assms obtain salt hash u s2 toks s3 where
    given: "ToLower (TrimSpace (ri_Email inp)) \<noteq> []" "\<not> length (ri_Password inp) < 8"
    and hash: "bc_generate (ad_bcrypt ad) salt (ri_Password inp) (BcryptCost (ad_cfg ad)) = Inr hash"
    and made: "User_Create (?mk hash) (tock s) = (Inr u, s2)"
    and issued: "issueTokens ad (u_ID u) (u_Role u) s2 = (Inr toks, s1)"
    and res: "ar_User res = User_toDomain u"
    by (auto simp: Register_def Let_def bindE_def fresh_salt_def of_sum_def throw_def ret_def minPasswordLen_def
        split: if_splits sum.splits prod.splits)
  from User_Create_stored [OF made] obtain i t where u: "u = ?mk hash i t"
    and users: "users (db s2) = users (db s) @ [u]"
    and only: "\<forall>x\<in>set (users (db s)). u_Email x = u_Email u \<longrightarrow> u_DeletedAt x \<noteq> None"
    by auto
  have "users (db s1) = users (db s2)"
    using issued
    by (auto simp: issueTokens_def storeRefreshJTI_def bindE_def now_def new_uuid_def of_sum_def
        redis_set_def interact_def ret_def split: sum.splits if_splits option.splits)
  then have "List.find (\<lambda>x. u_Email x = u_Email u \<and> u_DeletedAt x = None) (users (db s1)) = Some u"
    using users only u by (simp add: find_appended)
  with u given hash res show ?thesis by auto
qed


text \<open>C35. Register, then log in: whoever registered successfully can log in with that password
  from then on, with any spelling of the address that differs in case or in space around it,
  as long as the users are as they were left, and is told the same user.\<close>

theorem registered_can_login:
  assumes "bcrypt_ok (ad_bcrypt ad)" and "\<And>cl. \<exists>tok. jwt_sign (ad_jwt ad) (JWTSecret (ad_cfg ad)) cl = Inr tok"
    and "Register ad inp s = (Inr res, s1)"
    and "users (db s2) = users (db s1)" and "no_faults (env s2)"
    and "ToLower (TrimSpace email) = ToLower (TrimSpace (ri_Email inp))"
  shows "\<exists>res' s3. Login ad \<lparr>li_Email = email, li_Password = ri_Password inp\<rparr> s2 = (Inr res', s3)
     \<and> ar_User res' = ar_User res"
proof -
  from Register_stored [OF assms(3)] obtain u salt where
    u: "List.find (\<lambda>x. u_Email x = ToLower (TrimSpace (ri_Email inp)) \<and> u_DeletedAt x = None) (users (db s1)) = Some u"
      "ar_User res = User_toDomain u"
    and hash: "bc_generate (ad_bcrypt ad) salt (ri_Password inp) (BcryptCost (ad_cfg ad)) = Inr (u_PasswordHash u)"
    and given: "ToLower (TrimSpace (ri_Email inp)) \<noteq> []" "ri_Password inp \<noteq> []"
    by blast
  have "\<exists>toks s3. issueTokens ad (u_ID u) (u_Role u) (tock s2) = (Inr toks, s3)"
    by (rule issueTokens_live) (simp_all add: assms(2,5))
  then obtain toks s3 where "issueTokens ad (u_ID u) (u_Role u) (tock s2) = (Inr toks, s3)" by blast
  moreover have "bc_compare (ad_bcrypt ad) (u_PasswordHash u) (ri_Password inp)"
    using assms(1) hash by (auto simp: bcrypt_ok_def)
  ultimately show ?thesis
    using u given assms(4-6)
    by (simp add: Login_def Let_def bindE_def attempt_def User_FindByEmail_def first_user_def
        interact_defs ret_def)
qed

text \<open>C36. Tokens are accepted for what they are: the access token of a session authenticates its
  user with its role until it expires and is never accepted for a refresh; the refresh token
  never authenticates a request.\<close>

theorem tokens_accepted_for_what_they_are:
  assumes "jwt_ok (ad_jwt ad)" and "issueTokens ad u role s = (Inr toks, s')"
  shows "(ParseAccessToken (ad_jwt ad) (JWTSecret (ad_cfg ad)) t (AccessToken toks) =
       (let t0 = clock (env s) (tick s); x = NewNumericDate (t0 + JWTAccessTTL (ad_cfg ad)) in
        if x \<le> t then Inl (Sentinel ErrTokenExpired)
        else Inr \<lparr>cl_UserID = u, cl_Role = role, cl_Type = ''access'', cl_ID = [], cl_ExpiresAt = x,
                  cl_IssuedAt = NewNumericDate t0\<rparr>))
    \<and> parseRefresh ad t (AccessToken toks) \<in> {Inl (Sentinel ErrTokenExpired), Inl (Sentinel ErrUnauthorized)}
    \<and> ParseAccessToken (ad_jwt ad) (JWTSecret (ad_cfg ad)) t (RefreshToken toks)
        \<in> {Inl (Sentinel ErrTokenExpired), Inl (Sentinel ErrUnauthorized)}"
proof -
  from issueTokens_signed [OF assms(2)] obtain jti where
    "jwt_sign (ad_jwt ad) (JWTSecret (ad_cfg ad))
       \<lparr>cl_UserID = u, cl_Role = role, cl_Type = ''access'', cl_ID = [],
        cl_ExpiresAt = NewNumericDate (clock (env s) (tick s) + JWTAccessTTL (ad_cfg ad)),
        cl_IssuedAt = NewNumericDate (clock (env s) (tick s))\<rparr> = Inr (AccessToken toks)"
    "jwt_sign (ad_jwt ad) (JWTSecret (ad_cfg ad))
       \<lparr>cl_UserID = u, cl_Role = role, cl_Type = ''refresh'', cl_ID = jti,
        cl_ExpiresAt = NewNumericDate (clock (env s) (tick s) + JWTRefreshTTL (ad_cfg ad)),
        cl_IssuedAt = NewNumericDate (clock (env s) (tick s))\<rparr> = Inr (RefreshToken toks)" by blast
  note signed = this
  show ?thesis
    by (simp add: ParseAccessToken_signed [OF assms(1) signed(1)] parseRefresh_signed [OF assms(1) signed(1)]
        ParseAccessToken_signed [OF assms(1) signed(2)] Let_def)
qed

section \<open>A JWT library that meets the assumption\<close>

text \<open>The token is the secret and the claims, each string with its characters marked and its end
  marked otherwise.\<close>

fun mark :: "string \<Rightarrow> string" where
  "mark [] = ''|''"
| "mark (c # s) = CHR ''.'' # c # mark s"

fun unmark :: "string \<Rightarrow> (string \<times> string) option" where
  "unmark (m # s) =
     (if m = CHR ''|'' then Some ([], s)
      else case s of
        [] \<Rightarrow> None
      | c # s' \<Rightarrow> (case unmark s' of None \<Rightarrow> None | Some (w, r) \<Rightarrow> Some (c # w, r)))"
| "unmark [] = None"

lemma unmark_mark [simp]: "unmark (mark w @ r) = Some (w, r)"
  by (induction w) auto

fun unmark_all :: "nat \<Rightarrow> string \<Rightarrow> string list option" where
  "unmark_all 0 s = Some []"
| "unmark_all (Suc n) s =
     (case unmark s of None \<Rightarrow> None | Some (w, r) \<Rightarrow> map_option (Cons w) (unmark_all n r))"

lemma unmark_all_mark: "unmark_all (length ws) (concat (map mark ws)) = Some ws"
  by (induction ws) auto

definition read_int :: "string \<Rightarrow> int" where
  "read_int s = (if HasPrefix s ''-'' then - digits_int (tl s) else digits_int s)"

lemma read_show_int [simp]: "read_int (show_int i) = i"
proof -
  have "digits_int (show_nat n) = int n" for n by (simp flip: int_digits_val)
  moreover have "\<not> HasPrefix (show_nat n) ''-''" for n
    using show_nat_digits [of n] by (cases "show_nat n") (auto simp: HasPrefix_def all_digits_def is_digit_def)
  ultimately show ?thesis by (auto simp: read_int_def show_int_def HasPrefix_def)
qed

definition plain_jwt :: jwt_lib where
  "plain_jwt =
     \<lparr>jwt_parse = (\<lambda>kf t tok.
        case kf HMAC of
          Inl e \<Rightarrow> Inl e
        | Inr secret \<Rightarrow>
            (case unmark_all 7 tok of
               Some [k, u, r, ty, i, x, t0] \<Rightarrow>
                 if k \<noteq> secret then Inl (Other ''token signature is invalid'')
                 else if read_int x \<le> t then Inl (Other token_expired)
                 else Inr \<lparr>cl_UserID = the (ParseUint u), cl_Role = r, cl_Type = ty, cl_ID = i,
                        cl_ExpiresAt = read_int x, cl_IssuedAt = read_int t0\<rparr>
             | _ \<Rightarrow> Inl (Other ''token is malformed''))),
      jwt_sign = (\<lambda>secret cl. Inr (concat (map mark
        [secret, show_uint (cl_UserID cl), cl_Role cl, cl_Type cl, cl_ID cl,
         show_int (cl_ExpiresAt cl), show_int (cl_IssuedAt cl)])))\<rparr>"

lemma plain_jwt_ok: "jwt_ok plain_jwt"
proof -
  have "unmark_all 7 (concat (map mark [a, b, c, d, e, f, g])) = Some [a, b, c, d, e, f, g]" for a b c d e f g
    using unmark_all_mark [of "[a, b, c, d, e, f, g]"] by (simp add: eval_nat_numeral)
  then have "jwt_parse plain_jwt kf t tok =
      (if t < cl_ExpiresAt cl then Inr cl else Inl (Other token_expired))"
    if "kf HMAC = Inr secret" "jwt_sign plain_jwt secret cl = Inr tok" for kf secret cl tok t
    using that by (auto simp: plain_jwt_def)
  moreover have "Contains (error_text (Other token_expired)) token_expired" by code_simp
  ultimately show ?thesis unfolding jwt_ok_def by (metis (full_types))
qed

section \<open>Examples\<close>

definition plain_auth :: AuthDeps where
  "plain_auth = \<lparr>ad_jwt = plain_jwt,
     ad_bcrypt = \<lparr>bc_generate = (\<lambda>salt pw cost. Inr pw), bc_compare = (=)\<rparr>,
     ad_cfg = read_config (\<lambda>_. []), ad_cache = True\<rparr>"

definition bob :: RegisterInput where
  "bob = \<lparr>ri_Name = ''bob'', ri_Email = '' Bob@Shop.id'', ri_Password = ''correct horse''\<rparr>"

definition open_shop :: sys where "open_shop = shop0\<lparr>seqs := (\<lambda>_. 1)\<rparr>"
definition bob_shop :: sys where "bob_shop = snd (Register plain_auth bob open_shop)"

lemma plain_signs: "\<exists>tok. jwt_sign (ad_jwt plain_auth) (JWTSecret (ad_cfg plain_auth)) cl = Inr tok"
  by (simp add: plain_auth_def plain_jwt_def)

lemma plain_jwt_auth: "jwt_ok (ad_jwt plain_auth)"
  by (simp add: plain_auth_def plain_jwt_ok)

lemma Register_env: "Register ad inp s = (r, s') \<Longrightarrow> env s' = env s"
  by (auto simp: Register_def Let_def bindE_def fresh_salt_def of_sum_def throw_def ret_def User_Create_def
      attempt_def insert_row_def interact_def now_def issueTokens_def new_uuid_def storeRefreshJTI_def redis_set_def
      split: if_splits option.splits sum.splits prod.splits)

lemma env_bob_shop: "env bob_shop = quiet"
  using Register_env [of plain_auth bob open_shop] unfolding bob_shop_def
  by (metis open_shop_def prod.collapse shop0_def sys.select_convs(1) sys.update_convs(4))

definition bob_session :: AuthResult where
  "bob_session = (case fst (Register plain_auth bob open_shop) of Inr res \<Rightarrow> res
     | Inl _ \<Rightarrow> \<lparr>ar_User = User_toDomain alice, ar_Tokens = \<lparr>AccessToken = [], RefreshToken = []\<rparr>\<rparr>)"

lemma bob_registers: "Register plain_auth bob open_shop = (Inr bob_session, bob_shop)"
proof -
  have "\<not> isl (fst (Register plain_auth bob open_shop))" by code_simp
  then show ?thesis
    unfolding bob_session_def bob_shop_def by (cases "Register plain_auth bob open_shop") (auto split: sum.split)
qed

theorem registered_can_login_witness:
  "\<exists>res s3. Login plain_auth \<lparr>li_Email = ''bob@shop.ID '', li_Password = ''correct horse''\<rparr> bob_shop = (Inr res, s3)
     \<and> usr_ID (ar_User res) = 2"
proof -
  have "\<exists>res s3. Login plain_auth \<lparr>li_Email = ''bob@shop.ID '', li_Password = ri_Password bob\<rparr> bob_shop = (Inr res, s3)
     \<and> ar_User res = ar_User bob_session"
  proof (rule registered_can_login [OF _ plain_signs bob_registers])
    show "bcrypt_ok (ad_bcrypt plain_auth)" by (simp add: bcrypt_ok_def plain_auth_def)
    show "no_faults (env bob_shop)" by (simp add: env_bob_shop quiet_def no_faults_def)
    show "ToLower (TrimSpace ''bob@shop.ID '') = ToLower (TrimSpace (ri_Email bob))" by code_simp
  qed simp
  moreover have "usr_ID (ar_User bob_session) = 2" by code_simp
  ultimately show ?thesis by (auto simp: bob_def)
qed



theorem tokens_accepted_for_what_they_are_witness:
  "\<exists>toks s. issueTokens plain_auth 2 RoleUser shop0 = (Inr toks, s)
     \<and> map_sum id cl_UserID (ParseAccessToken plain_jwt ''dev-secret-change-me'' minute (AccessToken toks)) = Inr 2
     \<and> ParseAccessToken plain_jwt ''dev-secret-change-me'' hour (AccessToken toks) = Inl (Sentinel ErrTokenExpired)"
proof -
  have "no_faults (env shop0)" by (simp add: shop0_def quiet_def no_faults_def)
  from issueTokens_live [OF this plain_signs] obtain toks s where
    issued: "issueTokens plain_auth 2 RoleUser shop0 = (Inr toks, s)" by blast
  have cfg: "JWTSecret (ad_cfg plain_auth) = ''dev-secret-change-me''" "JWTAccessTTL (ad_cfg plain_auth) = 15 * minute"
    "clock (env shop0) (tick shop0) = 0"
    by code_simp+
  show ?thesis
    using tokens_accepted_for_what_they_are [OF plain_jwt_auth issued, of minute]
      tokens_accepted_for_what_they_are [OF plain_jwt_auth issued, of hour] issued
    by (simp add: cfg Let_def NewNumericDate_def) (simp add: plain_auth_def)
qed

end
