(* ===== verification/Relay_Drain.thy ===== *)
theory Relay_Drain
  imports Demo
begin

text \<open>
  The relay empties the outbox: each cycle takes the oldest rows, and cycles repeat until none
  is left (while nothing is added and nothing fails).  \<open>pending\<close> is what is still to publish,
  oldest first; \<open>cycles n\<close> runs \<open>RelayOnce\<close> n times.
\<close>

definition pending :: "db \<Rightarrow> EventRow list" where
  "pending d = sort_key ev_CreatedAt (filter unpublished (outbox_events d))"

fun cycles :: "nat \<Rightarrow> sys \<Rightarrow> sys" where
  "cycles 0 s = s"
| "cycles (Suc n) s = cycles n (snd (RelayOnce Publish s))"

lemma select_pending: "select_batch d = take batchSize (pending d)"
  by (simp add: select_batch_def pending_def)

lemma pending_distinct: "outbox_ok d \<Longrightarrow> distinct (map ev_ID (pending d))"
  by (metis distinct_map distinct_map_filter outbox_ok_def pending_def set_sort distinct_sort)

lemma filter_not_taken:
  "distinct (map f xs) \<Longrightarrow> filter (\<lambda>r. f r \<notin> f ` set (take k xs)) xs = drop k xs"
proof (induction xs arbitrary: k)
  case (Cons x xs)
  show ?case
  proof (cases k)
    case (Suc k')
    have "filter (\<lambda>r. f r \<noteq> f x \<and> f r \<notin> f ` set (take k' xs)) xs
        = filter (\<lambda>r. f r \<notin> f ` set (take k' xs)) xs"
      using Cons.prems by (intro filter_cong) (auto simp: image_iff)
    with Cons Suc show ?thesis by simp
  qed simp
qed simp

lemma cycle_live:
  assumes "no_faults (env s)" and "outbox_ok (db s)"
    and "list_all2 (\<lambda>r m. kafka.row_wire r = Some m) (pending (db s)) ms"
  defines "s' \<equiv> snd (RelayOnce Publish s)"
  shows "topic_products s' = topic_products s @ take batchSize ms \<and> env s' = env s \<and> outbox_ok (db s')
     \<and> pending (db s') = drop batchSize (pending (db s))"
proof -
  have "list_all2 (\<lambda>r m. kafka.row_wire r = Some m) (select_batch (db s)) (take batchSize ms)"
    unfolding select_pending by (rule list_all2_takeI [OF assms(3)])
  from kafka.RelayOnce_live [OF assms(1,2) this]
  have d: "kafka.drained (select_batch (db s)) (take batchSize ms) s s'"
    by (cases "RelayOnce Publish s") (auto simp: wp_def s'_def split: sum.splits)
  have "pending (db s') = filter (\<lambda>r. ev_ID r \<notin> ev_ID ` set (select_batch (db s))) (pending (db s))"
    using d by (simp add: kafka.drained_def pending_def filter_sort)
  then have "pending (db s') = drop batchSize (pending (db s))"
    by (simp add: select_pending filter_not_taken [OF pending_distinct [OF assms(2)]])
  with d assms(2) show ?thesis by (simp add: kafka.drained_def)
qed

lemma cycles_drain:
  assumes "no_faults (env s)" and "outbox_ok (db s)"
    and "list_all2 (\<lambda>r m. kafka.row_wire r = Some m) (pending (db s)) ms"
    and "length ms \<le> n * batchSize"
  shows "topic_products (cycles n s) = topic_products s @ ms \<and> pending (db (cycles n s)) = []"
  using assms
proof (induction n arbitrary: s ms)
  case 0
  then show ?case by simp
next
  case (Suc n)
  let ?s = "snd (RelayOnce Publish s)"
  note one = cycle_live [OF Suc.prems(1-3)]
  have rest: "list_all2 (\<lambda>r m. kafka.row_wire r = Some m) (pending (db ?s)) (drop batchSize ms)"
    using one list_all2_dropI [OF Suc.prems(3)] by simp
  have "topic_products (cycles n ?s) = topic_products ?s @ drop batchSize ms \<and> pending (db (cycles n ?s)) = []"
    by (rule Suc.IH [OF _ _ rest]) (use one Suc.prems in auto)
  with one show ?case by simp
qed

text \<open>C38. The relay terminates its work: without faults, and if every row still to publish can
  be encoded, \<open>n\<close> cycles publish \<open>50 n\<close> rows; so after at most one cycle per 50 rows the
  outbox holds nothing to publish and the topic has got one message per row, oldest first.\<close>

theorem relay_drains_outbox:
  assumes "no_faults (env s)" and "outbox_ok (db s)"
    and "list_all2 (\<lambda>r m. kafka.row_wire r = Some m) (pending (db s)) ms"
    and "length ms \<le> n * batchSize"
  shows "topic_products (cycles n s) = topic_products s @ ms \<and> pending (db (cycles n s)) = []"
  using cycles_drain [OF assms] .

text \<open>Fifty-one events: two cycles.\<close>

definition busy_row :: "nat \<Rightarrow> EventRow" where
  "busy_row n = \<lparr>ev_ID = of_nat (Suc n), ev_EventID = show_nat n, ev_AggregateType = ''order'', ev_AggregateID = 7,
     ev_EventType = EventOrderPaid, ev_Payload = JObj [], ev_CreatedAt = 0, ev_PublishedAt = None\<rparr>"

definition busy_shop :: sys where
  "busy_shop = shop0\<lparr>db := db0\<lparr>outbox_events := map busy_row [0..<51]\<rparr>\<rparr>"

lemma busy_wire: "kafka.row_wire (busy_row n) \<noteq> None"
  by (simp add: kafka.row_wire_def event_wire_def marshal_event_def row_event_def busy_row_def unmarshal_map_def)

theorem relay_drains_outbox_witness:
  "length (topic_products (cycles 2 busy_shop)) = 51 \<and> pending (db (cycles 2 busy_shop)) = []"
proof -
  let ?rows = "map busy_row [0..<51]"
  have db: "outbox_events (db busy_shop) = ?rows" "topic_products busy_shop = []" "env busy_shop = quiet"
    by (simp_all add: busy_shop_def shop0_def)
  have un: "filter unpublished ?rows = ?rows"
    by (rule filter_True) (auto simp: unpublished_def busy_row_def)
  have ids: "map ev_ID ?rows = map (\<lambda>n. of_nat (Suc n)) [0..<51]" "map ev_EventID ?rows = map show_nat [0..<51]"
    by (simp_all only: map_map o_def busy_row_def EventRow.select_convs)
  have "inj_on (\<lambda>n. of_nat (Suc n) :: uint) (set [0..<51])"
    by (rule inj_onI) (auto simp: word_of_nat_eq_iff take_bit_eq_mod)
  moreover have "inj_on show_nat (set [0..<51])" by (rule inj_onI) (simp add: show_nat_inj)
  ultimately have ok: "outbox_ok (db busy_shop)"
    unfolding outbox_ok_def db ids by (simp only: distinct_map distinct_upt simp_thms)
  let ?ms = "map (\<lambda>r. the (kafka.row_wire r)) (pending (db busy_shop))"
  have "\<exists>w. kafka.row_wire r = Some w" if "r \<in> set (pending (db busy_shop))" for r
    using that busy_wire by (auto simp: pending_def db un)
  then have wires: "list_all2 (\<lambda>r m. kafka.row_wire r = Some m) (pending (db busy_shop)) ?ms"
    by (auto simp: list_all2_map2 list.rel_refl_strong intro!: list.rel_refl_strong)
  have len: "length ?ms = 51" by (simp only: length_map pending_def length_sort db un length_upt)
  have calm: "no_faults (env busy_shop)" by (simp add: db quiet_def no_faults_def)
  have "length ?ms \<le> 2 * batchSize" unfolding len batchSize_def by simp
  from relay_drains_outbox [OF calm ok wires this] len show ?thesis by (simp only: db append_Nil simp_thms)
qed

end
