(* ===== verification/Production.thy ===== *)
theory Production
  imports Replies
begin

text \<open>
  What the configuration guarantees in production, and what a probe reports.
\<close>

section \<open>Configuration\<close>





section \<open>Readiness\<close>

lemma run_checks_constant:
  "run_checks (api_checkers (of_sum pg) (of_sum rd) (of_sum mg) (Some (of_sum ts))) s
   = (Inr (map (\<lambda>(name, critical, r). \<lparr>cr_name = name,
          cr_status = (case r of Inl err \<Rightarrow> ''down: '' @ error_text err | Inr _ \<Rightarrow> ''ok''), cr_critical = critical\<rparr>)
        [(''postgres'', True, pg), (''redis'', True, rd), (''mongo'', False, mg), (''typesense'', False, ts)]), s)"
  by (simp add: api_checkers_def run_check_def bindE_def attempt_def of_sum_def ret_def)

text \<open>The probe answers 503 exactly if PostgreSQL or Redis does not answer its
  ping, and 200 otherwise, as \<open>ready\<close> if MongoDB and Typesense answer too and as \<open>degraded\<close> if
  one of them does not; it changes nothing.\<close>

theorem readiness:
  "\<exists>data. Health_ready (api_checkers (of_sum pg) (of_sum rd) (of_sum mg) (Some (of_sum ts))) c s
   = (Inr (if isl pg \<or> isl rd
           then c_JSON 503 \<lparr>env_Success = False, env_Message = ''service unavailable'',
                  env_ErrorCode = ''SERVICE_UNAVAILABLE'', env_Data = data, env_Meta = None, env_Errors = None\<rparr> c
           else OK (if isl mg \<or> isl ts then ''degraded'' else ''ready'') data c), s)"
  by (cases pg; cases rd; cases mg; cases ts)
    (simp_all add: Health_ready_def bindE_def [of "run_checks _"] run_checks_constant ret_def ready_reply_def
      down_def ErrorCode_def OK_def, (rule exI, rule refl)+)

section \<open>Observation\<close>


section \<open>Replies to errors\<close>

text \<open>The status of a domain error, in the handlers that know it.\<close>

fun http_status :: "sentinel \<Rightarrow> int" where
  "http_status ErrInvalid = 400"
| "http_status ErrUnauthorized = 401"
| "http_status ErrTokenExpired = 401"
| "http_status ErrInvalidAPIKey = 401"
| "http_status ErrForbidden = 403"
| "http_status ErrNotFound = 404"
| "http_status ErrConflict = 409"
| "http_status ErrEmailTaken = 409"
| "http_status ErrRateLimited = 429"
| "http_status ErrUnavailable = 503"

definition error_reply :: "sentinel set \<Rightarrow> go_error \<Rightarrow> Ctx \<Rightarrow> Ctx" where
  "error_reply known err =
     (case error_sentinel err of
        Some x \<Rightarrow> if x \<in> known then FailCode (http_status x) (error_text err) (ErrorCode (Sentinel x))
                  else FailCode 500 ''internal error'' (ErrorCode (Sentinel x))
      | None \<Rightarrow> FailCode 500 ''internal error'' ''INTERNAL_ERROR'')"

text \<open>C40. Errors are answered by kind: an error that wraps a domain error known to the handler is
  answered with the status and the code of that error and its text; any other, a failure of
  the database say, with 500 and "internal error": nothing of its text leaves the server.\<close>

theorem errors_answered_by_kind:
  "order_mapErr err = error_reply {ErrInvalid, ErrUnauthorized, ErrTokenExpired, ErrForbidden, ErrNotFound,
      ErrConflict, ErrUnavailable} err
   \<and> product_mapErr err = error_reply {ErrInvalid, ErrUnauthorized, ErrTokenExpired, ErrForbidden, ErrNotFound,
      ErrUnavailable} err
   \<and> auth_mapErr err = error_reply {ErrInvalid, ErrUnauthorized, ErrTokenExpired, ErrEmailTaken, ErrNotFound,
      ErrForbidden} err"
proof (cases "error_sentinel err")
  case None
  then show ?thesis
    by (simp add: error_reply_def order_mapErr_def product_mapErr_def auth_mapErr_def errors_is_sentinel
        ErrorCode_sentinel [of err])
next
  case (Some x)
  then show ?thesis
    by (cases x) (simp_all add: error_reply_def order_mapErr_def product_mapErr_def auth_mapErr_def
        errors_is_sentinel ErrorCode_sentinel [of err] Let_def)
qed

end
