(* ===== verification/Isolation.thy ===== *)
theory Isolation
  imports Requests
begin

text \<open>
  Isolation of users: a request made with the token of one user, who is not an administrator,
  leaves what belongs to the others alone.  \<open>spares u\<close> compares two states of the tables;
  \<open>apart u\<close> is the relation of system states it induces, closed under everything the routes of
  a user do.
\<close>

section \<open>What belongs to others\<close>

definition rows_of :: "uint \<Rightarrow> db \<Rightarrow> OrderItemModel list \<times> ReservationModel list \<times> PaymentModel list" where
  "rows_of oid d =
     (filter (\<lambda>i. oi_OrderID i = oid) (order_items d), filter (\<lambda>r. rv_OrderID r = oid) (reservations d),
      filter (\<lambda>p. pay_OrderID p = oid) (payments d))"

definition spares_products :: "uint \<Rightarrow> ProductModel list \<Rightarrow> ProductModel list \<Rightarrow> bool" where
  "spares_products u ps ps' =
     (map facts (filter (\<lambda>p. p_UserID p \<noteq> u) ps') = map facts (filter (\<lambda>p. p_UserID p \<noteq> u) ps))"

definition spares_keys :: "uint \<Rightarrow> IdempotencyModel list \<Rightarrow> IdempotencyModel list \<Rightarrow> bool" where
  "spares_keys u ks ks' = (distinct (map ik_ID ks)
     \<longrightarrow> distinct (map ik_ID ks') \<and> filter (\<lambda>k. ik_UserID k \<noteq> u) ks' = filter (\<lambda>k. ik_UserID k \<noteq> u) ks)"

definition spares :: "uint \<Rightarrow> db \<Rightarrow> db \<Rightarrow> bool" where
  "spares u d d' =
     (filter (\<lambda>o'. o_UserID o' \<noteq> u) (orders d') = filter (\<lambda>o'. o_UserID o' \<noteq> u) (orders d)
      \<and> (\<forall>o'\<in>set (orders d). o_UserID o' \<noteq> u \<longrightarrow> rows_of (o_ID o') d' = rows_of (o_ID o') d)
      \<and> spares_products u (products d) (products d')
      \<and> filter (\<lambda>w. w_UserID w \<noteq> u) (wishlists d') = filter (\<lambda>w. w_UserID w \<noteq> u) (wishlists d)
      \<and> spares_keys u (idempotency_keys d) (idempotency_keys d')
      \<and> (\<exists>us. users d' = users d @ us))"

lemma spares_keys_refl: "spares_keys u ks ks"
  by (simp add: spares_keys_def)

lemma spares_refl: "spares u d d"
  by (simp add: spares_def spares_products_def spares_keys_refl)

lemma filter_setD: "filter P xs = filter P ys \<Longrightarrow> x \<in> set ys \<Longrightarrow> P x \<Longrightarrow> x \<in> set xs"
proof -
  assume eq: "filter P xs = filter P ys" and "x \<in> set ys" "P x"
  then have "x \<in> set (filter P xs)" unfolding eq by simp
  then show ?thesis by simp
qed

lemma spares_trans:
  assumes "spares u d1 d2" and "spares u d2 d3"
  shows "spares u d1 d3"
  using assms by (auto simp: spares_def spares_products_def spares_keys_def dest: filter_setD)

lemma facts_owner: "facts p = facts q \<Longrightarrow> p_UserID p = p_UserID q"
  by (cases p; cases q) (simp add: facts_def)

lemma spares_shifted: "shifted f ps ps' \<Longrightarrow> spares_products u ps ps'"
  unfolding shifted_def spares_products_def
  by (induction rule: list_all2_induct) (auto dest: facts_owner)

lemma spares_updated:
  assumes "\<And>r. r \<in> set ps \<Longrightarrow> P r \<Longrightarrow> p_UserID r = u \<and> p_UserID (f r) = u"
  shows "spares_products u ps (update_where P f ps)"
  using assms unfolding spares_products_def by (induction ps) auto

section \<open>The relation\<close>

definition apart :: "uint \<Rightarrow> sys \<Rightarrow> sys \<Rightarrow> bool" where
  "apart u s s' = (system_inv s \<longrightarrow> reachable s s' \<and> spares u (db s) (db s'))"

interpretation isolating: step_closed "apart u" for u
proof
  fix s1 s2 s3
  assume "apart u s1 s2" "apart u s2 s3"
  then show "apart u s1 s3"
    unfolding apart_def by (blast intro: reachable_inv reachable_trans spares_trans)
qed (auto simp: apart_def spares_refl intro: reaching.rel_refl reaching.rel_frame)

lemma apartI:
  assumes "shopping.runs m" and "\<And>s r s'. system_inv s \<Longrightarrow> m s = (r, s') \<Longrightarrow> spares u (db s) (db s')"
  shows "isolating.runs u m"
  using shopping.runsD [OF assms(1)] assms(2)
  by (intro isolating.runsI) (auto simp: apart_def shops_def)

lemma spares_users: "spares u d (add_user r d)"
  by (simp add: spares_def spares_products_def spares_keys_refl rows_of_def add_user_def)

interpretation isolating: user_closed "apart u" for u
proof
  fix q mk refuse
  have "preserves (\<lambda>s. spares u d0 (db s)) (insert_row q mk refuse add_user)" for d0
    by (rule preserves_insert) (blast intro: spares_trans spares_users)
  then show "isolating.runs u (insert_row q mk refuse add_user)"
    by (intro apartI trading_shopping trading_inserts) (blast dest: preservesD intro: spares_refl)
qed

section \<open>Orders\<close>

lemma spares_created:
  assumes "created u items o' d d'"
  shows "spares u d d'"
proof -
  from assms obtain ls ps its rs es row where new: "o_UserID o' = u" "o_ID o' \<notin> set (map o_ID (orders d))"
    and ps: "shifted (\<lambda>i. - qty_of i (map ln_pair ls)) (products d) ps"
    and d': "d' = d\<lparr>products := ps, orders := orders d @ [o'], order_items := order_items d @ its,
        reservations := reservations d @ rs, stock_ledger := stock_ledger d @ es,
        outbox_events := outbox_events d @ [row]\<rparr>"
    and its: "list_all2 (item_for (o_ID o')) ls its" and rs: "list_all2 (hold_for (o_ID o')) ls rs"
    by (fastforce simp: created_def pending_order_def inserted_def add_outbox_def)
  have "\<forall>i\<in>set its. oi_OrderID i = o_ID o'" "\<forall>r\<in>set rs. rv_OrderID r = o_ID o'"
    using its rs by (auto simp: list_all2_conv_all_nth item_for_def hold_for_def in_set_conv_nth)
  then have "rows_of (o_ID q) d' = rows_of (o_ID q) d" if "q \<in> set (orders d)" for q
    using that new(2) unfolding d' by (auto simp: rows_of_def filter_empty_conv)
  with new ps show ?thesis
    unfolding spares_def d' by (auto simp: spares_keys_refl intro: spares_shifted)
qed

lemma settles:
  assumes "S = released oid \<or> S = committed oid" and "S d d1"
  obtains f ps st t es where "shifted f (products d) ps"
    and "d1 = d\<lparr>products := ps, reservations := update_where (held_of oid) (restatus st t) (reservations d),
           stock_ledger := stock_ledger d @ es\<rparr>"
  using assms(1)
proof
  assume "S = released oid"
  with assms(2) that show thesis by (auto simp: released_def)
next
  assume "S = committed oid"
  with assms(2) obtain es t where d1: "d1 = d\<lparr>reservations := update_where (held_of oid)
      (restatus ReservationCommitted t) (reservations d), stock_ledger := stock_ledger d @ es\<rparr>"
    by (auto simp: committed_def)
  have still: "shifted (\<lambda>_. 0) (products d) (products d)" by (simp add: shifted_def list_all2_same)
  show thesis by (rule that [OF still, where st = ReservationCommitted and t = t and es = es]) (use d1 in simp)
qed

lemma spares_transitioned:
  assumes "transitioned S oid st ev pays d d'" and S: "S = released oid \<or> S = committed oid"
    and ok: "keys_ok d" and order: "order \<in> set (orders d)" "o_ID order = oid" "o_UserID order = u"
  shows "spares u d d'"
proof -
  from assms(1) obtain t row d1 where d1: "S d d1" and pays: "\<forall>p\<in>set pays. pay_OrderID p = oid"
    and d2: "d' = d1\<lparr>orders := update_where (\<lambda>r. o_ID r = oid) (advance st t) (orders d),
        payments := payments d @ pays, outbox_events := outbox_events d @ [row]\<rparr>"
    by (auto simp: transitioned_def)
  from settles [OF S d1] obtain ps st' t' es f where ps: "shifted f (products d) ps"
    and "d1 = d\<lparr>products := ps, reservations := update_where (held_of oid) (restatus st' t') (reservations d),
           stock_ledger := stock_ledger d @ es\<rparr>" .
  note d' = d2 [unfolded this]
  have owner: "o_UserID q = u" if "q \<in> set (orders d)" "o_ID q = oid" for q
    using that order ok key_unique [of o_ID "orders d" q order] by (auto simp: keys_ok_def)
  have res: "filter (\<lambda>r. rv_OrderID r = i) (update_where (held_of oid) (restatus st' t') xs)
      = filter (\<lambda>r. rv_OrderID r = i) xs" if "i \<noteq> oid" for i st' t' xs
    using that by (induction xs) (auto simp: held_of_def)
  have others: "filter (\<lambda>q. o_UserID q \<noteq> u) (update_where (\<lambda>r. o_ID r = oid) (advance st t) xs)
      = filter (\<lambda>q. o_UserID q \<noteq> u) xs" if "set xs \<subseteq> set (orders d)" for xs
    using that owner by (induction xs) (auto simp: advance_def)
  have "rows_of (o_ID q) d' = rows_of (o_ID q) d" if "q \<in> set (orders d)" "o_UserID q \<noteq> u" for q
  proof -
    have "o_ID q \<noteq> oid" using owner that by blast
    with pays show ?thesis unfolding d' by (auto simp: rows_of_def filter_empty_conv res)
  qed
  with ps others [of "orders d"] show ?thesis
    unfolding spares_def d' by (auto simp: spares_keys_refl intro: spares_shifted)
qed

lemma apart_transaction:
  assumes "shopping.runs (transaction body)"
    and "\<And>d. keys_ok d \<Longrightarrow> db_wp body (\<lambda>_. spares u d) d"
  shows "isolating.runs u (transaction body)"
proof (rule apartI [OF assms(1)])
  fix s r s'
  assume "system_inv s" and run: "transaction body s = (r, s')"
  then have "keys_ok (db s)" by (simp add: system_inv_def inv_keys)
  from assms(2) [OF this] transaction_atomic [OF run] show "spares u (db s) (db s')"
    by (auto simp: db_wp_def spares_refl)
qed

lemma isolating_orders:
  "isolating.runs u (CreateOrder u its)" "isolating.runs u (Pay u i oc k)" "isolating.runs u (Cancel u i)"
proof -
  have shop: "shopping.runs (CreateOrder u its)" "shopping.runs (Pay u i oc k)" "shopping.runs (Cancel u i)"
    by (intro trading_shopping trading_orders)+
  show "isolating.runs u (CreateOrder u its)"
    using shop(1) unfolding CreateOrder_def
    by (rule apart_transaction) (auto intro!: CreateOrder_rule spares_created)
  show "isolating.runs u (Pay u i oc k)"
    using shop(2) unfolding Pay_def
    by (rule apart_transaction) (auto intro!: Pay_rule spares_refl intro: spares_transitioned)
  show "isolating.runs u (Cancel u i)"
    using shop(3) unfolding Cancel_def cancelLocked_def
    by (rule apart_transaction) (auto intro!: cancelLocked_rule intro: spares_transitioned)
qed

lemma spares_other:
  assumes "orders d' = orders d" "order_items d' = order_items d" "reservations d' = reservations d"
    "payments d' = payments d" "users d' = users d" "spares_products u (products d) (products d')"
    "filter (\<lambda>w. w_UserID w \<noteq> u) (wishlists d') = filter (\<lambda>w. w_UserID w \<noteq> u) (wishlists d)"
    "spares_keys u (idempotency_keys d) (idempotency_keys d')"
  shows "spares u d d'"
  using assms by (simp add: spares_def rows_of_def)

text \<open>A stored response: the row found is the user's, and its number is unique.\<close>

lemma spares_keys_add: "ik_UserID k = u \<Longrightarrow> ik_ID k \<notin> set (map ik_ID ks) \<Longrightarrow> spares_keys u ks (ks @ [k])"
  by (auto simp: spares_keys_def)

lemma spares_keys_update:
  assumes "k \<in> set ks" and "ik_UserID k = u" and "\<And>r. ik_ID (f r) = ik_ID r \<and> ik_UserID (f r) = ik_UserID r"
  shows "spares_keys u ks (update_where (\<lambda>r. ik_ID r = ik_ID k) f ks)"
  unfolding spares_keys_def
proof
  assume dist: "distinct (map ik_ID ks)"
  have "map ik_ID (update_where P f xs) = map ik_ID xs" for P xs
    using assms(3) by (simp add: update_where_map_same)
  moreover have owner: "ik_UserID r = u" if "r \<in> set ks" "ik_ID r = ik_ID k" for r
    using key_unique [of ik_ID ks r k] dist that assms(1,2) by auto
  have "filter (\<lambda>r. ik_UserID r \<noteq> u) (update_where (\<lambda>r. ik_ID r = ik_ID k) f xs) = filter (\<lambda>r. ik_UserID r \<noteq> u) xs"
    if "set xs \<subseteq> set ks" for xs
    using that owner assms(3) by (induction xs) auto
  ultimately show "distinct (map ik_ID (update_where (\<lambda>r. ik_ID r = ik_ID k) f ks))
      \<and> filter (\<lambda>r. ik_UserID r \<noteq> u) (update_where (\<lambda>r. ik_ID r = ik_ID k) f ks) = filter (\<lambda>r. ik_UserID r \<noteq> u) ks"
    using dist by simp
qed

lemma isolating_Save: "isolating.runs u (SaveIdempotencyResponse u k m p h st b)"
  unfolding SaveIdempotencyResponse_def
proof (rule apart_transaction)
  show "shopping.runs (transaction
      (bindE (FindIdempotency u k) (\<lambda>existing.
        case existing of
          Some row \<Rightarrow> if ik_ResponseStatus row \<noteq> None then ret () else update_idempotency (ik_ID row) st b
        | None \<Rightarrow> bindE now (\<lambda>t.
            bindE (insert_row SeqIdempotency
                     (\<lambda>i. \<lparr>ik_ID = i, ik_Key = k, ik_UserID = u, ik_Method = m, ik_Path = p, ik_RequestHash = h,
                           ik_ResponseStatus = Some st, ik_ResponseBody = Some b, ik_CreatedAt = t\<rparr>)
                     idempotency_refuse add_idempotency) (\<lambda>_. ret ())))))"
    using trading_shopping [OF trading_Save [of u k m p h st b]] by (simp add: SaveIdempotencyResponse_def)
next
  fix d
  show "db_wp (bindE (FindIdempotency u k) (\<lambda>existing.
        case existing of
          Some row \<Rightarrow> if ik_ResponseStatus row \<noteq> None then ret () else update_idempotency (ik_ID row) st b
        | None \<Rightarrow> bindE now (\<lambda>t.
            bindE (insert_row SeqIdempotency
                     (\<lambda>i. \<lparr>ik_ID = i, ik_Key = k, ik_UserID = u, ik_Method = m, ik_Path = p, ik_RequestHash = h,
                           ik_ResponseStatus = Some st, ik_ResponseBody = Some b, ik_CreatedAt = t\<rparr>)
                     idempotency_refuse add_idempotency) (\<lambda>_. ret ())))) (\<lambda>_. spares u d) d"
    unfolding FindIdempotency_def update_idempotency_def
    by (intro vcg)
      (auto simp: add_idempotency_def idempotency_refuse_def spares_products_def dest!: find_SomeD
        intro!: spares_refl spares_other spares_keys_update spares_keys_add)
qed

lemma isolating_items: "isolating.runs u m \<Longrightarrow> isolating.runs u (items_or_none m)"
  unfolding items_or_none_def by (intro isolating.runs_intros)

lemmas isolating_rules = isolating.runs_intros isolating_orders isolating.runs_find isolating.runs_reads
  isolating.runs_invalidate isolating_items isolating_Save

lemma isolating_order_service:
  "in_UserID inp = u \<Longrightarrow> isolating.runs u (OrderService_Create od inp)"
  "isolating.runs u (OrderService_Cancel od u i)"
  "py_UserID pin = u \<Longrightarrow> isolating.runs u (OrderService_Pay pin)"
  "isolating.runs u (RememberIdempotent u k m p its st b)"
proof -
  show "isolating.runs u (OrderService_Create od inp)" if "in_UserID inp = u"
    unfolding OrderService_Create_def create_new_def Let_def that by (intro isolating_rules)
  show "isolating.runs u (OrderService_Pay pin)" if "py_UserID pin = u"
    unfolding OrderService_Pay_def Let_def that by (intro isolating_rules)
qed (unfold OrderService_Cancel_def RememberIdempotent_def, (intro isolating_rules)+)

lemma isolating_order_id:
  "(\<And>i. isolating.runs u (operation i)) \<Longrightarrow> isolating.runs u (with_order_id c operation reply)"
  unfolding with_order_id_def by (intro isolating_rules)

lemma isolating_result:
  "(\<And>o'. isolating.runs u (f o')) \<Longrightarrow> (\<And>st b. isolating.runs u (g st b))
   \<Longrightarrow> isolating.runs u (case x of NewOrder o' \<Rightarrow> f o' | Replay st b \<Rightarrow> g st b)"
  by (simp split: CreateResult.split)

lemma isolating_order_handlers:
  assumes "cx_userID c = Some u"
  shows "isolating.runs u (Order_create od c)" "isolating.runs u (Order_list c)"
    "isolating.runs u (Order_getByID c)" "isolating.runs u (Order_cancel od c)" "isolating.runs u (Order_pay c)"
  unfolding Order_create_def Order_list_def Order_getByID_def Order_cancel_def Order_pay_def Let_def
    assms option.case
  by (intro isolating_rules isolating_order_id isolating_order_service isolating_result; simp)+

section \<open>Wishlists\<close>

lemma isolating_Wish_Create: "(\<And>i t. w_UserID (mk i t) = u) \<Longrightarrow> isolating.runs u (Wish_Create mk)"
proof -
  assume mk: "\<And>i t. w_UserID (mk i t) = u"
  have "spares u d (add_wish (mk i t) d)" for d i t
    by (rule spares_other) (simp_all add: add_wish_def spares_products_def spares_keys_refl mk)
  then have "spares u (db s) (db s')"
    if "insert_row SeqWishlists (\<lambda>i. mk i t) wish_refuse add_wish s = (r, s')" for t s r s'
    using that by (auto simp: insert_row_def interact_def Let_def spares_refl split: option.splits if_splits)
  then have "isolating.runs u (insert_row SeqWishlists (\<lambda>i. mk i t) wish_refuse add_wish)" for t
    by (intro apartI trading_shopping trading_inserts)
  then show ?thesis unfolding Wish_Create_def by (intro isolating_rules)
qed

lemma isolating_Wish_Delete: "isolating.runs u (Wish_Delete u i)"
proof (rule apartI)
  show "shopping.runs (Wish_Delete u i)" by (intro trading_shopping trading_wish)
  fix s r s'
  have "filter (\<lambda>w. w_UserID w \<noteq> u) (filter (\<lambda>w. w_ID w = i \<longrightarrow> w_UserID w \<noteq> u) ws)
      = filter (\<lambda>w. w_UserID w \<noteq> u) ws" for ws
    by (induction ws) auto
  then have "spares u d (d\<lparr>wishlists := filter (\<lambda>w. w_ID w = i \<longrightarrow> w_UserID w \<noteq> u) (wishlists d)\<rparr>)" for d
    by (intro spares_other) (simp_all add: spares_products_def spares_keys_refl del: filter_filter)
  moreover assume "Wish_Delete u i s = (r, s')"
  ultimately show "spares u (db s) (db s')"
    by (auto simp: Wish_Delete_def bindE_def interact_defs Let_def throw_def ret_def spares_refl
        split: option.splits if_splits)
qed

lemma isolating_wishlist:
  assumes "cx_userID c = Some u"
  shows "isolating.runs u (Wishlist_add deps c)" "isolating.runs u (Wishlist_list c)"
    "isolating.runs u (Wishlist_count deps c)" "isolating.runs u (Wishlist_remove deps c)"
proof -
  have items: "isolating.runs u (wish_items rows)" for rows
    by (induction rows) (auto intro!: isolating_rules)
  have service: "isolating.runs u (Wishlist_Add deps u p n)" "isolating.runs u (Wishlist_List u)"
    "isolating.runs u (Wishlist_Remove deps u i)" "isolating.runs u (Wishlist_Count deps u)" for p n i
    unfolding Wishlist_Add_def Wishlist_List_def Wishlist_Remove_def Wishlist_Count_def
      invalidateCountCache_def cached_count_def Wish_ListByUser_def CountByUser_def
    by (intro isolating_rules isolating_Wish_Create isolating_Wish_Delete items; simp split: cval.split)+
  have reply: "isolating.runs u operation \<Longrightarrow> isolating.runs u (wishlist_reply operation reply c)" for operation reply
    unfolding wishlist_reply_def by (intro isolating_rules)
  show "isolating.runs u (Wishlist_add deps c)" "isolating.runs u (Wishlist_list c)"
    "isolating.runs u (Wishlist_count deps c)" "isolating.runs u (Wishlist_remove deps c)"
    unfolding Wishlist_add_def Wishlist_list_def Wishlist_count_def Wishlist_remove_def assms option.case
    by (intro isolating_rules reply service)+
qed

section \<open>Products\<close>

lemma isolating_keep: "isolating.runs u m \<Longrightarrow> m s = (r, s') \<Longrightarrow> system_inv s \<Longrightarrow> spares u (db s) (db s')"
  by (auto simp: apart_def dest: isolating.runsD)

lemma spares_product_rows:
  "spares_products u (products d) ps \<Longrightarrow> spares u d (d\<lparr>products := ps\<rparr>)"
  by (rule spares_other) (simp_all add: spares_keys_refl)

lemma isolating_Product_Create:
  assumes "\<And>i t. p_UserID (mk i t) = u" and "\<And>i t. 0 \<le> p_Stock (mk i t)"
  shows "isolating.runs u (Product_Create mk)"
proof -
  have "spares u d (add_product (mk i t) d)" for d i t
    unfolding add_product_def by (rule spares_product_rows) (simp add: spares_products_def assms(1))
  then have "spares u (db s) (db s')"
    if "insert_row SeqProducts (\<lambda>i. mk i t) product_refuse add_product s = (r, s')" for t s r s'
    using that by (auto simp: insert_row_def interact_def Let_def spares_refl split: option.splits if_splits)
  then have "isolating.runs u (insert_row SeqProducts (\<lambda>i. mk i t) product_refuse add_product)" for t
    by (intro apartI shopping_insert_product assms)
  then show ?thesis unfolding Product_Create_def by (intro isolating_rules)
qed

text \<open>Updates and deletions of a row that the user owns: the load found it so.\<close>

definition owns :: "uint \<Rightarrow> uint \<Rightarrow> db \<Rightarrow> bool" where
  "owns u i d = (\<forall>p\<in>set (products d). p_ID p = i \<longrightarrow> p_UserID p = u)"

lemma apart_Product_Update:
  assumes "owns u (p_ID m) (db s)" and "p_UserID m = u" and "0 \<le> p_Stock m"
    and "p_ID m \<in> set (map p_ID (products (db s)))"
  shows "apart u s (snd (Product_Update m s))"
proof -
  have "spares_products u (products (db s)) (save_rows (m\<lparr>p_UpdatedAt := t\<rparr>) (products (db s)))" for t
    using assms(1,2,4) unfolding save_rows_def owns_def by (auto intro!: spares_updated)
  then have "spares u (db s) (db (snd (Product_Update m s)))"
    by (auto simp: Product_Update_def Let_def bindE_def now_def interact_defs ret_def spares_refl
        intro: spares_product_rows split: option.split)
  moreover have "shopping.runs (Product_Update m)" using assms(3) by (rule shopping_repository)
  ultimately show ?thesis by (auto simp: apart_def shops_def shopping.runs_def)
qed

lemma apart_Product_Delete:
  assumes "owns u i (db s)"
  shows "apart u s (snd (Product_Delete i s))"
proof -
  have "spares_products u (products (db s)) (update_where (\<lambda>r. p_ID r = i \<and> live_product r)
      (\<lambda>r. r\<lparr>p_DeletedAt := Some t\<rparr>) (products (db s)))" for t
    using assms unfolding owns_def by (auto intro!: spares_updated)
  then have "spares u (db s) (db (snd (Product_Delete i s)))"
    by (auto simp: Product_Delete_def Let_def bindE_def now_def interact_defs ret_def throw_def spares_refl
        intro: spares_product_rows split: option.split)
  moreover have "shopping.runs (Product_Delete i)" by (rule shopping_repository)
  ultimately show ?thesis by (auto simp: apart_def shops_def shopping.runs_def)
qed

lemma apart_then:
  assumes "reading.runs m" and "\<And>a s1. m s = (Inr a, s1) \<Longrightarrow> db s1 = db s \<Longrightarrow> apart u s1 (snd (f a s1))"
  shows "apart u s (snd (bindE m f s))"
proof -
  obtain x s1 where x: "m s = (x, s1)" by fastforce
  with assms(1) have s1: "db s1 = db s" "outside s1 = outside s" by (auto dest: reading.runsD)
  then have "apart u s s1" by (rule isolating.rel_frame)
  with x s1 assms(2) show ?thesis
    by (cases x) (auto simp: bindE_def intro: isolating.rel_trans)
qed

lemma apart_rest:
  assumes "apart u s (snd (m s))" and "\<And>a. isolating.runs u (f a)"
  shows "apart u s (snd (bindE m f s))"
proof -
  obtain x s1 where x: "m s = (x, s1)" by fastforce
  with assms show ?thesis
    by (cases x) (auto simp: bindE_def isolating.runs_def intro: isolating.rel_trans)
qed

lemma stored_owner:
  assumes "system_inv s" and "Product_FindByID i s = (Inr p, s1)"
  shows "owns (p_UserID p) i (db s) \<and> p_ID p = i \<and> i \<in> set (map p_ID (products (db s))) \<and> 0 \<le> p_Stock p"
proof -
  from Product_FindByID_stored [OF assms(2)] have p: "p \<in> set (products (db s))" "p_ID p = i" by auto
  have "p_UserID q = p_UserID p" if "q \<in> set (products (db s))" "p_ID q = i" for q
    using key_unique [OF inv_catalogue(2) [OF assms(1)] that(1) p(1)] that(2) p(2) by simp
  then have "owns (p_UserID p) i (db s)" by (simp add: owns_def)
  moreover have "i \<in> set (map p_ID (products (db s)))" using p by (simp add: rev_image_eqI)
  ultimately show ?thesis using p(2) inv_catalogue(3) [OF assms(1) p(1)] by simp
qed

lemma loaded_owner:
  assumes "system_inv s" and "load_for_update u i inp s = (Inr m, s1)"
  shows "owns u (p_ID m) (db s) \<and> p_UserID m = u \<and> p_ID m \<in> set (map p_ID (products (db s))) \<and> 0 \<le> p_Stock m"
proof -
  from assms(2) obtain p s0 where load: "Product_FindByID i s = (Inr p, s0)" and "p_UserID p = u"
    and m: "apply_update inp p = Inr m"
    by (auto simp: load_for_update_def bindE_def of_sum_def throw_def split: prod.splits sum.splits if_splits)
  moreover have "p_ID m = p_ID p" "p_UserID m = p_UserID p"
    using m by (auto simp: apply_update_def split: if_splits option.splits)
  ultimately show ?thesis
    using stored_owner [OF assms(1) load] apply_update_stock [OF m] by auto
qed

lemma isolating_product_service:
  "pc_UserID pc = u \<Longrightarrow> isolating.runs u (ProductService_Create deps pc)"
  "isolating.runs u (ProductService_Update deps u i pu)"
  "role \<noteq> RoleAdmin \<Longrightarrow> isolating.runs u (ProductService_Delete deps u role i)"
proof -
  note rules = isolating_rules isolating.runs_cache isolating.runs_async
  show "isolating.runs u (ProductService_Create deps pc)" if "pc_UserID pc = u"
    unfolding ProductService_Create_def Let_def that
    by (intro rules isolating_Product_Create) simp_all
  have free: "apart u s s'" if "\<not> system_inv s" for s s' using that by (simp add: apart_def)
  show "isolating.runs u (ProductService_Update deps u i pu)"
    unfolding isolating.runs_def ProductService_Update_def
  proof
    fix s
    show "apart u s (snd (bindE (load_for_update u i pu) (store_update deps u) s))"
    proof (cases "system_inv s")
      case True
      show ?thesis
      proof (rule apart_then)
        show "reading.runs (load_for_update u i pu)"
          unfolding load_for_update_def by (intro reading.runs_intros reading.runs_find)
        fix m s1
        assume "load_for_update u i pu s = (Inr m, s1)" "db s1 = db s"
        with loaded_owner [OF True] have "apart u s1 (snd (Product_Update m s1))"
          by (intro apart_Product_Update) simp_all
        then show "apart u s1 (snd (store_update deps u m s1))"
          unfolding store_update_def Let_def by (rule apart_rest) (intro rules)
      qed
    qed (rule free)
  qed
  show "isolating.runs u (ProductService_Delete deps u role i)" if "role \<noteq> RoleAdmin"
    unfolding isolating.runs_def ProductService_Delete_def
  proof
    fix s
    let ?rest = "\<lambda>model. if p_UserID model \<noteq> u \<and> role \<noteq> RoleAdmin then throw (Sentinel ErrForbidden)
      else bindE (Product_Delete i) (\<lambda>_.
           bindE (ignore (deleteCache deps i)) (\<lambda>_.
           bindE (ignore (invalidateListCache deps u)) (\<lambda>_.
           bindE (publishAsync deps EventProductDeleted (Product_toDomain model)) (\<lambda>_.
           deleteIndexAsync deps i))))"
    show "apart u s (snd (bindE (Product_FindByID i) ?rest s))"
    proof (cases "system_inv s")
      case True
      show ?thesis
      proof (rule apart_then [OF reading.runs_find(6)])
        fix p s1
        assume load: "Product_FindByID i s = (Inr p, s1)" "db s1 = db s"
        show "apart u s1 (snd (?rest p s1))"
        proof (cases "p_UserID p = u")
          case mine: True
          with stored_owner [OF True load(1)] load(2) have del: "apart u s1 (snd (Product_Delete i s1))"
            by (intro apart_Product_Delete) simp
          show ?thesis by (simp add: mine) (rule apart_rest, rule del, intro rules)
        qed (simp add: that throw_def isolating.rel_refl)
      qed
    qed (rule free)
  qed
qed

lemma isolating_product_handlers:
  assumes "cx_userID c = Some u" and "cx_userRole c \<noteq> Some RoleAdmin"
  shows "isolating.runs u (Product_create deps c)" "isolating.runs u (Product_list deps c)"
    "isolating.runs u (Product_catalog c)" "isolating.runs u (Product_getByID deps c)"
    "isolating.runs u (Product_update deps c)" "isolating.runs u (Product_delete deps c)"
    "(\<And>q n. harmless (engine_Search engine q n)) \<Longrightarrow> isolating.runs u (Product_search deps engine c)"
proof -
  have reply: "isolating.runs u operation \<Longrightarrow> isolating.runs u (product_reply operation reply c)" for operation reply
    unfolding product_reply_def by (intro isolating_rules)
  note rules = isolating_rules reply isolating_product_service
  show "isolating.runs u (Product_create deps c)" "isolating.runs u (Product_list deps c)"
    "isolating.runs u (Product_catalog c)" "isolating.runs u (Product_getByID deps c)"
    "isolating.runs u (Product_update deps c)"
    unfolding Product_create_def Product_list_def Product_catalog_def Product_getByID_def
      Product_update_def Let_def assms(1) option.case
    by (intro rules; simp)+
  show "isolating.runs u (Product_delete deps c)"
    unfolding Product_delete_def Let_def assms(1) option.case
    by (intro rules) (use assms(2) in \<open>auto simp: RoleAdmin_def split: option.splits\<close>)
  show "isolating.runs u (Product_search deps engine c)" if "\<And>q n. harmless (engine_Search engine q n)"
    unfolding Product_search_def ProductService_Search_def Let_def
    by (intro rules isolating.runs_harmless that)
qed

section \<open>The routes\<close>

definition plain_user :: "uint \<Rightarrow> uint option \<Rightarrow> string option \<Rightarrow> bool" where
  "plain_user u uid role = (uid = Some u \<and> role \<noteq> Some RoleAdmin)"

lemma isolating_role: "cx_userRole c \<noteq> Some RoleAdmin \<Longrightarrow> isolating.runs u (RequireRole [RoleAdmin] h c)"
  unfolding RequireRole_def by (auto intro: isolating.runs_ret split: option.split)

lemma isolating_secured:
  assumes "\<And>c t cl. cx_req c = rq \<Longrightarrow> authenticated L secret t c = Some cl \<Longrightarrow> cl_UserID cl = u \<and> cl_Role cl \<noteq> RoleAdmin"
    and "\<And>c. cx_userID c = Some u \<Longrightarrow> cx_userRole c \<noteq> Some RoleAdmin \<Longrightarrow> isolating.runs u (h c)"
  shows "isolating.serves u rq (Auth L secret h)"
  using assms by (intro isolating.serves_as [where P = "plain_user u"]) (auto simp: plain_user_def)

lemma isolating_routes:
  assumes "harmless_app app"
    and who: "\<And>c t cl. cx_req c = rq \<Longrightarrow> authenticated (app_jwt app) (JWTSecret (app_cfg app)) t c = Some cl
      \<Longrightarrow> cl_UserID cl = u \<and> cl_Role cl \<noteq> RoleAdmin"
  shows "list_all (\<lambda>r. isolating.serves u rq (rt_Handler r)) (routes app)"
proof -
  have ready: "isolating.serves u rq (Health_ready (app_checkers app))"
    using assms(1) by (intro isolating.serves_health) (simp add: harmless_app_def)
  have engine: "\<And>q n. harmless (engine_Search (app_engine app) q n)"
    and lim: "\<And>allow k l. app_limiter app = Some allow \<Longrightarrow> harmless (allow k l)"
    using assms(1) by (simp_all add: harmless_app_def)
  have open_routes: "isolating.serves u rq (Auth_register v ad)" "isolating.serves u rq (Auth_login v ad)"
    "isolating.serves u rq (Auth_refresh ad)" "isolating.serves u rq (Auth_logout ad)" for v ad
    by (intro isolating.servesI isolating.runs_auth_handlers)+
  have secured: "isolating.serves u rq (secured app h)"
    if "\<And>c. cx_userID c = Some u \<Longrightarrow> cx_userRole c \<noteq> Some RoleAdmin \<Longrightarrow> isolating.runs u (h c)" for h
    unfolding secured_def by (rule isolating_secured [OF who that])
  have admin: "isolating.serves u rq (admin_only app h)" for h
    unfolding admin_only_def by (intro secured isolating_role)
  show ?thesis
    unfolding routes_def health_routes_def api_routes_def auth_routes_def product_routes_def
      wishlist_routes_def order_routes_def lab_routes_def debug_routes_def notify_routes_def Let_def
    by (simp add: isolating.serves_foreign)
      (simp add: route_def api_route_def ready isolating.serves_health isolating.serves_foreign,
       intro conjI impI isolating.serves_middleware isolating.serves_RateLimit lim open_routes admin secured
         isolating.serves_foreign isolating.runs_auth_handlers isolating_order_handlers isolating_wishlist
         isolating_product_handlers engine; assumption)
qed

text \<open>C15. Isolation: a request made with the token of a user who is not an administrator, to any
  route and whatever fails meanwhile, leaves every order of the other users as it was, with its
  items, reservations and payments, and their wishlists, stored responses and products; of a
  product of another user only the stock and the time of the last update may change (the user
  bought it).  No user account is changed or removed.\<close>

theorem isolation:
  assumes "harmless_app app" and "system_inv s"
    and "\<And>t cl. authenticated (app_jwt app) (JWTSecret (app_cfg app)) t (new_ctx rq) = Some cl
          \<Longrightarrow> cl_UserID cl = u \<and> cl_Role cl \<noteq> RoleAdmin"
    and "serve app rq s = (r, s')"
  shows "spares u (db s) (db s')"
proof -
  have "isolating.runs u (serve app rq)"
  proof (intro isolating.serves_serve isolating.serves_find_route isolating_routes assms(1))
    fix c t cl
    assume c: "cx_req c = rq" and "authenticated (app_jwt app) (JWTSecret (app_cfg app)) t c = Some cl"
    then have "authenticated (app_jwt app) (JWTSecret (app_cfg app)) t (new_ctx rq) = Some cl"
      using authenticated_req [of c "new_ctx rq"] by (simp add: new_ctx_def)
    then show "cl_UserID cl = u \<and> cl_Role cl \<noteq> RoleAdmin" by (rule assms(3))
  qed
  with assms(2,4) show ?thesis by (auto simp: apart_def dest: isolating.runsD)
qed

text \<open>User 2 asks to pay order 1, which is user 1's.\<close>

definition bob_jwt :: jwt_lib where
  "bob_jwt = demo_jwt\<lparr>jwt_parse := \<lambda>key t tok. Inr ((demo_claims RoleUser)\<lparr>cl_UserID := 2\<rparr>)\<rparr>"

definition bob_app :: App where
  "bob_app = demo_app\<lparr>app_jwt := bob_jwt\<rparr>"

theorem isolation_witness:
  "map (\<lambda>o'. (o_ID o', o_Status o')) (filter (\<lambda>o'. o_UserID o' \<noteq> 2)
     (orders (db (snd (serve bob_app pay_request shop2))))) = [(1, OrderPendingPayment)]"
proof -
  have inv: "system_inv shop2" by (rule reachable_inv [OF trades_reachable [OF shop2_run] shop0_inv])
  have app: "harmless_app bob_app" using demo_harmless(1) by (simp add: harmless_app_def bob_app_def)
  have "cl_UserID cl = 2 \<and> cl_Role cl \<noteq> RoleAdmin"
    if "authenticated (app_jwt bob_app) (JWTSecret (app_cfg bob_app)) t (new_ctx pay_request) = Some cl" for t cl
    using that by (auto simp: authenticated_def bob_app_def bob_jwt_def ParseAccessToken_def parseToken_def
        demo_claims_def RoleUser_def RoleAdmin_def split: option.splits if_splits)
  from isolation [OF app inv this prod.collapse [symmetric]]
  have "filter (\<lambda>o'. o_UserID o' \<noteq> 2) (orders (db (snd (serve bob_app pay_request shop2))))
      = filter (\<lambda>o'. o_UserID o' \<noteq> 2) (orders (db shop2))"
    by (simp add: spares_def)
  moreover have "map (\<lambda>o'. (o_ID o', o_Status o')) (filter (\<lambda>o'. o_UserID o' \<noteq> 2) (orders (db shop2)))
      = [(1, OrderPendingPayment)]"
    by code_simp
  ultimately show ?thesis by simp
qed

end
