(* ===== verification/Notify_Delivery.thy ===== *)
theory Notify_Delivery
  imports Demo Notify
begin

text \<open>
  The fan-out as a state machine: iterations of the notifier, clients that join, leave and
  break, other parts of the system that write to the topic, faults of the broker, in any order.
  A client that stays receives the messages of the topic in order, each once.
\<close>

section \<open>What a client receives\<close>

definition sent_to :: "nat \<Rightarrow> Hub \<Rightarrow> json list" where
  "sent_to conn h = map snd (filter (\<lambda>(c, _). c = conn) (hub_sent h))"

text \<open>The text frame of a message: none for a poison pill.\<close>

definition frame_of :: "wire \<Rightarrow> json list" where
  "frame_of w =
     (let event = msg_Event (Fetch w) in
      if e_ID event = [] then []
      else case marshal_event event of Inl _ \<Rightarrow> [] | Inr payload \<Rightarrow> [payload])"

definition frames_between :: "nat \<Rightarrow> nat \<Rightarrow> wire list \<Rightarrow> json list" where
  "frames_between i j ws = concat (map frame_of (take (j - i) (drop i ws)))"

lemma frames_between_same [simp]: "frames_between i i ws = []"
  by (simp add: frames_between_def)

lemma frames_between_grow: "j \<le> length ws \<Longrightarrow> frames_between i j (ws @ ms) = frames_between i j ws"
  by (cases "i \<le> j") (simp_all add: frames_between_def)

lemma frames_between_Suc:
  "i \<le> j \<Longrightarrow> j < length ws \<Longrightarrow> frames_between i (Suc j) ws = frames_between i j ws @ frame_of (ws ! j)"
  by (simp add: frames_between_def Suc_diff_le take_Suc_conv_app_nth)

lemma frames_between_step:
  "i < length ws \<Longrightarrow> i < j \<Longrightarrow> frames_between i j ws = frame_of (ws ! i) @ frames_between (Suc i) j ws"
proof -
  assume ij: "i < length ws" "i < j"
  then have "take (j - i) (drop i ws) = ws ! i # take (j - Suc i) (drop (Suc i) ws)"
    by (simp add: Cons_nth_drop_Suc [symmetric] take_Cons' del: drop_Suc)
  then show ?thesis by (simp add: frames_between_def)
qed

section \<open>Operations of the hub\<close>

lemma map_pair_filter: "map snd (filter (\<lambda>(c, _). c = conn) (map (\<lambda>c. (c, p)) cs)) = map (\<lambda>_. p) (filter (\<lambda>c. c = conn) cs)"
  by (induction cs) auto

lemma filter_member: "distinct cs \<Longrightarrow> filter (\<lambda>c. c = conn) cs = (if conn \<in> set cs then [conn] else [])"
  by (induction cs) auto

definition notified :: "(nat \<Rightarrow> bool) \<Rightarrow> wire \<Rightarrow> Hub \<Rightarrow> Hub" where
  "notified broken w h =
     (if e_ID (msg_Event (Fetch w)) = [] then h else Broadcast broken (msg_Event (Fetch w)) h)"

lemma notified_hub:
  assumes "hub_ok h" and "conn \<in> set (hub_clients h)" and "\<not> broken conn"
  shows "hub_ok (notified broken w h)" and "conn \<in> set (hub_clients (notified broken w h))"
    and "sent_to conn (notified broken w h) = sent_to conn h @ frame_of w"
proof -
  show "hub_ok (notified broken w h)" using assms(1) by (simp add: notified_def hub_ok_Broadcast)
  have same: "Broadcast broken e h = h" if "marshal_event e = Inl x" for e x
    using that by (simp add: Broadcast_def)
  show "conn \<in> set (hub_clients (notified broken w h))"
    using assms(2,3) by (cases "marshal_event (msg_Event (Fetch w))")
      (simp_all add: notified_def same Broadcast_effect)
  have "distinct (filter (\<lambda>c. \<not> broken c) (hub_clients h))" using assms(1) by (simp add: hub_ok_def)
  from filter_member [OF this, of conn] assms(2,3)
  show "sent_to conn (notified broken w h) = sent_to conn h @ frame_of w"
    by (cases "marshal_event (msg_Event (Fetch w))")
      (simp_all add: notified_def same Broadcast_effect sent_to_def frame_of_def Let_def map_pair_filter)
qed

lemma joined_hub:
  assumes "hub_ok h" and "conn \<in> set (hub_clients h)"
  shows "conn \<in> set (hub_clients (ws_open c h))" and "sent_to conn (ws_open c h) = sent_to conn h"
    and "c \<noteq> conn \<Longrightarrow> conn \<in> set (hub_clients (ws_close c h))"
    and "sent_to conn (ws_close c h) = sent_to conn h"
  using assms by (auto simp: ws_open_def ws_close_def Hub_Add_def Hub_Remove_def sent_to_def)

section \<open>Iterations\<close>

text \<open>An iteration reads the message at the position, or nothing.\<close>

lemma notify_one_run:
  assumes "notify_one broken (c, h) s = (r, s')"
  shows "topic_products s' = topic_products s \<and> db s' = db s \<and>
     (\<exists>b. r = Inr (c\<lparr>backoff := b\<rparr>, h)
      \<or> position c < length (topic_products s)
        \<and> (\<exists>k \<in> {committed_offset c, Suc (position c)}. r = Inr (c\<lparr>position := Suc (position c), backoff := b, committed_offset := k\<rparr>,
             notified broken (topic_products s ! position c) h)))"
  using assms
  by (auto simp: notified_def notify_one_def fetch_def commit_offset_def bindE_def attempt_def interact_def ret_def Let_def
      split: option.splits if_splits)

lemma notify_one_live:
  assumes "no_faults (env s)" and "position c < length (topic_products s)"
  shows "\<exists>s'. notify_one broken (c, h) s
      = (Inr (c\<lparr>position := Suc (position c), backoff := first_backoff, committed_offset := Suc (position c)\<rparr>,
           notified broken (topic_products s ! position c) h), s')
     \<and> topic_products s' = topic_products s \<and> env s' = env s \<and> db s' = db s"
  using assms
  by (simp add: notified_def notify_one_def fetch_def commit_offset_def bindE_def attempt_def interact_def ret_def Let_def)

section \<open>The state machine\<close>

inductive watching :: "nat \<Rightarrow> sys \<times> Reader \<times> Hub \<Rightarrow> sys \<times> Reader \<times> Hub \<Rightarrow> bool" for conn x where
  start: "watching conn x x"
| iterate: "watching conn x (s, c, h) \<Longrightarrow> \<not> broken conn \<Longrightarrow> notify_one broken (c, h) s = (Inr (c', h'), s')
    \<Longrightarrow> watching conn x (s', c', h')"
| others_join: "watching conn x (s, c, h) \<Longrightarrow> watching conn x (s, c, ws_open i h)"
| others_leave: "watching conn x (s, c, h) \<Longrightarrow> i \<noteq> conn \<Longrightarrow> watching conn x (s, c, ws_close i h)"
| elsewhere: "watching conn x (s, c, h) \<Longrightarrow> topic_products s' = topic_products s @ ms \<Longrightarrow> watching conn x (s', c, h)"

text \<open>C27. A connected client misses nothing and gets nothing twice: while it stays and its
  connection works, and whatever else happens (clients that join, leave or break, events
  that arrive, a broker that fails to answer or to commit), it is sent the events of the partition
  in their order, each exactly once, up to the one the notifier has reached; only messages that
  do not decode are left out.\<close>

theorem watching_in_order:
  assumes "watching conn (s, c, h) (s', c', h')" and "hub_ok h" and "conn \<in> set (hub_clients h)"
    and "position c \<le> length (topic_products s)"
  shows "sent_to conn h' = sent_to conn h @ frames_between (position c) (position c') (topic_products s')"
proof -
  have "hub_ok h' \<and> conn \<in> set (hub_clients h') \<and> position c \<le> position c'
     \<and> position c' \<le> length (topic_products s')
     \<and> sent_to conn h' = sent_to conn h @ frames_between (position c) (position c') (topic_products s')"
    using assms(1)
  proof (induction "(s', c', h')" arbitrary: s' c' h' rule: watching.induct)
    case start
    with assms show ?case by simp
  next
    case (iterate s1 c1 h1 broken s2 c2 h2)
    from iterate(2) have ok: "hub_ok h1" "conn \<in> set (hub_clients h1)" by simp_all
    from notify_one_run [OF iterate(4)] iterate(2) notified_hub [of h1 conn broken "topic_products s1 ! position c1", OF ok iterate(3)]
    show ?case by (auto simp: frames_between_Suc)
  next
    case (others_join s1 c1 h1 i)
    then show ?case by (simp add: joined_hub) (simp add: ws_open_def hub_ok_ops)
  next
    case (others_leave s1 c1 h1 i)
    then show ?case by (simp add: joined_hub) (simp add: ws_close_def hub_ok_ops)
  next
    case (elsewhere s1 c1 h1 s2 ms)
    then show ?case by (simp add: frames_between_grow)
  qed
  then show ?thesis by simp
qed

lemma calm_shop2: "no_faults (env shop2)"
  by (simp add: env_shop2 quiet_def no_faults_def)

text \<open>The stream is not restricted to products: the event of an order, with the customer's number
  and the total, goes to every WebSocket.\<close>

theorem watching_in_order_witness:
  "\<exists>s' c' h'. watching 7 (shop2, reader0, ws_open 7 NewHub) (s', c', h') \<and> length (sent_to 7 h') = 1
     \<and> e_Type (msg_Event (Fetch (topic_products shop2 ! 0))) = EventOrderCreated
     \<and> lookup (e_Payload (msg_Event (Fetch (topic_products shop2 ! 0)))) ''userId'' = GFloat (f64_of_int 1)
     \<and> lookup (e_Payload (msg_Event (Fetch (topic_products shop2 ! 0)))) ''total'' = GFloat (f64_of_int 56000)"
proof -
  have zero: "position reader0 = 0" by (simp add: reader0_def)
  from notify_one_live [OF calm_shop2, of reader0 "\<lambda>_. False" "ws_open 7 NewHub"] shop2_topic(1) zero
  obtain c' h' s' where run: "notify_one (\<lambda>_. False) (reader0, ws_open 7 NewHub) shop2 = (Inr (c', h'), s')"
    and pos: "position c' = 1" and topic: "topic_products s' = topic_products shop2"
    by fastforce
  have watch: "watching 7 (shop2, reader0, ws_open 7 NewHub) (s', c', h')"
    by (rule watching.iterate [OF watching.start _ run]) simp
  have "hub_ok (ws_open 7 NewHub)" "7 \<in> set (hub_clients (ws_open 7 NewHub))" "sent_to 7 (ws_open 7 NewHub) = []"
    by (simp_all add: ws_open_def hub_ok_ops) (simp_all add: Hub_Add_def NewHub_def sent_to_def)
  with watching_in_order [OF watch] zero pos topic
  have "sent_to 7 h' = frames_between 0 1 (topic_products shop2)" by simp
  moreover have "length (frames_between 0 1 (topic_products shop2)) = 1" by code_simp
  moreover have "e_Type (msg_Event (Fetch (topic_products shop2 ! 0))) = EventOrderCreated" by code_simp
  moreover have "lookup (e_Payload (msg_Event (Fetch (topic_products shop2 ! 0)))) ''userId'' = GFloat (f64_of_int 1)"
    "lookup (e_Payload (msg_Event (Fetch (topic_products shop2 ! 0)))) ''total'' = GFloat (f64_of_int 56000)"
    by code_simp+
  ultimately show ?thesis using watch by (intro exI [of _ s'] exI [of _ c'] exI [of _ h']) simp
qed

section \<open>Catching up\<close>

fun notify_run :: "nat \<Rightarrow> (nat \<Rightarrow> bool) \<Rightarrow> Reader \<times> Hub \<Rightarrow> (Reader \<times> Hub) io" where
  "notify_run 0 broken rh = ret rh"
| "notify_run (Suc n) broken rh = bindE (notify_one broken rh) (notify_run n broken)"

text \<open>C16. Without faults the notifier reaches the end of its partition, commits it, and every client
  whose connection works has then been sent every event that was waiting.\<close>

theorem notifier_catches_up:
  assumes "no_faults (env s)" and "hub_ok h" and "position c < length (topic_products s)"
    and "conn \<in> set (hub_clients h)" and "\<not> broken conn"
  shows "\<exists>c' h' s'. notify_run (length (topic_products s) - position c) broken (c, h) s = (Inr (c', h'), s')
     \<and> position c' = length (topic_products s) \<and> committed_offset c' = length (topic_products s)
     \<and> sent_to conn h' = sent_to conn h
          @ frames_between (position c) (length (topic_products s)) (topic_products s)"
  using assms
proof (induction "length (topic_products s) - position c" arbitrary: s c h)
  case 0
  then show ?case by simp
next
  case (Suc n)
  let ?ws = "topic_products s"
  let ?c = "c\<lparr>position := Suc (position c), backoff := first_backoff, committed_offset := Suc (position c)\<rparr>"
  let ?h = "notified broken (?ws ! position c) h"
  from notify_one_live [OF Suc.prems(1,3), of broken h] obtain s1 where
    one: "notify_one broken (c, h) s = (Inr (?c, ?h), s1)" and s1: "topic_products s1 = ?ws" "env s1 = env s"
    by blast
  note hub = notified_hub [of h conn broken, OF Suc.prems(2,4,5), of "?ws ! position c"]
  have len: "length ?ws - position c = Suc n" using Suc.hyps(2) by simp
  show ?case
  proof (cases n)
    case 0
    with len have "length ?ws = Suc (position c)" by simp
    with one hub(3) frames_between_step [OF Suc.prems(3), of "Suc (position c)"] len 0 show ?thesis
      by (simp add: bindE_def ret_def)
  next
    case (Suc k)
    have "\<exists>c' h' s'. notify_run (length (topic_products s1) - position ?c) broken (?c, ?h) s1 = (Inr (c', h'), s')
        \<and> position c' = length (topic_products s1) \<and> committed_offset c' = length (topic_products s1)
        \<and> sent_to conn h' = sent_to conn ?h
          @ frames_between (position ?c) (length (topic_products s1)) (topic_products s1)"
      by (rule Suc.hyps(1)) (use len Suc Suc.prems s1 hub in simp_all)
    moreover have "length ?ws - Suc (position c) = n" using len by simp
    ultimately show ?thesis
      using one hub(3) frames_between_step [OF Suc.prems(3)] Suc.prems(3) len s1
      by (auto simp: bindE_def)
  qed
qed

theorem notifier_catches_up_witness:
  "\<exists>c' h' s'. notify_run 1 (\<lambda>_. False) (reader0, ws_open 7 NewHub) shop2 = (Inr (c', h'), s')
     \<and> committed_offset c' = 1 \<and> length (sent_to 7 h') = 1"
proof -
  have zero: "position reader0 = 0" by (simp add: reader0_def)
  have "hub_ok (ws_open 7 NewHub)" "7 \<in> set (hub_clients (ws_open 7 NewHub))" "sent_to 7 (ws_open 7 NewHub) = []"
    by (simp_all add: ws_open_def hub_ok_ops) (simp_all add: Hub_Add_def NewHub_def sent_to_def)
  moreover have "length (frames_between 0 1 (topic_products shop2)) = 1" by code_simp
  ultimately show ?thesis
    using notifier_catches_up [OF calm_shop2, of "ws_open 7 NewHub" reader0 7 "\<lambda>_. False"] shop2_topic(1) zero
    by fastforce
qed

end
