(* ===== verification/Wiring.thy ===== *)
theory Wiring
  imports Platform Requests
begin

text \<open>
  \<open>cmd/api/main.go\<close> and \<open>cmd/worker/main.go\<close>: what the processes are made of, how they start
  and how they stop.

  The dependency container (fx) is not part of the source.  It calls the constructors in the
  order of the dependencies, once each, and stops at the first error; then it runs the start
  hooks, and the stop hooks at the end.  A goroutine is a task: starting one adds it, the
  cancellation of its context (or the shutdown of its server) ends it.  What a task does is
  modelled where its code is; theory \<open>Deployment\<close> puts the steps of all of them together.
\<close>

section \<open>The API\<close>

text \<open>The libraries the API is built on.\<close>

record Infra =
  inf_drivers :: drivers
  inf_typesense :: "string \<Rightarrow> string \<Rightarrow> BreakerSettings \<Rightarrow> ts_server"
  inf_jwt :: jwt_lib
  inf_bcrypt :: bcrypt_lib
  inf_validators :: validators
  inf_limiter :: limiter
  inf_cors :: cors_lib
  inf_ws :: ws_lib
  inf_foreign :: "string \<Rightarrow> Request \<Rightarrow> time \<Rightarrow> Reply"
  inf_pg_ping :: "unit io"
  inf_redis_keys :: "string list io"
  inf_text :: "cval \<Rightarrow> string"

text \<open>A nil search engine; the service checks for it before every call.\<close>

definition nil_engine :: SearchEngine where
  "nil_engine = \<lparr>IndexProduct = \<lambda>_. throw (Other ''nil pointer dereference''),
     DeleteProduct = \<lambda>_. throw (Other ''nil pointer dereference''),
     engine_Search = \<lambda>_ _. throw (Other ''nil pointer dereference'')\<rparr>"

definition api_deps :: "Config \<Rightarrow> ts_server option \<Rightarrow> Deps" where
  "api_deps cfg search =
     \<lparr>has_redis = True, has_publisher = True, has_search = (search \<noteq> None), cache_ttl = ProductCacheTTL cfg\<rparr>"

definition api_lab :: "Infra \<Rightarrow> Config \<Rightarrow> ts_server option \<Rightarrow> LabDeps" where
  "api_lab lib cfg search =
     \<lparr>ld_cache = True, ld_audit = True, ld_publisher = True, ld_search = map_option typesense_lab search,
      ld_relay = Some True, ld_cfg = cfg, ld_redis_ping = rd_Ping (inf_drivers lib) (redis_options cfg),
      ld_redis_keys = inf_redis_keys lib, ld_text = inf_text lib\<rparr>"

definition health_checkers :: "Infra \<Rightarrow> Config \<Rightarrow> ts_server option \<Rightarrow> Checker list" where
  "health_checkers lib cfg search =
     api_checkers (inf_pg_ping lib) (rd_Ping (inf_drivers lib) (redis_options cfg))
       (mg_Ping (inf_drivers lib)) (map_option Client_Ping search)"

definition api_app :: "Infra \<Rightarrow> Config \<Rightarrow> ts_server option \<Rightarrow> App" where
  "api_app lib cfg search =
     \<lparr>app_cfg = cfg, app_jwt = inf_jwt lib, app_valid = inf_validators lib,
      app_limiter = Some (inf_limiter lib),
      app_auth = \<lparr>ad_jwt = inf_jwt lib, ad_bcrypt = inf_bcrypt lib, ad_cfg = cfg, ad_cache = True\<rparr>,
      app_deps = api_deps cfg search,
      app_engine = (case search of None \<Rightarrow> nil_engine | Some ts \<Rightarrow> typesense_engine ts),
      app_orders = \<lparr>od_HoldTTL = OrderHoldTTL cfg, od_Cache = Some (api_deps cfg search)\<rparr>,
      app_lab = api_lab lib cfg search, app_checkers = health_checkers lib cfg search,
      app_cors = inf_cors lib, app_ws = inf_ws lib, app_foreign = inf_foreign lib\<rparr>"

definition api_construct :: "Infra \<Rightarrow> getenv \<Rightarrow> (App \<times> Provider) io" where
  "api_construct lib get =
     (let d = inf_drivers lib in
      case Load (inf_validators lib) get of
        Inl err \<Rightarrow> throw (Other err)
      | Inr cfg \<Rightarrow>
          bindE (Redis_Connect d cfg) (\<lambda>_.
          bindE (Postgres_Connect d cfg) (\<lambda>_.
          bindE (Typesense_Connect (inf_typesense lib) cfg) (\<lambda>search.
          bindE (Mongo_Connect d cfg) (\<lambda>_.
          bindE (Telemetry_Setup d cfg ''golang-be-api'') (\<lambda>tel.
          ret (api_app lib cfg search, tel)))))))"

datatype task =
    BootstrapSearch | RunNotifier | RunRelay | RunHoldExpiry | ServeHTTP
  | ServeMetrics | ConsumeEvents

definition api_OnStart :: "drivers \<Rightarrow> Config \<Rightarrow> task list io" where
  "api_OnStart d cfg =
     bindE (wrapping ''migrate'' (Migrate d)) (\<lambda>_.
     bindE (ignore (EnsureTopics d cfg [KafkaTopicProducts cfg, KafkaTopicDLQ cfg])) (\<lambda>_.
     ret [BootstrapSearch, RunNotifier, RunRelay, RunHoldExpiry, ServeHTTP]))"

definition cancel :: "task list \<Rightarrow> task list \<Rightarrow> task list" where
  "cancel ts running = filter (\<lambda>t. t \<notin> set ts) running"

text \<open>The stop hook: the tasks left running, and the error of the trace provider if any.\<close>

definition api_OnStop :: "drivers \<Rightarrow> Provider \<Rightarrow> task list \<Rightarrow> (task list \<times> go_error option) io" where
  "api_OnStop d tel running =
     (let running = cancel [RunNotifier, RunRelay, RunHoldExpiry] running in
      bindE (ignore (srv_Shutdown d)) (\<lambda>_.
      let running = cancel [ServeHTTP] running in
      bindE (ignore (kf_CloseReader d)) (\<lambda>_.
      bindE (ignore (kf_CloseWriter d)) (\<lambda>_.
      bindE (ignore (mg_Disconnect d)) (\<lambda>_.
      bindE (ignore (rd_Close d)) (\<lambda>_.
      bindE (attempt (pg_DB d)) (\<lambda>r.
      bindE (case r of Inl _ \<Rightarrow> ret () | Inr _ \<Rightarrow> ignore (pg_Close d)) (\<lambda>_.
      bindE (attempt (Telemetry_Shutdown d (Some tel))) (\<lambda>r.
      ret (running, case r of Inl err \<Rightarrow> Some err | Inr _ \<Rightarrow> None))))))))))"

section \<open>The worker\<close>

definition worker_processor :: Processor where
  "worker_processor = \<lparr>has_payment = True, has_inventory = True, has_cache = True, has_dlq = True\<rparr>"

definition worker_construct :: "drivers \<Rightarrow> validators \<Rightarrow> getenv \<Rightarrow> (Config \<times> Processor) io" where
  "worker_construct d v get =
     (case Load v get of
        Inl err \<Rightarrow> throw (Other err)
      | Inr cfg \<Rightarrow>
          bindE (Postgres_Connect d cfg) (\<lambda>_.
          bindE (Mongo_Connect d cfg) (\<lambda>_.
          bindE (Redis_Connect d cfg) (\<lambda>_.
          ret (cfg, worker_processor)))))"

definition worker_OnStart :: "drivers \<Rightarrow> Config \<Rightarrow> task list io" where
  "worker_OnStart d cfg =
     bindE (ignore (EnsureTopics d cfg [KafkaTopicProducts cfg, KafkaTopicDLQ cfg])) (\<lambda>_.
     bindE (attempt (EnsureIndexes d)) (\<lambda>r.
     case r of
       Inl err \<Rightarrow>
         throw (Wrapped (''audit indexes: '' @ error_text err @ dash
           @ ''if Unauthorized, set Secret MONGO_URI with auth (see k8s/secret.example.yaml)'') err)
     | Inr _ \<Rightarrow> ret [ServeMetrics, ConsumeEvents]))"

definition worker_OnStop :: "drivers \<Rightarrow> task list \<Rightarrow> (task list \<times> go_error option) io" where
  "worker_OnStop d running =
     (let running = cancel [ConsumeEvents] running in
      bindE (ignore (srv_Shutdown d)) (\<lambda>_.
      let running = cancel [ServeMetrics] running in
      bindE (ignore (kf_CloseReader d)) (\<lambda>_.
      bindE (ignore (kf_CloseWriter d)) (\<lambda>_.
      bindE (attempt (pg_DB d)) (\<lambda>r.
      bindE (case r of Inl _ \<Rightarrow> ret () | Inr _ \<Rightarrow> ignore (pg_Close d)) (\<lambda>_.
      bindE (attempt (mg_Disconnect d)) (\<lambda>r.
      ret (running, case r of Inl err \<Rightarrow> Some err | Inr _ \<Rightarrow> None))))))))"

section \<open>What the libraries leave alone\<close>

text \<open>No call to a driver, the limiter or the search server touches the tables, the topics or the
  audit collection (the migrations find the schema as the tables of the model have it).\<close>

definition harmless_drivers :: "drivers \<Rightarrow> bool" where
  "harmless_drivers d =
     (list_all harmless
        [pg_DB d, pg_Close d, mig_Source d, mig_Driver d, mig_New d, mig_Up d, mig_Version d, rd_Close d,
         mg_Ping d, mg_Disconnect d, kf_CloseConn d, kf_CloseReader d, kf_CloseWriter d, ot_Shutdown d,
         srv_Shutdown d]
      \<and> (\<forall>dsn v. harmless (pg_Open d dsn v)) \<and> (\<forall>p. harmless (pg_SetPool d p))
      \<and> (\<forall>ro. harmless (rd_Ping d ro)) \<and> (\<forall>u. harmless (mg_Connect d u))
      \<and> (\<forall>n. harmless (mg_ListCollections d n)) \<and> (\<forall>c ms. harmless (mg_CreateIndexes d c ms))
      \<and> (\<forall>b. harmless (kf_Dial d b)) \<and> (\<forall>ts. harmless (kf_CreateTopics d ts))
      \<and> (\<forall>e. harmless (ot_Exporter d e)) \<and> (\<forall>n. harmless (ot_Resource d n)))"

definition harmless_server :: "ts_server \<Rightarrow> bool" where
  "harmless_server ts =
     ((\<forall>p. harmless (ts_upsert ts p)) \<and> (\<forall>i. harmless (ts_delete ts i)) \<and> (\<forall>q n. harmless (ts_search ts q n))
      \<and> harmless (ts_collections ts) \<and> harmless (ts_retrieve ts) \<and> harmless (ts_create ts))"

definition infra_ok :: "Infra \<Rightarrow> bool" where
  "infra_ok lib =
     (harmless_drivers (inf_drivers lib) \<and> (\<forall>a k b. harmless_server (inf_typesense lib a k b))
      \<and> (\<forall>k l. harmless (inf_limiter lib k l)) \<and> harmless (inf_pg_ping lib) \<and> harmless (inf_redis_keys lib))"

lemma harmless_reading: "harmless m = reading.runs m"
  by (simp add: harmless_def reading.runs_def)

lemma reading_server:
  assumes "harmless_server ts"
  shows "reading.runs (EnsureProductsCollection ts)" "reading.runs (Client_IndexProduct ts p)"
    "reading.runs (Client_DeleteProduct ts i)" "reading.runs (Client_Search ts q n)"
    "reading.runs (Client_Ping ts)" "reading.runs (Client_Stats ts)"
proof -
  note ts = assms [unfolded harmless_server_def harmless_reading]
  show ensure: "reading.runs (EnsureProductsCollection ts)"
    unfolding EnsureProductsCollection_def Let_def by (intro reading.runs_intros) (use ts in simp_all)
  show "reading.runs (Client_IndexProduct ts p)"
    unfolding Client_IndexProduct_def by (intro reading.runs_intros ensure) (use ts in simp)
  show "reading.runs (Client_DeleteProduct ts i)" "reading.runs (Client_Ping ts)"
    unfolding Client_DeleteProduct_def Client_Ping_def using ts by simp_all
  have "reading.runs (searchOnce ts q n)" for n
    unfolding searchOnce_def by (intro reading.runs_intros) (use ts in simp)
  then show "reading.runs (Client_Search ts q n)"
    unfolding Client_Search_def search_failed_def Let_def by (intro reading.runs_intros ensure)
  show "reading.runs (Client_Stats ts)"
    unfolding Client_Stats_def by (intro reading.runs_intros) (use ts in simp)
qed

lemma harmless_wired:
  assumes "infra_ok lib" and "\<And>ts. search = Some ts \<Longrightarrow> harmless_server ts"
  shows "harmless_app (api_app lib cfg search)"
proof -
  from assms(1) have lim: "\<And>k l. harmless (inf_limiter lib k l)" and pg: "harmless (inf_pg_ping lib)"
    and keys: "harmless (inf_redis_keys lib)" and rd: "\<And>ro. harmless (rd_Ping (inf_drivers lib) ro)"
    and mg: "harmless (mg_Ping (inf_drivers lib))"
    by (simp_all add: infra_ok_def harmless_drivers_def)
  have nil: "harmless (throw e)" for e :: go_error by (simp add: harmless_def throw_def)
  note server = reading_server [OF assms(2), folded harmless_reading]
  have "harmless (engine_Search (app_engine (api_app lib cfg search)) q n)" for q n
    by (cases search) (simp_all add: api_app_def nil_engine_def typesense_engine_def nil server)
  moreover have "harmless_lab (api_lab lib cfg search)"
    by (auto simp: api_lab_def harmless_lab_def harmless_search_def typesense_lab_def rd keys server)
  moreover have "\<forall>ck\<in>set (health_checkers lib cfg search). harmless (ck_Ping ck)"
    by (auto simp: health_checkers_def api_checkers_def rd mg pg harmless_ret server split: option.split)
  ultimately show ?thesis by (simp add: harmless_app_def lim) (simp add: api_app_def lim)
qed

text \<open>Starting and stopping only reads.\<close>

lemma reading_wrapping: "reading.runs m \<Longrightarrow> reading.runs (wrapping p m)"
  "reading.runs n \<Longrightarrow> reading.runs (unless fine p n)"
  unfolding wrapping_def unless_def by (intro reading.runs_intros; assumption?)+

lemma reading_dial: "(\<And>b. reading.runs (kf_Dial d b)) \<Longrightarrow> reading.runs (dial_any d bs e)"
  by (induction bs arbitrary: e) (auto intro!: reading.runs_intros)

lemma reading_platform:
  assumes "harmless_drivers d"
  shows "reading.runs (Postgres_Connect d cfg)" "reading.runs (Migrate d)" "reading.runs (Redis_Connect d cfg)"
    "reading.runs (Mongo_Connect d cfg)" "reading.runs (EnsureIndexes d)" "reading.runs (EnsureTopics d cfg ts)"
    "reading.runs (Telemetry_Setup d cfg n)" "reading.runs (Telemetry_Shutdown d p)"
    "reading.runs (api_OnStart d cfg)" "reading.runs (api_OnStop d tel running)"
    "reading.runs (worker_construct d v get)" "reading.runs (worker_OnStart d cfg)"
    "reading.runs (worker_OnStop d running)"
proof -
  from assms have d: "reading.runs (pg_DB d)" "reading.runs (pg_Close d)" "reading.runs (mig_Source d)"
    "reading.runs (mig_Driver d)" "reading.runs (mig_New d)" "reading.runs (mig_Up d)"
    "reading.runs (mig_Version d)" "reading.runs (rd_Close d)" "reading.runs (mg_Ping d)"
    "reading.runs (mg_Disconnect d)" "reading.runs (kf_CloseConn d)" "reading.runs (kf_CloseReader d)"
    "reading.runs (kf_CloseWriter d)" "reading.runs (ot_Shutdown d)" "reading.runs (srv_Shutdown d)"
    "reading.runs (pg_Open d dsn v)" "reading.runs (pg_SetPool d po)" "reading.runs (rd_Ping d ro)"
    "reading.runs (mg_Connect d u)" "reading.runs (mg_ListCollections d u)"
    "reading.runs (mg_CreateIndexes d u ms)" "reading.runs (kf_Dial d u)" "reading.runs (kf_CreateTopics d tcs)"
    "reading.runs (ot_Exporter d u)" "reading.runs (ot_Resource d u)" for dsn v po ro u ms tcs
    by (simp_all add: harmless_drivers_def harmless_reading)
  note rules = reading.runs_intros reading_wrapping reading_dial d
  show clients: "reading.runs (Postgres_Connect d cfg)" "reading.runs (Migrate d)" "reading.runs (Redis_Connect d cfg)"
    "reading.runs (Mongo_Connect d cfg)" "reading.runs (EnsureIndexes d)" "reading.runs (EnsureTopics d cfg ts)"
    "reading.runs (Telemetry_Setup d cfg n)" "reading.runs (Telemetry_Shutdown d p)" for cfg ts n p
    unfolding Postgres_Connect_def Migrate_def Redis_Connect_def Mongo_Connect_def EnsureIndexes_def
      EnsureTopics_def Telemetry_Setup_def Telemetry_Shutdown_def Let_def
    by (intro rules)+
  show "reading.runs (api_OnStart d cfg)" "reading.runs (api_OnStop d tel running)"
    "reading.runs (worker_construct d v get)" "reading.runs (worker_OnStart d cfg)"
    "reading.runs (worker_OnStop d running)"
    unfolding api_OnStart_def api_OnStop_def worker_construct_def worker_OnStart_def worker_OnStop_def Let_def
    by (intro rules clients)+
qed

section \<open>The process inside the system\<close>

lemma shopping_reading: "reading.runs m \<Longrightarrow> shopping.runs m"
  by (intro shopping.runs_harmless) (simp add: harmless_reading)

lemma typesense_wired:
  assumes "infra_ok lib" and "Typesense_Connect (inf_typesense lib) cfg s = (Inr search, s')" and "search = Some ts"
  shows "harmless_server ts"
proof -
  from assms(2,3) have "ts = inf_typesense lib (TypesenseAddr cfg) (TypesenseAPIKey cfg) breaker_settings"
    by (auto simp: Typesense_Connect_def Let_def bindE_def ret_def split: prod.splits sum.splits if_splits)
  with assms(1) show ?thesis by (simp add: infra_ok_def)
qed

lemma reading_construct:
  assumes "infra_ok lib"
  shows "reading.runs (api_construct lib get)"
proof -
  have server: "\<And>a k b. harmless_server (inf_typesense lib a k b)" and d: "harmless_drivers (inf_drivers lib)"
    using assms by (simp_all add: infra_ok_def)
  have "reading.runs (Typesense_Connect (inf_typesense lib) cfg)" for cfg
    unfolding Typesense_Connect_def BootstrapSchemas_def Let_def
    by (intro reading.runs_intros reading_server server)
  then show ?thesis
    unfolding api_construct_def Let_def by (intro reading.runs_intros reading_platform d)
qed

lemma constructed:
  assumes "infra_ok lib" and "api_construct lib get s = (Inr (app, tel), s')"
  shows "\<exists>cfg search. Load (inf_validators lib) get = Inr cfg \<and> app = api_app lib cfg search
     \<and> (\<forall>ts. search = Some ts \<longrightarrow> harmless_server ts)"
proof -
  from assms(2) obtain cfg where load: "Load (inf_validators lib) get = Inr cfg"
    by (auto simp: api_construct_def Let_def throw_def split: sum.splits)
  from assms(2) obtain search s1 s2 where search: "Typesense_Connect (inf_typesense lib) cfg s1 = (Inr search, s2)"
    and app: "app = api_app lib cfg search"
    unfolding api_construct_def load Let_def sum.case
    by (auto simp: ret_def elim!: bindE_cases)
  then show ?thesis using load typesense_wired [OF assms(1) search] by blast
qed

end
