(* ===== verification/Deployment.thy ===== *)
theory Deployment
  imports Wiring
begin

text \<open>
  The processes at work: any number of replicas of the API (\<open>cmd/api\<close>) and one consumer of the
  group of the worker (\<open>cmd/worker\<close>), on the same database, broker, cache and stores.

  A process starts (or fails to), its tasks take steps in any order, it stops in order or is
  killed between two steps; what was committed to the broker is where the next worker resumes.
\<close>

section \<open>Processes\<close>

record ApiProcess =
  ap_app :: App
  ap_tel :: Provider
  ap_tasks :: "task list"

record WorkerProcess =
  wp_processor :: Processor
  wp_reader :: Reader
  wp_tasks :: "task list"

definition api_start :: "Infra \<Rightarrow> getenv \<Rightarrow> ApiProcess io" where
  "api_start lib get =
     bindE (api_construct lib get) (\<lambda>(app, tel).
     bindE (api_OnStart (inf_drivers lib) (app_cfg app)) (\<lambda>tasks.
     ret \<lparr>ap_app = app, ap_tel = tel, ap_tasks = tasks\<rparr>))"

text \<open>A group that has committed nothing starts at the first message.\<close>

definition worker_start :: "Infra \<Rightarrow> getenv \<Rightarrow> nat \<Rightarrow> WorkerProcess io" where
  "worker_start lib get offset =
     bindE (worker_construct (inf_drivers lib) (inf_validators lib) get) (\<lambda>(cfg, p).
     bindE (worker_OnStart (inf_drivers lib) cfg) (\<lambda>tasks.
     ret \<lparr>wp_processor = p,
          wp_reader = \<lparr>position = offset, committed_offset = offset, backoff = first_backoff\<rparr>,
          wp_tasks = tasks\<rparr>))"

text \<open>One step of a task of the API; \<open>Background\<close> is a goroutine that the product service has
  started.  The bootstrap of the search index runs once.\<close>

datatype activity = HandleRequest Request | RelayTick | ExpiryTick | Bootstrap | Background job

fun api_act :: "App \<Rightarrow> activity \<Rightarrow> unit io" where
  "api_act app (HandleRequest rq) = ignore (serve app rq)"
| "api_act app RelayTick = ignore (relay_tick True Publish)"
| "api_act app ExpiryTick = RunHoldExpiry_tick (app_orders app)"
| "api_act app Bootstrap = ignore (BootstrapTypesense (app_lab app))"
| "api_act app (Background j) = run_job (app_engine app) j"

definition product_job :: "job \<Rightarrow> bool" where
  "product_job j = (case j of PublishJob ty _ \<Rightarrow> ty \<in> {EventProductCreated, EventProductUpdated, EventProductDeleted}
     | _ \<Rightarrow> True)"

fun may_act :: "task list \<Rightarrow> activity \<Rightarrow> bool" where
  "may_act tasks (HandleRequest rq) = (ServeHTTP \<in> set tasks)"
| "may_act tasks RelayTick = (RunRelay \<in> set tasks)"
| "may_act tasks ExpiryTick = (RunHoldExpiry \<in> set tasks)"
| "may_act tasks Bootstrap = (BootstrapSearch \<in> set tasks)"
| "may_act tasks (Background j) = product_job j"

definition tasks_after :: "activity \<Rightarrow> task list \<Rightarrow> task list" where
  "tasks_after a tasks = (if a = Bootstrap then cancel [BootstrapSearch] tasks else tasks)"

section \<open>Deployments\<close>

record deployment =
  dp_sys :: sys
  dp_apis :: "ApiProcess list"
  dp_worker :: "WorkerProcess option"
  dp_offset :: nat

definition idle :: "sys \<Rightarrow> nat \<Rightarrow> deployment" where
  "idle s offset = \<lparr>dp_sys = s, dp_apis = [], dp_worker = None, dp_offset = offset\<rparr>"

inductive deploy_step :: "Infra \<Rightarrow> deployment \<Rightarrow> deployment \<Rightarrow> bool" for lib where
  api_starts: "api_start lib get (dp_sys d) = (Inr p, s')
    \<Longrightarrow> deploy_step lib d (d\<lparr>dp_sys := s', dp_apis := p # dp_apis d\<rparr>)"
| api_fails: "api_start lib get (dp_sys d) = (Inl e, s') \<Longrightarrow> deploy_step lib d (d\<lparr>dp_sys := s'\<rparr>)"
| api_works: "k < length (dp_apis d) \<Longrightarrow> p = dp_apis d ! k \<Longrightarrow> may_act (ap_tasks p) a
    \<Longrightarrow> api_act (ap_app p) a (dp_sys d) = (r, s')
    \<Longrightarrow> deploy_step lib d (d\<lparr>dp_sys := s',
          dp_apis := (dp_apis d)[k := p\<lparr>ap_tasks := tasks_after a (ap_tasks p)\<rparr>]\<rparr>)"
| api_stops: "dp_apis d = ps @ p # qs
    \<Longrightarrow> api_OnStop (inf_drivers lib) (ap_tel p) (ap_tasks p) (dp_sys d) = (r, s')
    \<Longrightarrow> deploy_step lib d (d\<lparr>dp_sys := s', dp_apis := ps @ qs\<rparr>)"
| api_killed: "dp_apis d = ps @ p # qs \<Longrightarrow> deploy_step lib d (d\<lparr>dp_apis := ps @ qs\<rparr>)"
| worker_starts: "dp_worker d = None \<Longrightarrow> worker_start lib get (dp_offset d) (dp_sys d) = (Inr w, s')
    \<Longrightarrow> deploy_step lib d (d\<lparr>dp_sys := s', dp_worker := Some w\<rparr>)"
| worker_fails: "dp_worker d = None \<Longrightarrow> worker_start lib get (dp_offset d) (dp_sys d) = (Inl e, s')
    \<Longrightarrow> deploy_step lib d (d\<lparr>dp_sys := s'\<rparr>)"
| worker_works: "dp_worker d = Some w \<Longrightarrow> ConsumeEvents \<in> set (wp_tasks w) \<Longrightarrow> small_ids (dp_sys d)
    \<Longrightarrow> consume_one (wp_processor w) (wp_reader w) (dp_sys d) = (Inr c, s')
    \<Longrightarrow> deploy_step lib d (d\<lparr>dp_sys := s', dp_worker := Some (w\<lparr>wp_reader := c\<rparr>),
          dp_offset := committed_offset c\<rparr>)"
| worker_stops: "dp_worker d = Some w \<Longrightarrow> worker_OnStop (inf_drivers lib) (wp_tasks w) (dp_sys d) = (r, s')
    \<Longrightarrow> deploy_step lib d (d\<lparr>dp_sys := s', dp_worker := None\<rparr>)"
| worker_killed: "dp_worker d = Some w \<Longrightarrow> deploy_step lib d (d\<lparr>dp_worker := None\<rparr>)"

inductive deployments :: "Infra \<Rightarrow> deployment \<Rightarrow> deployment \<Rightarrow> bool" for lib d0 where
  at_first: "deployments lib d0 d0"
| later: "deployments lib d0 d \<Longrightarrow> deploy_step lib d d' \<Longrightarrow> deployments lib d0 d'"

section \<open>What a process is made of\<close>

definition sound_app :: "App \<Rightarrow> bool" where
  "sound_app app = (harmless_app app \<and> (\<forall>p. harmless (IndexProduct (app_engine app) p))
     \<and> (\<forall>i. harmless (DeleteProduct (app_engine app) i)))"

lemma sound_constructed:
  assumes "infra_ok lib" and "api_construct lib get s = (Inr (app, tel), s')"
  shows "sound_app app"
proof -
  from constructed [OF assms] obtain cfg search where app: "app = api_app lib cfg search"
    and ts: "\<And>ts. search = Some ts \<Longrightarrow> harmless_server ts" by blast
  have nil: "harmless (throw e)" for e :: go_error by (simp add: harmless_def throw_def)
  note engine = reading_server [OF ts, folded harmless_reading]
  show ?thesis
    using harmless_wired [OF assms(1) ts, of search cfg]
    by (cases search) (simp_all add: sound_app_def app api_app_def nil_engine_def typesense_engine_def nil engine)
qed

lemma sound_start:
  assumes "infra_ok lib" and "api_start lib get s = (Inr p, s')"
  shows "sound_app (ap_app p)"
  using assms(2) sound_constructed [OF assms(1)]
  by (auto simp: api_start_def ret_def elim!: bindE_cases)

lemma reading_starts:
  assumes "infra_ok lib"
  shows "reading.runs (api_start lib get)" "reading.runs (worker_start lib get offset)"
proof -
  have d: "harmless_drivers (inf_drivers lib)" using assms by (simp add: infra_ok_def)
  note rules = reading.runs_bindE reading.runs_ret(1) reading_construct [OF assms] reading_platform [OF d]
  show "reading.runs (api_start lib get)" "reading.runs (worker_start lib get offset)"
    unfolding api_start_def worker_start_def by (auto split: prod.split intro!: rules)
qed

section \<open>Steps of the tasks are steps of the system\<close>

lemma shopping_act:
  assumes "sound_app app" and "may_act tasks a"
  shows "shopping.runs (api_act app a)"
proof (cases a)
  case (HandleRequest rq)
  with assms show ?thesis by (simp add: sound_app_def shopping.runs_ignore runs_serve)
next
  case RelayTick
  have "trading.runs (relay_tick True Publish)"
    unfolding relay_tick_def by (intro trading.runs_intros trading_outbox trading_relay)
  with RelayTick show ?thesis by (simp add: shopping.runs_ignore trading_shopping)
next
  case ExpiryTick
  then show ?thesis
    by (simp add: RunHoldExpiry_tick_def shopping.runs_ignore trading_shopping trading_expiry)
next
  case Bootstrap
  have "harmless_lab (app_lab app)" using assms(1) by (simp add: sound_app_def harmless_app_def)
  with Bootstrap show ?thesis by (simp add: shopping.runs_ignore trading_shopping trading_lab_search(4))
next
  case (Background j)
  show ?thesis
  proof (cases j)
    case (PublishJob ty p)
    with assms(2) Background have "ty \<notin> set commerce_events"
      by (auto simp: product_job_def commerce_events_def inventory_events_def order_event_distinct
          EventProductCreated_def EventProductUpdated_def EventProductDeleted_def str_consts)
    then have "trading.runs (run_job (app_engine app) j)"
      unfolding PublishJob run_job.simps by (rule trading_event) (intro trading.runs_ignore)
    then show ?thesis by (simp add: Background trading_shopping)
  qed (use assms(1) in \<open>simp_all add: sound_app_def Background shopping.runs_ignore shopping.runs_harmless\<close>)
qed

text \<open>An iteration of the consume loop delivers at most one message.\<close>

lemma consume_one_delivers:
  assumes "consume_one p c s = (r, s')"
  shows "(s' = tock s \<or> (\<exists>x s2. position c < length (topic_products s) \<and> (s' = s2 \<or> s' = tock s2)
     \<and> Dispatch_Handle p (Fetch (topic_products s ! position c)) (tock s) = (x, s2)))
   \<and> (\<exists>c'. r = Inr c')"
  using assms
  unfolding consume_one_def attempt_def bindE_def Let_def ret_def fetch_def commit_offset_def interact_def
  by (auto split: prod.splits sum.splits option.splits if_splits)

lemma shops_tock: "shops s (tock s)"
  by (rule shopping.rel_frame) (simp_all add: outside_def)

lemma consume_one_shops:
  assumes "small_ids s" and "consume_one p c s = (r, s')"
  shows "shops s s'"
  using consume_one_delivers [OF assms(2)]
proof (elim conjE disjE exE)
  fix x s2
  assume deliver: "position c < length (topic_products s)"
    "Dispatch_Handle p (Fetch (topic_products s ! position c)) (tock s) = (x, s2)"
  have "trade (tock s) s2"
    using deliver assms(1) by (intro trade.deliver [where w = "topic_products s ! position c"])
      (auto simp: small_ids_def)
  then have "shops (tock s) s2" by (auto simp: shops_def intro: trades_reachable trades_step)
  with shops_tock have *: "shops s s2" by (rule shopping.rel_trans)
  show "shops s s'" if "s' = s2" using * that by simp
  show "shops s s'" if "s' = tock s2" using shopping.rel_trans [OF * shops_tock] that by simp
qed (simp add: shops_tock)

section \<open>The whole deployment\<close>

definition deployed :: "sys \<Rightarrow> deployment \<Rightarrow> bool" where
  "deployed s d = (shops s (dp_sys d) \<and> list_all (\<lambda>p. sound_app (ap_app p)) (dp_apis d))"

lemma deployed_step:
  assumes "infra_ok lib" and "deploy_step lib d d'" and "deployed s d"
  shows "deployed s d'"
proof -
  have d: "harmless_drivers (inf_drivers lib)" using assms(1) by (simp add: infra_ok_def)
  note starts = reading_starts [OF assms(1), THEN shopping_reading, THEN shopping.runsD]
  note stops = reading_platform(10,13) [OF d, THEN shopping_reading, THEN shopping.runsD]
  have "shops (dp_sys d) (dp_sys d') \<and> list_all (\<lambda>p. sound_app (ap_app p)) (dp_apis d')"
    using assms(2,3)
  proof (induction rule: deploy_step.induct)
    case (api_works k d p a r s')
    then have "sound_app (ap_app p)" by (simp add: deployed_def list_all_length)
    with api_works show ?case
      using shopping.runsD [OF shopping_act] by (auto simp: deployed_def list_all_length nth_list_update)
  qed (auto simp: deployed_def shopping.rel_refl
      dest: starts stops sound_start [OF assms(1)] consume_one_shops)
  with assms(3) show ?thesis by (auto simp: deployed_def intro: shopping.rel_trans)
qed

text \<open>C22. The whole deployment: replicas of the API and the worker that start in any environment of
  variables (or fail to), serve requests of anybody to any route, run the relay, the expiry job,
  the bootstrap and the background jobs, consume events, stop and are killed between two steps, in
  any order and whatever fails meanwhile, take a system that satisfies the invariants only to
  systems that do, by steps of the system (the ids of orders being at most 2^53 where the worker
  runs).\<close>

theorem deployment_keeps_inv:
  assumes "infra_ok lib" and "system_inv s" and "deployments lib (idle s offset) d"
  shows "reachable s (dp_sys d) \<and> system_inv (dp_sys d)"
proof -
  have "deployed s (idle s offset)" by (simp add: deployed_def idle_def shopping.rel_refl)
  with assms(3) have "deployed s d"
    by (induction rule: deployments.induct) (auto intro: deployed_step [OF assms(1)])
  with assms(2) show ?thesis by (auto simp: deployed_def shops_def intro: reachable_inv)
qed

text \<open>Libraries that answer at once, and a search server that has nothing.\<close>

definition calm_drivers :: drivers where
  "calm_drivers =
     \<lparr>pg_Open = \<lambda>_ _. ret (), pg_DB = ret (), pg_SetPool = \<lambda>_. ret (), pg_Close = ret (), mig_Source = ret (),
      mig_Driver = ret (), mig_New = ret (), mig_Up = ret (), mig_NoChange = \<lambda>_. False, mig_Version = ret (),
      mig_NilVersion = \<lambda>_. False, rd_Ping = \<lambda>_. ret (), rd_Close = ret (), mg_Connect = \<lambda>_. ret (),
      mg_Ping = ret (), mg_ListCollections = \<lambda>_. ret (), mg_CreateIndexes = \<lambda>_ _. ret (),
      mg_Disconnect = ret (), kf_Dial = \<lambda>_. ret (), kf_CreateTopics = \<lambda>_. ret (), kf_CloseConn = ret (),
      kf_CloseReader = ret (), kf_CloseWriter = ret (), ot_Exporter = \<lambda>_. ret (), ot_Resource = \<lambda>_. ret (),
      ot_Shutdown = ret (), srv_Shutdown = ret ()\<rparr>"

definition calm_server :: ts_server where
  "calm_server =
     \<lparr>ts_upsert = \<lambda>_. ret (), ts_delete = \<lambda>_. ret (), ts_search = \<lambda>_ _. ret None, ts_collections = ret (),
      ts_retrieve = ret None, ts_create = ret (), ts_sprint = \<lambda>_. [], ts_parse_float = \<lambda>_. f64_zero\<rparr>"

definition calm_lib :: Infra where
  "calm_lib =
     \<lparr>inf_drivers = calm_drivers, inf_typesense = \<lambda>_ _ _. calm_server, inf_jwt = demo_jwt,
      inf_bcrypt = \<lparr>bc_generate = (\<lambda>salt pw cost. Inr pw), bc_compare = (=)\<rparr>,
      inf_validators = \<lparr>v_numeric = \<lambda>_. True, v_url = \<lambda>_. True, v_hostname_port = \<lambda>_. True, v_email = \<lambda>_. True\<rparr>,
      inf_limiter = \<lambda>_ l. ret \<lparr>rr_Limit = l, rr_Allowed = 1, rr_Remaining = 9, rr_RetryAfter = 0, rr_ResetAfter = 0\<rparr>,
      inf_cors = \<lambda>_ _. ([], None), inf_ws = \<lparr>ws_IsUpgrade = \<lambda>_. False, ws_Upgrade = \<lambda>_ _. Upgraded\<rparr>,
      inf_foreign = \<lambda>_ _ _. \<lparr>rep_status = 200, rep_body = Inr []\<rparr>, inf_pg_ping = ret (),
      inf_redis_keys = ret [], inf_text = \<lambda>_. []\<rparr>"


definition calm_process :: ApiProcess where
  "calm_process =
     \<lparr>ap_app = api_app calm_lib (read_config (\<lambda>_. [])) (Some calm_server),
      ap_tel = \<lparr>tel_enabled = False\<rparr>,
      ap_tasks = [BootstrapSearch, RunNotifier, RunRelay, RunHoldExpiry, ServeHTTP]\<rparr>"

lemma calm_start: "fst (api_start calm_lib (\<lambda>_. []) s) = Inr calm_process"
proof -
  have "Load (inf_validators calm_lib) (\<lambda>_. []) = Inr (read_config (\<lambda>_. []))" by code_simp
  moreover have "TypesenseAddr (read_config (\<lambda>_. [])) \<noteq> []" "\<not> OTELEnabled (read_config (\<lambda>_. []))" by code_simp+
  ultimately show ?thesis
    by (simp add: api_start_def api_construct_def Let_def Redis_Connect_def Postgres_Connect_def Typesense_Connect_def
        Mongo_Connect_def Telemetry_Setup_def BootstrapSchemas_def EnsureProductsCollection_def wrapping_def
        api_OnStart_def Migrate_def unless_def EnsureTopics_def calm_process_def of_sum_def
        calm_lib_def calm_drivers_def calm_server_def bindE_def attempt_def ignore_def ret_def
        split: prod.split sum.split)
qed

theorem deployment_keeps_inv_witness:
  "\<exists>d. deployments calm_lib (idle shop2 0) d \<and> dp_apis d = [calm_process]
     \<and> dp_sys d = snd (serve (ap_app calm_process) pay_request (snd (api_start calm_lib (\<lambda>_. []) shop2)))
     \<and> system_inv (dp_sys d)"
proof -
  have ok: "infra_ok calm_lib"
    by (simp add: infra_ok_def calm_lib_def harmless_drivers_def calm_drivers_def harmless_server_def
        calm_server_def harmless_ret)
  have inv: "system_inv shop2" by (rule reachable_inv [OF trades_reachable [OF shop2_run] shop0_inv])
  let ?s1 = "snd (api_start calm_lib (\<lambda>_. []) shop2)"
  let ?s2 = "snd (serve (ap_app calm_process) pay_request ?s1)"
  let ?d1 = "(idle shop2 0)\<lparr>dp_sys := ?s1, dp_apis := [calm_process]\<rparr>"
  have "deploy_step calm_lib (idle shop2 0) ?d1"
    using deploy_step.api_starts [of calm_lib "\<lambda>_. []" "idle shop2 0" calm_process ?s1]
      calm_start [of shop2] by (simp add: idle_def prod_eq_iff)
  moreover have "deploy_step calm_lib ?d1 (?d1\<lparr>dp_sys := ?s2, dp_apis := [calm_process]\<rparr>)"
    using deploy_step.api_works [of 0 ?d1 calm_process "HandleRequest pay_request" "Inr ()" ?s2 calm_lib]
    by (simp add: calm_process_def tasks_after_def ignore_def split: prod.split)
  ultimately have run: "deployments calm_lib (idle shop2 0) (?d1\<lparr>dp_sys := ?s2, dp_apis := [calm_process]\<rparr>)"
    by (blast intro: deployments.intros)
  from deployment_keeps_inv [OF ok inv run] run show ?thesis
    by (intro exI [of _ "?d1\<lparr>dp_sys := ?s2, dp_apis := [calm_process]\<rparr>"]) simp
qed

end
