(* ===== verification/Must.thy ===== *)
theory Must
  imports Store
begin

text \<open>
  Total correctness without faults.  \<open>must e m Q n d q\<close> says that \<open>m\<close>, run in the environment
  \<open>e\<close> at a tick not before \<open>n\<close>, on the tables \<open>d\<close> with the sequences \<open>q\<close> and whatever else the
  state holds, returns a value without an error and that \<open>Q\<close> holds of the value, a tick that has
  been reached, the tables and the sequences.  It is what the theorems of progress are proved
  with; \<open>db_wp\<close> only speaks of the runs that succeed.
\<close>

type_synonym 'a post = "'a \<Rightarrow> nat \<Rightarrow> db \<Rightarrow> (seqname \<Rightarrow> uint) \<Rightarrow> bool"

definition must :: "env \<Rightarrow> 'a io \<Rightarrow> 'a post \<Rightarrow> nat \<Rightarrow> db \<Rightarrow> (seqname \<Rightarrow> uint) \<Rightarrow> bool" where
  "must e m Q n d q = (\<forall>s. env s = e \<longrightarrow> n \<le> tick s \<longrightarrow> db s = d \<longrightarrow> seqs s = q \<longrightarrow>
     (\<exists>a s' n'. m s = (Inr a, s') \<and> env s' = e \<and> n' \<le> tick s' \<and> Q a n' (db s') (seqs s')))"

named_theorems must_intro \<open>rules for must\<close>

lemma mustI:
  "(\<And>s. env s = e \<Longrightarrow> n \<le> tick s \<Longrightarrow> db s = d \<Longrightarrow> seqs s = q
     \<Longrightarrow> \<exists>a s' n'. m s = (Inr a, s') \<and> env s' = e \<and> n' \<le> tick s' \<and> Q a n' (db s') (seqs s'))
   \<Longrightarrow> must e m Q n d q"
  by (simp add: must_def)

lemma mustD:
  assumes "must (env s) m Q (tick s) (db s) (seqs s)"
  obtains a s' n' where "m s = (Inr a, s')" and "env s' = env s" and "n' \<le> tick s'" and "Q a n' (db s') (seqs s')"
  using assms by (auto simp: must_def)

lemma must_mono:
  "must e m Q n d q \<Longrightarrow> (\<And>a n' d' q'. Q a n' d' q' \<Longrightarrow> Q' a n' d' q') \<Longrightarrow> must e m Q' n d q"
  by (fastforce simp: must_def)

lemma must_ret [must_intro]: "Q a n d q \<Longrightarrow> must e (ret a) Q n d q"
  by (auto simp: must_def ret_def)

lemma must_bindE [must_intro]:
  assumes "must e m (\<lambda>a. must e (f a) Q) n d q"
  shows "must e (bindE m f) Q n d q"
proof (rule mustI)
  fix s :: sys
  assume "env s = e" "n \<le> tick s" "db s = d" "seqs s = q"
  with assms obtain a s1 n1 where "m s = (Inr a, s1)" "env s1 = e" "n1 \<le> tick s1" "must e (f a) Q n1 (db s1) (seqs s1)"
    unfolding must_def [of e m] by blast
  then show "\<exists>b s' n'. bindE m f s = (Inr b, s') \<and> env s' = e \<and> n' \<le> tick s' \<and> Q b n' (db s') (seqs s')"
    by (auto simp: must_def bindE_def)
qed

lemma must_if [must_intro]:
  "(b \<Longrightarrow> must e m Q n d q) \<Longrightarrow> (\<not> b \<Longrightarrow> must e m' Q n d q) \<Longrightarrow> must e (if b then m else m') Q n d q"
  by simp

lemma must_query [must_intro]: "no_faults e \<Longrightarrow> Q (f d) n d q \<Longrightarrow> must e (query f) Q n d q"
  by (auto simp: must_def interact_defs intro!: exI [of _ n])

lemma must_sql [must_intro]:
  assumes nf: "no_faults e" and f: "\<And>t. \<exists>a d'. f t d = Inr (a, d') \<and> Q a n d' q"
  shows "must e (sql f) Q n d q"
proof (rule mustI)
  fix s :: sys
  assume s: "env s = e" "n \<le> tick s" "db s = d" "seqs s = q"
  obtain a d' where "f (clock e (Suc (tick s))) d = Inr (a, d')" "Q a n d' q" using f by blast
  with nf s show "\<exists>a s' n'. sql f s = (Inr a, s') \<and> env s' = e \<and> n' \<le> tick s' \<and> Q a n' (db s') (seqs s')"
    by (auto simp: sql_def interact_def intro!: exI [of _ n])
qed

lemma must_insert_row [must_intro]:
  assumes "no_faults e" and "uint (q k + 1) < 2 ^ 63" and "refuse (mk (q k + 1)) d = None"
    and "Q (mk (q k + 1)) n (add (mk (q k + 1)) d) (q(k := q k + 1))"
  shows "must e (insert_row k mk refuse add) Q n d q"
  using assms by (auto simp: must_def insert_row_def interact_def Let_def intro!: exI [of _ n])

lemma must_now [must_intro]: "(\<And>t. Q t n d q) \<Longrightarrow> must e now Q n d q"
  by (auto simp: must_def now_def intro!: exI [of _ n])

lemma must_new_uuid [must_intro]: "(\<And>k. n \<le> k \<Longrightarrow> Q (uuid e k) (Suc k) d q) \<Longrightarrow> must e new_uuid Q n d q"
  by (auto simp: must_def new_uuid_def)

lemma must_of_sum [must_intro]: "r = Inr a \<Longrightarrow> Q a n d q \<Longrightarrow> must e (of_sum r) Q n d q"
  by (auto simp: must_def of_sum_def)

lemma must_for_each:
  assumes "I xs n d q"
    and "\<And>x xs n d q. I (x # xs) n d q \<Longrightarrow> must e (f x) (\<lambda>_. I xs) n d q"
    and "\<And>n d q. I [] n d q \<Longrightarrow> Q () n d q"
  shows "must e (for_each f xs) Q n d q"
  using assms(1)
proof (induction xs arbitrary: n d q)
  case Nil
  then show ?case by (auto intro: must_ret assms(3))
next
  case (Cons x xs)
  have "must e (f x) (\<lambda>_. must e (for_each f xs) Q) n d q"
    using assms(2) [OF Cons.prems] by (rule must_mono) (rule Cons.IH)
  then show ?case by (simp add: must_bindE)
qed

lemma must_transaction [must_intro]:
  assumes "no_faults e" and "must e m Q n d q"
  shows "must e (transaction m) Q n d q"
proof (rule mustI)
  fix s :: sys
  assume s: "env s = e" "n \<le> tick s" "db s = d" "seqs s = q"
  then have "env (tock s) = e" "n \<le> tick (tock s)" "db (tock s) = d" "seqs (tock s) = q" by simp_all
  with assms(2) obtain a s1 n1 where "m (tock s) = (Inr a, s1)" "env s1 = e" "n1 \<le> tick s1" "Q a n1 (db s1) (seqs s1)"
    unfolding must_def by blast
  with s assms(1) show "\<exists>a s' n'. transaction m s = (Inr a, s') \<and> env s' = e \<and> n' \<le> tick s' \<and> Q a n' (db s') (seqs s')"
    by (auto simp: transaction_def intro!: exI [of _ n1])
qed

section \<open>Room in the sequences\<close>

text \<open>The sequences are ahead of the keys in their tables, can give \<open>n\<close> more, and the UUIDs
  that may be drawn from tick \<open>n\<close> on are not in use.\<close>

definition ahead :: "(seqname \<Rightarrow> uint) \<Rightarrow> db \<Rightarrow> bool" where
  "ahead q d =
     (list_all (\<lambda>o'. o_ID o' \<le> q SeqOrders) (orders d)
      \<and> list_all (\<lambda>i. oi_ID i \<le> q SeqOrderItems) (order_items d)
      \<and> list_all (\<lambda>r. rv_ID r \<le> q SeqReservations) (reservations d)
      \<and> list_all (\<lambda>p. pay_ID p \<le> q SeqPayments) (payments d)
      \<and> list_all (\<lambda>e. le_ID e \<le> q SeqLedger) (stock_ledger d)
      \<and> list_all (\<lambda>r. ev_ID r \<le> q SeqOutbox) (outbox_events d))"

definition room :: "nat \<Rightarrow> (seqname \<Rightarrow> uint) \<Rightarrow> bool" where
  "room n q = (\<forall>k. uint (q k) + int n < 2 ^ 63)"

definition fresh_uuids :: "env \<Rightarrow> nat \<Rightarrow> db \<Rightarrow> bool" where
  "fresh_uuids e n d = (\<forall>k\<ge>n. uuid e k \<notin> set (map ev_EventID (outbox_events d)))"

lemma uint_Suc:
  fixes w :: uint
  assumes "uint w + 1 < 2 ^ 63"
  shows "uint (w + 1) = uint w + 1"
  using assms by (simp add: uint_plus_if_size word_size)

lemma room_next:
  assumes "room (Suc n) q"
  shows "uint (q k + 1) < 2 ^ 63" and "room n (q(k := q k + 1))"
proof -
  have u: "uint (q j) + int (Suc n) < 2 ^ 63" for j using assms by (simp add: room_def)
  have "uint (q k) + 1 < 2 ^ 63" using u [of k] by simp
  then have 1: "uint (q k + 1) = uint (q k) + 1" by (rule uint_Suc)
  then show "uint (q k + 1) < 2 ^ 63" using u [of k] by simp
  show "room n (q(k := q k + 1))" using u 1 by (auto simp: room_def) (smt (verit) of_nat_Suc u)+
qed

lemma room_less: "room n q \<Longrightarrow> m \<le> n \<Longrightarrow> room m q"
  by (auto simp: room_def) (smt (verit) of_nat_mono)

lemma next_fresh:
  assumes "room (Suc n) q" and "(i :: uint) \<le> q k"
  shows "i \<noteq> q k + 1" and "i \<le> q k + 1"
proof -
  have "uint (q k + 1) = uint (q k) + 1"
    using assms(1) by (intro uint_Suc) (auto simp: room_def dest!: spec [of _ k])
  moreover have "uint i \<le> uint (q k)" using assms(2) by (simp add: word_le_def)
  ultimately show "i \<noteq> q k + 1" and "i \<le> q k + 1" by (auto simp: word_le_def)
qed

end
