(* ===== verification/Order_Accept.thy ===== *)
theory Order_Accept
  imports Demo Must
begin

text \<open>
  Which orders are accepted: without faults and with room in the sequences, \<open>CreateOrder\<close>
  succeeds exactly if the request is \<open>acceptable\<close>.  One half is progress (theory \<open>Must\<close>), the
  other follows from what a successful run does to the tables (theory \<open>Order_Spec\<close>) and from the
  invariants of the state it ends in.
\<close>

section \<open>Acceptable orders\<close>

definition on_shelf :: "CreateItem \<Rightarrow> ProductModel \<Rightarrow> bool" where
  "on_shelf it p = (p_ID p = ci_ProductID it \<and> p_DeletedAt p = None)"

definition priced :: "ProductModel list \<Rightarrow> CreateItem \<Rightarrow> line" where
  "priced ps it =
     \<lparr>ln_productID = ci_ProductID it, ln_qty = ci_Qty it,
      ln_price = (case List.find (on_shelf it) ps of None \<Rightarrow> f64_of_int 0 | Some p \<Rightarrow> p_Price p)\<rparr>"

definition available :: "ProductModel list \<Rightarrow> CreateItem \<Rightarrow> bool" where
  "available ps it = (ci_ProductID it \<noteq> 0 \<and> 0 < ci_Qty it
     \<and> (case List.find (on_shelf it) ps of None \<Rightarrow> False | Some p \<Rightarrow> ci_Qty it \<le> p_Stock p))"

definition finite_f64 :: "float64 \<Rightarrow> bool" where
  "finite_f64 x = (case x of Fin _ _ \<Rightarrow> True | _ \<Rightarrow> False)"

definition acceptable :: "db \<Rightarrow> CreateItem list \<Rightarrow> bool" where
  "acceptable d items = (items \<noteq> [] \<and> distinct (map ci_ProductID items)
     \<and> list_all (available (products d)) items
     \<and> finite_f64 (line_total (map (priced (products d)) items)))"

text \<open>What the columns and the product service ensure: stocks are of 32 bits, prices not negative.\<close>

definition sane_products :: "ProductModel list \<Rightarrow> bool" where
  "sane_products ps = list_all (\<lambda>p. is_int4 (p_Stock p) \<and> \<not> f64_less (p_Price p) (f64_of_int 0)) ps"

lemma available_row:
  assumes "available ps it"
  obtains p where "List.find (on_shelf it) ps = Some p" and "p \<in> set ps" and "on_shelf it p"
    and "ci_ProductID it \<noteq> 0" and "0 < ci_Qty it" and "ci_Qty it \<le> p_Stock p"
  using assms by (auto simp: available_def split: option.splits dest: find_SomeD)

lemma priced_sane:
  assumes "available ps it" and "sane_products ps"
  shows "0 < ln_qty (priced ps it) \<and> is_int4 (ln_qty (priced ps it))
    \<and> \<not> f64_less (ln_price (priced ps it)) (f64_of_int 0) \<and> ln_productID (priced ps it) \<in> set (map p_ID ps)"
  using assms(1)
proof (rule available_row)
  fix p assume p: "List.find (on_shelf it) ps = Some p" "p \<in> set ps" "on_shelf it p" "0 < ci_Qty it" "ci_Qty it \<le> p_Stock p"
  with assms(2) have "is_int4 (p_Stock p)" "\<not> f64_less (p_Price p) (f64_of_int 0)"
    by (simp_all add: sane_products_def list_all_iff)
  with p show ?thesis by (auto simp: priced_def on_shelf_def is_int4_def intro: rev_image_eqI)
qed

section \<open>Holding the stock\<close>

definition holds :: "CreateItem \<Rightarrow> time \<Rightarrow> ProductModel list \<Rightarrow> ProductModel list" where
  "holds it t ps = update_where (\<lambda>p. p_ID p = ci_ProductID it \<and> p_DeletedAt p = None \<and> ci_Qty it \<le> p_Stock p)
     (\<lambda>p. p\<lparr>p_Stock := p_Stock p - ci_Qty it, p_UpdatedAt := t\<rparr>) ps"

lemma find_holds:
  "List.find (on_shelf it') (holds it t ps) =
     map_option (\<lambda>p. if p_ID p = ci_ProductID it \<and> ci_Qty it \<le> p_Stock p
       then p\<lparr>p_Stock := p_Stock p - ci_Qty it, p_UpdatedAt := t\<rparr> else p) (List.find (on_shelf it') ps)"
  by (induction ps) (auto simp: holds_def on_shelf_def)

lemma holds_others:
  "priced (holds it t ps) = priced ps"
  "ci_ProductID it' \<noteq> ci_ProductID it \<Longrightarrow> available (holds it t ps) it' = available ps it'"
  by (auto simp: priced_def available_def find_holds on_shelf_def fun_eq_iff split: option.split dest: find_SomeD)

lemma holds_ids: "map p_ID (holds it t ps) = map p_ID ps"
  by (simp add: holds_def update_where_def)

lemma holds_sane: "0 < ci_Qty it \<Longrightarrow> sane_products ps \<Longrightarrow> sane_products (holds it t ps)"
  by (auto simp: sane_products_def holds_def update_where_def list_all_iff is_int4_def)

lemma hold_lines_must:
  assumes "no_faults e" and "sane_products (products d)" and "list_all (available (products d)) items"
    and "distinct (map ci_ProductID items)"
    and "\<And>ps. map p_ID ps = map p_ID (products d) \<Longrightarrow> sane_products ps
      \<Longrightarrow> Q (ls @ map (priced (products d)) items, foldl add_price tot (map (priced (products d)) items))
            n (d\<lparr>products := ps\<rparr>) q"
  shows "must e (hold_lines items ls tot) Q n d q"
  using assms(2-)
proof (induction items arbitrary: ls tot d)
  case Nil
  from Nil.prems(4) [of "products d"] Nil.prems(1) show ?case by (simp add: must_ret)
next
  case (Cons it its)
  from Cons.prems(2) obtain p where p: "List.find (on_shelf it) (products d) = Some p" "ci_Qty it \<le> p_Stock p"
    and it: "ci_ProductID it \<noteq> 0" "0 < ci_Qty it"
    by (auto simp: available_def split: option.splits)
  from find_SomeD [OF p(1)] have row: "p \<in> set (products d)" "on_shelf it p" by simp_all
  then have int: "is_int4 (ci_Qty it)"
    using Cons.prems(1) p(2) it(2) by (auto simp: sane_products_def list_all_iff is_int4_def)
  have take: "take_product (ci_ProductID it) = query (\<lambda>d. List.find (on_shelf it) (products d))"
    by (simp add: take_product_def on_shelf_def [abs_def])
  let ?l = "\<lparr>ln_productID = ci_ProductID it, ln_qty = ci_Qty it, ln_price = p_Price p\<rparr>"
  have l: "priced (products d) it = ?l" using p(1) by (simp add: priced_def)
  have price: "add_price tot ?l = f64_add tot (f64_mul (p_Price p) (f64_of_int (ci_Qty it)))"
    by (simp add: add_price_def)
  have rest: "must e (hold_lines its (ls @ [?l]) (f64_add tot (f64_mul (p_Price p) (f64_of_int (ci_Qty it))))) Q
      n (d\<lparr>products := holds it t (products d)\<rparr>) q" for t
  proof (rule Cons.IH)
    show "sane_products (products (d\<lparr>products := holds it t (products d)\<rparr>))"
      using holds_sane [OF it(2) Cons.prems(1)] by simp
    show "list_all (available (products (d\<lparr>products := holds it t (products d)\<rparr>))) its"
      using Cons.prems(2,3) by (fastforce simp: list_all_iff image_iff intro: holds_others(2) [THEN iffD2])
    show "distinct (map ci_ProductID its)" using Cons.prems(3) by simp
    fix ps
    assume "map p_ID ps = map p_ID (products (d\<lparr>products := holds it t (products d)\<rparr>))" "sane_products ps"
    then show "Q ((ls @ [?l]) @ map (priced (products (d\<lparr>products := holds it t (products d)\<rparr>))) its,
        foldl add_price (f64_add tot (f64_mul (p_Price p) (f64_of_int (ci_Qty it))))
          (map (priced (products (d\<lparr>products := holds it t (products d)\<rparr>))) its))
        n (d\<lparr>products := holds it t (products d), products := ps\<rparr>) q"
      using Cons.prems(4) [of ps] by (simp add: holds_ids holds_others(1) l price)
  qed
  have some: "filter (\<lambda>p. p_ID p = ci_ProductID it \<and> p_DeletedAt p = None \<and> ci_Qty it \<le> p_Stock p) (products d) \<noteq> []"
    using row p(2) by (auto simp: filter_empty_conv on_shelf_def)
  have hold: "must e (hold_stock (ci_ProductID it) (ci_Qty it)) (\<lambda>k n' d' q'. k \<noteq> 0 \<and> n' = n \<and> q' = q
      \<and> (\<exists>t. d' = d\<lparr>products := holds it t (products d)\<rparr>)) n d q"
    unfolding hold_stock_def by (rule must_sql [OF assms(1)]) (use int some in \<open>auto simp: Let_def holds_def\<close>)
  show ?case
    unfolding hold_lines.simps take
    using it by (auto intro!: must_bindE must_query [OF assms(1)] must_mono [OF hold] rest simp: p(1))
qed

section \<open>Writing the order\<close>

lemma ahead_fresh:
  assumes "room (Suc n) q" and "list_all (\<lambda>x. f x \<le> q k) xs"
  shows "q k + 1 \<notin> set (map f xs)"
  using next_fresh(1) [OF assms(1)] assms(2) by (fastforce simp: list_all_iff)

lemma ahead_next: "room (Suc n) q \<Longrightarrow> ahead q d \<Longrightarrow> ahead (q(k := q k + 1)) d"
  using next_fresh(2) by (fastforce simp: ahead_def list_all_iff)

lemma char_length_short: "length t \<le> n \<Longrightarrow> char_length t \<le> n"
  using length_filter_le le_trans unfolding char_length_def by blast

lemma short_constants:
  "char_length OrderPendingPayment \<le> 32" "char_length ''IDR'' \<le> 8" "char_length ReservationHeld \<le> 16"
  "char_length ReasonHold \<le> 32" "char_length ''order'' \<le> 64" "char_length EventOrderCreated \<le> 64"
  by (rule char_length_short, simp add: str_consts)+

text \<open>The lines still to write, with room for \<open>k\<close> more keys and for the event; no UUID has been
  drawn since tick \<open>n0\<close>, when the outbox held \<open>ob\<close>.\<close>

definition writable :: "nat \<Rightarrow> nat \<Rightarrow> EventRow list \<Rightarrow> uint \<Rightarrow> line list \<Rightarrow> nat \<Rightarrow> db \<Rightarrow> (seqname \<Rightarrow> uint) \<Rightarrow> bool" where
  "writable k n0 ob oid ls n d q = (room (3 * length ls + Suc k) q \<and> ahead q d \<and> n = n0 \<and> outbox_events d = ob
     \<and> oid \<in> set (map o_ID (orders d)) \<and> sane_products (products d) \<and> distinct (map ln_productID ls)
     \<and> list_all (\<lambda>l. 0 < ln_qty l \<and> is_int4 (ln_qty l) \<and> \<not> f64_less (ln_price l) (f64_of_int 0)
          \<and> ln_productID l \<in> set (map p_ID (products d))
          \<and> (oid, ln_productID l) \<notin> set (map (\<lambda>r. (rv_OrderID r, rv_ProductID r)) (reservations d))) ls)"

lemma insert_line_must:
  assumes nf: "no_faults e" and w: "writable k n0 ob oid (l # ls) n d q"
  shows "must e (insert_line oid t l) (\<lambda>_. writable k n0 ob oid ls) n d q"
proof -
  have r: "room (Suc (Suc (Suc (3 * length ls + Suc k)))) q" using w by (simp add: writable_def eval_nat_numeral)
  have a: "ahead q d" and l: "0 < ln_qty l" "is_int4 (ln_qty l)" "\<not> f64_less (ln_price l) (f64_of_int 0)"
    "ln_productID l \<in> set (map p_ID (products d))" "oid \<in> set (map o_ID (orders d))"
    "(oid, ln_productID l) \<notin> set (map (\<lambda>r. (rv_OrderID r, rv_ProductID r)) (reservations d))"
    using w by (simp_all add: writable_def)
  let ?q1 = "q(SeqOrderItems := q SeqOrderItems + 1)"
  let ?q2 = "?q1(SeqReservations := ?q1 SeqReservations + 1)"
  let ?q3 = "?q2(SeqLedger := ?q2 SeqLedger + 1)"
  note r1 = room_next [OF r, of SeqOrderItems] and r2 = room_next [OF room_next(2) [OF r, of SeqOrderItems], of SeqReservations]
  note r3 = room_next [OF r2(2), of SeqLedger]
  have bal: "is_int4 (case List.find (\<lambda>p. p_ID p = pid) (products d) of None \<Rightarrow> 0 | Some p \<Rightarrow> p_Stock p)" for pid
  proof (cases "List.find (\<lambda>p. p_ID p = pid) (products d)")
    case (Some p)
    have "sane_products (products d)" using w by (simp add: writable_def)
    with find_SomeD [OF Some] Some show ?thesis by (simp add: sane_products_def list_all_iff)
  qed (simp add: is_int4_def)
  have neg: "is_int4 (- ln_qty l)" using l(1,2) by (auto simp: is_int4_def)
  show ?thesis
    unfolding insert_line_def Append_def scan_stock_def
  proof (intro must_bindE must_insert_row must_query must_now must_ret nf r1(1) r2(1) r3(1), goal_cases)
    case 1
    then show ?case
      using l ahead_fresh [OF r, of oi_ID SeqOrderItems "order_items d"] a
      by (simp add: item_refuse_def ahead_def)
  next
    case 2
    then show ?case
      using l ahead_fresh [OF r1(2), of rv_ID SeqReservations "reservations d"] a short_constants
      by (simp add: reservation_refuse_def add_item_def ahead_def)
  next
    case (3 t')
    then show ?case
      using l neg bal ahead_fresh [OF r2(2), of le_ID SeqLedger "stock_ledger d"] a short_constants
      by (simp add: ledger_refuse_def add_item_def add_reservation_def ahead_def)
  next
    case (4 t')
    have "ahead ?q3 d" by (intro ahead_next [OF r2(2)] ahead_next [OF r1(2)] ahead_next [OF r] a)
    moreover have "\<forall>l'\<in>set ls. ln_productID l' \<noteq> ln_productID l"
      using w by (auto simp: writable_def image_iff)
    ultimately show ?case using w r3(2)
      by (auto simp: writable_def ahead_def add_item_def add_reservation_def add_ledger_def list_all_iff)
  qed
qed

lemma created_payload_marshals:
  "finite_f64 (o_Total o') \<Longrightarrow> \<exists>body. marshal (GMap (created_payload o')) = Inr body"
  by (auto simp: created_payload_def finite_f64_def split: float64.splits)

lemma Enqueue_must:
  assumes "no_faults e" and "room (Suc k) q" and "ahead q d" and "fresh_uuids e n d" and "marshal (GMap payload) = Inr body"
    and "length ty \<le> 64" and "length ev \<le> 64"
    and Q: "\<And>j t. n \<le> j \<Longrightarrow> Q (uuid e j) (Suc j) (add_outbox
      \<lparr>ev_ID = q SeqOutbox + 1, ev_EventID = uuid e j, ev_AggregateType = ty, ev_AggregateID = i, ev_EventType = ev,
       ev_Payload = body, ev_CreatedAt = t, ev_PublishedAt = None\<rparr> d) (q(SeqOutbox := q SeqOutbox + 1))"
  shows "must e (Enqueue ty i ev payload) Q n d q"
proof -
  have refuse: "outbox_refuse \<lparr>ev_ID = q SeqOutbox + 1, ev_EventID = uuid e j, ev_AggregateType = ty,
      ev_AggregateID = i, ev_EventType = ev, ev_Payload = body, ev_CreatedAt = t, ev_PublishedAt = None\<rparr> d = None"
    if "n \<le> j" for j t
    using that assms ahead_fresh [OF assms(2), of ev_ID SeqOutbox "outbox_events d"] char_length_short
    by (simp add: outbox_refuse_def ahead_def fresh_uuids_def)
  show ?thesis
    unfolding Enqueue_def assms(5) sum.case
    by (intro must_bindE must_new_uuid must_now must_insert_row must_ret assms(1) room_next(1) [OF assms(2)] refuse Q)
qed

text \<open>What an order that is accepted leaves: room for \<open>k\<close> more keys, and one more event, whose UUID
  is new.\<close>

definition accepted :: "env \<Rightarrow> nat \<Rightarrow> nat \<Rightarrow> EventRow list \<Rightarrow> nat \<Rightarrow> db \<Rightarrow> (seqname \<Rightarrow> uint) \<Rightarrow> bool" where
  "accepted e k n0 ob n d q = (room k q \<and> ahead q d
     \<and> (\<exists>j row. n0 \<le> j \<and> n = Suc j \<and> outbox_events d = ob @ [row] \<and> ev_EventID row = uuid e j))"

lemma accepted_fresh:
  assumes "accepted e k n0 (outbox_events d0) n d q" and "fresh_uuids e n0 d0" and "inj (uuid e)"
  shows "fresh_uuids e n d"
proof -
  from assms(1) obtain j row where j: "n0 \<le> j" "n = Suc j" "outbox_events d = outbox_events d0 @ [row]" "ev_EventID row = uuid e j"
    by (auto simp: accepted_def)
  have "uuid e i \<notin> set (map ev_EventID (outbox_events d))" if "Suc j \<le> i" for i
  proof -
    have "uuid e i \<noteq> uuid e j" using assms(3) that by (auto dest: injD)
    moreover have "uuid e i \<notin> set (map ev_EventID (outbox_events d0))" using assms(2) that j(1) by (simp add: fresh_uuids_def)
    ultimately show ?thesis using j by simp
  qed
  then show ?thesis by (simp add: fresh_uuids_def j(2))
qed

lemma CreateOrder_must:
  assumes nf: "no_faults e" and r: "room (3 * length items + 2 + k) q" and a: "ahead q d" and fresh: "fresh_uuids e n d"
    and sane: "sane_products (products d)" and refs: "refs_ok d" and user: "userID \<in> set (map u_ID (users d))"
    and ok: "acceptable d items"
  shows "must e (CreateOrder userID items) (\<lambda>o' n' d' q'. o_ID o' \<noteq> 0 \<and> accepted e k n (outbox_events d) n' d' q') n d q"
proof -
  let ?ls = "map (priced (products d)) items" and ?Q = "\<lambda>o' n' d' q'. o_ID o' \<noteq> 0 \<and> accepted e k n (outbox_events d) n' d' q'"
  let ?q1 = "q(SeqOrders := q SeqOrders + 1)"
  have r': "room (Suc (3 * length items + Suc k)) q" using r by simp
  note r1 = room_next [OF r', of SeqOrders]
  have suc: "uint (q SeqOrders + 1) = uint (q SeqOrders) + 1"
    using r' by (intro uint_Suc) (auto simp: room_def dest!: spec [of _ SeqOrders])
  have id: "q SeqOrders + 1 \<noteq> 0"
  proof
    assume "q SeqOrders + 1 = 0"
    with suc have "uint (q SeqOrders) + 1 = 0" by simp
    moreover have "0 \<le> uint (q SeqOrders)" by simp
    ultimately show False by linarith
  qed
  have items: "items \<noteq> []" "distinct (map ci_ProductID items)" "list_all (available (products d)) items"
    "finite_f64 (line_total ?ls)" using ok by (simp_all add: acceptable_def)
  have lines: "list_all (\<lambda>l. 0 < ln_qty l \<and> is_int4 (ln_qty l) \<and> \<not> f64_less (ln_price l) (f64_of_int 0)
      \<and> ln_productID l \<in> set (map p_ID (products d))) ?ls"
    using items(3) sane priced_sane by (auto simp: list_all_iff)
  have pids: "map ln_productID ?ls = map ci_ProductID items" by (simp add: priced_def)
  have told: "must e (bindE (Enqueue ''order'' (o_ID o') EventOrderCreated (created_payload o')) (\<lambda>_. ret o')) ?Q n' d' q'"
    if o': "o_Total o' = line_total ?ls" "o_ID o' \<noteq> 0" and w: "writable k n (outbox_events d) (o_ID o') [] n' d' q'" for o' n' d' q'
  proof -
    obtain body where body: "marshal (GMap (created_payload o')) = Inr body"
      using created_payload_marshals items(4) o'(1) by fastforce
    have w': "room (Suc k) q'" "ahead q' d'" "n' = n" "outbox_events d' = outbox_events d"
      using w by (simp_all add: writable_def)
    have new: "fresh_uuids e n' d'" using fresh w' by (simp add: fresh_uuids_def)
    show ?thesis
    proof (intro must_bindE must_ret Enqueue_must [OF nf w'(1,2) new body])
      fix j t
      assume "n' \<le> j"
      then show "o_ID o' \<noteq> 0 \<and> accepted e k n (outbox_events d) (Suc j) (add_outbox \<lparr>ev_ID = q' SeqOutbox + 1, ev_EventID = uuid e j,
          ev_AggregateType = ''order'', ev_AggregateID = o_ID o', ev_EventType = EventOrderCreated,
          ev_Payload = body, ev_CreatedAt = t, ev_PublishedAt = None\<rparr> d') (q'(SeqOutbox := q' SeqOutbox + 1))"
        using room_next(2) [OF w'(1), of SeqOutbox] ahead_next [OF w'(1,2), of SeqOutbox] w'
        by (simp add: accepted_def add_outbox_def ahead_def o'(2))
    qed (simp_all add: str_consts)
  qed
  have written: "must e (for_each (insert_line (o_ID o') t) ?ls) (\<lambda>_.
        must e (bindE (Enqueue ''order'' (o_ID o') EventOrderCreated (created_payload o')) (\<lambda>_. ret o')) ?Q)
      n (add_order o' (d\<lparr>products := ps\<rparr>)) ?q1"
    if ps: "map p_ID ps = map p_ID (products d)" "sane_products ps"
      and o': "o_ID o' = q SeqOrders + 1" "o_Total o' = line_total ?ls" for t o' ps
  proof (rule must_for_each [where I = "writable k n (outbox_events d) (o_ID o')"])
    have "(o_ID o', i) \<notin> set (map (\<lambda>r. (rv_OrderID r, rv_ProductID r)) (reservations d))" for i
      using refs ahead_fresh [OF r', of o_ID SeqOrders "orders d"] a
      by (auto simp: refs_ok_def ahead_def o'(1))
    then show "writable k n (outbox_events d) (o_ID o') ?ls n (add_order o' (d\<lparr>products := ps\<rparr>)) ?q1"
      using r1(2) ahead_next [OF r' a, of SeqOrders] ps lines items(2)
      unfolding writable_def pids
      by (auto simp: add_order_def ahead_def list_all_iff o')
    show "must e (insert_line (o_ID o') t l) (\<lambda>_. writable k n (outbox_events d) (o_ID o') ls) n' d' q'"
      if "writable k n (outbox_events d) (o_ID o') (l # ls) n' d' q'" for l ls n' d' q'
      using nf that by (rule insert_line_must)
  qed (rule told [OF o'(2)], simp_all add: o'(1) id)
  have order: "must e (bindE now (\<lambda>t.
      bindE (insert_row SeqOrders
         (\<lambda>i. \<lparr>o_ID = i, o_UserID = userID, o_Status = OrderPendingPayment,
            o_Total = foldl add_price (f64_of_int 0) ?ls, o_Currency = ''IDR'', o_Version = 1,
            o_CreatedAt = t, o_UpdatedAt = t\<rparr>) order_refuse add_order) (\<lambda>order.
      bindE (for_each (insert_line (o_ID order) t) ?ls) (\<lambda>_.
      bindE (Enqueue ''order'' (o_ID order) EventOrderCreated (created_payload order)) (\<lambda>_. ret order)))))
      ?Q n (d\<lparr>products := ps\<rparr>) q"
    if ps: "map p_ID ps = map p_ID (products d)" "sane_products ps" for ps
  proof (intro must_bindE must_now must_insert_row nf r1(1))
    fix t
    let ?o = "\<lparr>o_ID = q SeqOrders + 1, o_UserID = userID, o_Status = OrderPendingPayment,
      o_Total = foldl add_price (f64_of_int 0) ?ls, o_Currency = ''IDR'', o_Version = 1, o_CreatedAt = t, o_UpdatedAt = t\<rparr>"
    show "order_refuse ?o (d\<lparr>products := ps\<rparr>) = None"
      using user ahead_fresh [OF r', of o_ID SeqOrders "orders d"] a short_constants
      by (simp add: order_refuse_def ahead_def)
    show "must e (for_each (insert_line (o_ID ?o) t) ?ls) (\<lambda>_.
        must e (bindE (Enqueue ''order'' (o_ID ?o) EventOrderCreated (created_payload ?o)) (\<lambda>_. ret ?o)) ?Q)
        n (add_order ?o (d\<lparr>products := ps\<rparr>)) ?q1"
      by (rule written [OF ps]) (simp_all add: line_total_def)
  qed
  show ?thesis
    unfolding CreateOrder_def CreateOrder_tx_def if_not_P [OF items(1)]
    by (intro must_transaction nf must_bindE hold_lines_must sane items(2,3); unfold prod.case append_Nil)
      (rule order)
qed

section \<open>What an accepted order shows\<close>

lemma db_wp_const: "P \<Longrightarrow> db_wp m (\<lambda>_ _. P) d"
  by (simp add: db_wp_def)

lemma created_ids:
  assumes "keys_ok d"
  shows "db_wp (CreateOrder_tx userID items) (\<lambda>_ _. \<forall>it\<in>set items. ci_ProductID it \<noteq> 0) d"
  unfolding CreateOrder_tx_def
  by (intro db_wp_if db_wp_throw db_wp_bindE hold_lines_rule [OF assms])
    (auto simp: held_lines_def split: prod.split intro!: db_wp_const)

lemma qty_of_member:
  "list_all (\<lambda>it. 0 < ci_Qty it) items \<Longrightarrow> it \<in> set items
   \<Longrightarrow> ci_Qty it \<le> qty_of (ci_ProductID it) (map ci_pair items)"
proof (induction items)
  case (Cons x xs)
  have "0 \<le> qty_of i (map ci_pair xs)" for i
    using Cons.prems(1) by (induction xs) (auto simp: ci_pair_def)
  with Cons show ?case by (auto simp: ci_pair_def [of x])
qed simp

lemma find_on_shelf:
  assumes "distinct (map p_ID ps)" and "p \<in> set ps" and "on_shelf it p"
  shows "List.find (on_shelf it) ps = Some p"
proof (cases "List.find (on_shelf it) ps")
  case None
  with assms(2,3) show ?thesis by (auto dest: find_NoneD)
next
  case (Some r)
  with find_SomeD [OF Some] assms show ?thesis by (auto simp: on_shelf_def dest: key_unique)
qed

lemma created_acceptable:
  assumes keys: "keys_ok d" and made: "created userID items o' d d'" and ids: "\<forall>it\<in>set items. ci_ProductID it \<noteq> 0"
    and keys': "keys_ok d'" and stock: "stock_inv d'"
  shows "acceptable d items"
proof -
  from made obtain ls ps row d1 where ls: "items \<noteq> []" "map ln_pair ls = map ci_pair items"
    "\<And>l. l \<in> set ls \<Longrightarrow> 0 < ln_qty l" "\<And>l. l \<in> set ls \<Longrightarrow> on_sale (products d) l"
    and o': "pending_order userID (line_total ls) o'"
    and ps: "shifted (\<lambda>i. - qty_of i (map ci_pair items)) (products d) ps"
    and ins: "inserted (o_ID o') ls (d\<lparr>products := ps, orders := orders d @ [o']\<rparr>) d1"
    and row: "enqueued ''order'' (o_ID o') EventOrderCreated (created_payload o') row" "d' = add_outbox row d1"
    unfolding created_def by auto
  from ins obtain rs where rs: "list_all2 (hold_for (o_ID o')) ls rs" "reservations d' = reservations d @ rs"
    and prods: "products d' = ps"
    by (auto simp: inserted_def row(2) add_outbox_def)
  have pair: "list_all2 (\<lambda>l it. ln_pair l = ci_pair it) ls items"
    using ls(2) by (auto simp: list_all2_conv_all_nth list_eq_iff_nth_eq)
  have dist: "distinct (map p_ID (products d))" using keys by (simp add: keys_ok_def)
  have shelf: "\<exists>p. List.find (on_shelf it) (products d) = Some p \<and> p \<in> set (products d) \<and> p_ID p = ci_ProductID it
      \<and> priced (products d) it = l \<and> 0 < ci_Qty it"
    if l: "l \<in> set ls" and it: "ln_pair l = ci_pair it" for l it
  proof -
    from ls(4) [OF l] obtain p where "p \<in> set (products d)" "p_ID p = ln_productID l" "p_DeletedAt p = None"
      "p_Price p = ln_price l" by (auto simp: on_sale_def)
    with it find_on_shelf [OF dist, of p it] ls(3) [OF l] show ?thesis
      by (auto simp: ln_pair_def ci_pair_def on_shelf_def priced_def)
  qed
  have "list_all2 (\<lambda>l it. priced (products d) it = l \<and> 0 < ci_Qty it) ls items"
    using pair by (rule list.rel_mono_strong) (use shelf in blast)
  then have lines: "map (priced (products d)) items = ls" and pos: "list_all (\<lambda>it. 0 < ci_Qty it) items"
    by (induction rule: list_all2_induct) auto
  have "map (\<lambda>r. (rv_OrderID r, rv_ProductID r)) rs = map (Pair (o_ID o')) (map ln_productID ls)"
    using rs(1) by (induction rule: list_all2_induct) (auto simp: hold_for_def)
  moreover have "distinct (map (\<lambda>r. (rv_OrderID r, rv_ProductID r)) rs)"
    using keys' rs(2) by (simp add: keys_ok_def)
  ultimately have "distinct (map ln_productID ls)" by (auto simp: distinct_map inj_on_def)
  moreover have "map ln_productID ls = map ci_ProductID items" unfolding lines [symmetric] by (simp add: priced_def)
  moreover have "available (products d) it" if it: "it \<in> set items" for it
  proof -
    have "priced (products d) it \<in> set ls" using it lines by auto
    moreover have "ln_pair (priced (products d) it) = ci_pair it" by (simp add: priced_def ln_pair_def ci_pair_def)
    ultimately obtain p where p: "List.find (on_shelf it) (products d) = Some p" "p \<in> set (products d)"
      "p_ID p = ci_ProductID it" "0 < ci_Qty it" using shelf by blast
    obtain i where i: "i < length (products d)" "products d ! i = p" using p(2) by (auto simp: in_set_conv_nth)
    with ps p(3) have "ps ! i \<in> set ps" "p_Stock (ps ! i) = p_Stock p - qty_of (ci_ProductID it) (map ci_pair items)"
      by (auto simp: shifted_def list_all2_conv_all_nth)
    with stock prods qty_of_member [OF pos it] have "ci_Qty it \<le> p_Stock p" by (auto simp: stock_inv_def)
    with p ids it show ?thesis by (simp add: available_def)
  qed
  moreover have "finite_f64 (line_total ls)"
    using row(1) o' by (auto simp: enqueued_def created_payload_def pending_order_def finite_f64_def split: float64.splits sum.splits)
  ultimately show ?thesis using ls(1) by (simp add: acceptable_def lines list_all_iff)
qed

text \<open>C8. Without faults, with room in the sequences and fresh UUIDs, an order is accepted exactly if
  it can be: it has an item, no product twice, every quantity is positive and in stock of a product
  that is on sale, and the total is a finite number.  A product that is listed twice is thus always
  refused, although there may be enough of it.\<close>

theorem CreateOrder_accepts_iff:
  assumes "system_inv s" and "no_faults (env s)" and "room (3 * length items + 2) (seqs s)"
    and "ahead (seqs s) (db s)" and "fresh_uuids (env s) (tick s) (db s)" and "sane_products (products (db s))"
    and "userID \<in> set (map u_ID (users (db s)))"
  shows "(\<exists>order s'. CreateOrder userID items s = (Inr order, s')) \<longleftrightarrow> acceptable (db s) items"
proof
  assume "\<exists>order s'. CreateOrder userID items s = (Inr order, s')"
  then obtain order s' where run: "CreateOrder userID items s = (Inr order, s')" by blast
  have keys: "keys_ok (db s)" using assms(1) by (simp add: system_inv_def inv_keys)
  have "system_inv s'" using trade_inv [OF trade.create [OF run] assms(1)] by simp
  then have "keys_ok (db s')" and "stock_inv (db s')" by (simp_all add: system_inv_def inv_keys shop_inv_def)
  moreover have "db_wp (CreateOrder_tx userID items) (\<lambda>o' d'. created userID items o' (db s) d'
      \<and> (\<forall>it\<in>set items. ci_ProductID it \<noteq> 0)) (db s)"
    by (intro db_wp_conj created_ids CreateOrder_rule keys)
  with transaction_atomic [OF run [unfolded CreateOrder_def]]
  have "created userID items order (db s) (db s')" "\<forall>it\<in>set items. ci_ProductID it \<noteq> 0"
    by (auto simp: db_wp_def)
  ultimately show "acceptable (db s) items" by (intro created_acceptable [OF keys])
next
  assume ok: "acceptable (db s) items"
  have "refs_ok (db s)" using assms(1) by (simp add: system_inv_def shop_inv_def schema_ok_def)
  from mustD [OF CreateOrder_must [where k = 0, unfolded add_0_right, OF assms(2-6) this assms(7) ok]]
  show "\<exists>order s'. CreateOrder userID items s = (Inr order, s')" by blast
qed

theorem CreateOrder_accepts_iff_witness:
  "(\<exists>order s'. CreateOrder 1 basket shop0 = (Inr order, s'))
   \<and> \<not> (\<exists>order s'. CreateOrder 1 [\<lparr>ci_ProductID = 1, ci_Qty = 9\<rparr>] shop0 = (Inr order, s'))
   \<and> \<not> (\<exists>order s'. CreateOrder 1 (basket @ basket) shop0 = (Inr order, s'))"
proof -
  have hyps: "no_faults (env shop0)" "ahead (seqs shop0) (db shop0)" "fresh_uuids (env shop0) (tick shop0) (db shop0)"
    "1 \<in> set (map u_ID (users (db shop0)))"
    by (simp_all add: shop0_def quiet_def no_faults_def db0_def ahead_def fresh_uuids_def alice_def)
  have sane: "sane_products (products (db shop0))" by code_simp
  have iff: "(\<exists>order s'. CreateOrder 1 items shop0 = (Inr order, s')) \<longleftrightarrow> acceptable (db shop0) items"
    if "length items \<le> 2" for items
  proof (rule CreateOrder_accepts_iff [OF shop0_inv hyps(1) _ hyps(2,3) sane hyps(4)])
    show "room (3 * length items + 2) (seqs shop0)" using that by (simp add: shop0_def room_def)
  qed
  have "acceptable (db shop0) basket" "\<not> acceptable (db shop0) [\<lparr>ci_ProductID = 1, ci_Qty = 9\<rparr>]"
    "\<not> acceptable (db shop0) (basket @ basket)" by code_simp+
  then show ?thesis using iff [of basket] iff [of "[\<lparr>ci_ProductID = 1, ci_Qty = 9\<rparr>]"] iff [of "basket @ basket"]
    by (simp add: basket_def)
qed

end
