(* ===== verification/Charge_Live.thy ===== *)
theory Charge_Live
  imports Order_Accept
begin

text \<open>
  The payment worker makes progress: without faults it handles the event of an order that can be
  paid, the order is then paid, its reservations are committed, and no later delivery of the event
  changes anything.  The progress is proved with \<open>must\<close>; what the run does to the tables is
  \<open>charge_rule\<close> of theory \<open>Payment_Worker\<close>.
\<close>

section \<open>Committing\<close>

definition same_but_ledger :: "db \<Rightarrow> db \<Rightarrow> bool" where
  "same_but_ledger d0 d = (products d = products d0 \<and> orders d = orders d0 \<and> reservations d = reservations d0
     \<and> payments d = payments d0 \<and> outbox_events d = outbox_events d0 \<and> processed_events d = processed_events d0)"

definition appendable :: "env \<Rightarrow> uint \<Rightarrow> db \<Rightarrow> ReservationModel list \<Rightarrow> nat \<Rightarrow> db \<Rightarrow> (seqname \<Rightarrow> uint) \<Rightarrow> bool" where
  "appendable e oid d0 rows n d q = (room (length rows + 1) q \<and> ahead q d \<and> fresh_uuids e n d
     \<and> same_but_ledger d0 d \<and> oid \<in> set (map o_ID (orders d0))
     \<and> list_all (\<lambda>r. rv_ProductID r \<in> set (map p_ID (products d0))) rows)"

lemma fresh_ledger [simp]: "fresh_uuids e n (add_ledger r d) = fresh_uuids e n d"
  by (simp add: fresh_uuids_def add_ledger_def)

lemma Append_must:
  assumes "no_faults e" and w: "appendable e oid d0 (row # rows) n d q"
  shows "must e (Append (rv_ProductID row) (Some oid) 0 ReasonCommit None) (\<lambda>_. appendable e oid d0 rows) n d q"
proof -
  have r: "room (Suc (length rows + 1)) q" using w by (simp add: appendable_def)
  note r1 = room_next [OF r, of SeqLedger]
  have a: "ahead (q(SeqLedger := q SeqLedger + 1)) d" using ahead_next [OF r] w by (simp add: appendable_def)
  have short: "char_length ReasonCommit \<le> 32" by (rule char_length_short) (simp add: str_consts)
  show ?thesis
    unfolding Append_def
  proof (intro must_bindE must_now must_insert_row must_ret assms(1) r1(1))
    fix t
    show "ledger_refuse \<lparr>le_ID = q SeqLedger + 1, le_ProductID = rv_ProductID row, le_OrderID = Some oid,
        le_Delta = 0, le_Reason = ReasonCommit, le_BalanceAfter = None, le_CreatedAt = t\<rparr> d = None"
      using w short ahead_fresh [OF r, of le_ID SeqLedger "stock_ledger d"]
      by (simp add: ledger_refuse_def appendable_def same_but_ledger_def ahead_def is_int4_def)
    show "appendable e oid d0 rows n (add_ledger \<lparr>le_ID = q SeqLedger + 1, le_ProductID = rv_ProductID row,
        le_OrderID = Some oid, le_Delta = 0, le_Reason = ReasonCommit, le_BalanceAfter = None, le_CreatedAt = t\<rparr> d)
        (q(SeqLedger := q SeqLedger + 1))"
      using w r1(2) a
      by (auto simp: appendable_def same_but_ledger_def ahead_def add_ledger_def fresh_ledger [unfolded add_ledger_def])
  qed
qed

lemma commit_must:
  assumes nf: "no_faults e" and r: "room (length (filter (held_of oid) (reservations d)) + 1) q" and a: "ahead q d"
    and fresh: "fresh_uuids e n d" and oid: "oid \<in> set (map o_ID (orders d))"
    and prods: "set (map rv_ProductID (reservations d)) \<subseteq> set (map p_ID (products d))"
    and Q: "\<And>n' d' q'. room 1 q' \<Longrightarrow> ahead q' d' \<Longrightarrow> fresh_uuids e n' d' \<Longrightarrow> orders d' = orders d \<Longrightarrow> Q () n' d' q'"
  shows "must e (commitHeld oid) Q n d q"
  unfolding commitHeld_def set_reservation_def find_held_def
proof (intro must_bindE must_now must_query nf, rule must_for_each [where I = "appendable e oid d"])
  fix t
  let ?rows = "filter (held_of oid) (reservations d)"
  show "appendable e oid d ?rows n d q"
    using r a fresh oid prods by (auto simp: appendable_def same_but_ledger_def list_all_iff)
  show "must e (Append (rv_ProductID row) (Some oid) 0 ReasonCommit None) (\<lambda>_. appendable e oid d rows) n' d' q'"
    if "appendable e oid d (row # rows) n' d' q'" for row rows n' d' q'
    using nf that by (rule Append_must)
  fix n' d' q'
  assume "appendable e oid d [] n' d' q'"
  then have d': "room 1 q'" "ahead q' d'" "fresh_uuids e n' d'" "orders d' = orders d"
    by (simp_all add: appendable_def same_but_ledger_def)
  show "must e (sql (\<lambda>_ d. Inr ((), d\<lparr>reservations := update_where (held_of oid)
      (\<lambda>r. r\<lparr>rv_Status := ReservationCommitted, rv_UpdatedAt := t\<rparr>) (reservations d)\<rparr>))) Q n' d' q'"
  proof (rule must_sql [OF nf], intro exI conjI, rule refl, rule Q)
    show "ahead q' (d'\<lparr>reservations := update_where (held_of oid)
      (\<lambda>r. r\<lparr>rv_Status := ReservationCommitted, rv_UpdatedAt := t\<rparr>) (reservations d')\<rparr>)"
      using d'(2) by (auto simp: ahead_def list_all_iff update_where_def)
  qed (use d'(1,3,4) in \<open>simp_all add: fresh_uuids_def\<close>)
qed

section \<open>Charging\<close>

definition chargeable :: "env \<Rightarrow> nat \<Rightarrow> OrderModel \<Rightarrow> string \<Rightarrow> db \<Rightarrow> (seqname \<Rightarrow> uint) \<Rightarrow> bool" where
  "chargeable e n order key d q = (room (length (filter (held_of (o_ID order)) (reservations d)) + 2) q
     \<and> ahead q d \<and> fresh_uuids e n d \<and> order \<in> set (orders d) \<and> is_int4 (o_Version order + 1)
     \<and> finite_f64 (o_Total order) \<and> char_length key \<le> 128
     \<and> (o_ID order, key) \<notin> set (map (\<lambda>p. (pay_OrderID p, pay_IdempotencyKey p)) (payments d))
     \<and> set (map rv_ProductID (reservations d)) \<subseteq> set (map p_ID (products d)))"

lemma paid_payload_marshals:
  "finite_f64 (o_Total o') \<Longrightarrow> \<exists>body. marshal (GMap (payment_payload o' st @ [(''total'', GFloat (o_Total o'))])) = Inr body"
  by (auto simp: payment_payload_def finite_f64_def split: float64.splits)

lemma charge_ok_must:
  assumes nf: "no_faults e" and c: "chargeable e n order key d q" and tr: "CanTransition (o_Status order) OrderPaid"
  shows "must e (charge_ok order key t)
    (\<lambda>_ _ d' _. \<forall>r\<in>set (orders d'). o_ID r = o_ID order \<longrightarrow> o_Status r = OrderPaid) n d q"
proof -
  let ?n = "length (filter (held_of (o_ID order)) (reservations d))"
  have r: "room (Suc (?n + 1)) q" and a: "ahead q d" using c by (simp_all add: chargeable_def)
  note r1 = room_next [OF r, of SeqPayments]
  have a1: "ahead (q(SeqPayments := q SeqPayments + 1)) d" by (rule ahead_next [OF r a])
  have short: "char_length PaymentSucceeded \<le> 32" "char_length ''worker-sim-ok'' \<le> 128"
    by (rule char_length_short, simp add: str_consts)+
  obtain body where body: "marshal (GMap (payment_payload order OrderPaid @ [(''total'', GFloat (o_Total order))])) = Inr body"
    using paid_payload_marshals c by (fastforce simp: chargeable_def)
  have next': "Transition (o_Status order) OrderPaid = Inr OrderPaid" using tr by (simp add: Transition_def)
  show ?thesis
    unfolding charge_ok_def next' sum.case new_payment_def update_order_def
  proof (intro must_bindE must_insert_row must_sql nf r1(1), goal_cases)
    case 1
    then show ?case
      using c short ahead_fresh [OF r, of pay_ID SeqPayments "payments d"]
      by (auto simp: payment_refuse_def chargeable_def ahead_def is_int4_def)
  next
    case (2 t')
    let ?d = "add_payment \<lparr>pay_ID = q SeqPayments + 1, pay_OrderID = o_ID order, pay_IdempotencyKey = key,
      pay_Status = PaymentSucceeded, pay_Amount = o_Total order, pay_ProviderRef = ''worker-sim-ok'',
      pay_Attempt = 1, pay_CreatedAt = t, pay_UpdatedAt = t\<rparr> d"
    let ?d2 = "?d\<lparr>orders := update_where (\<lambda>r. o_ID r = o_ID order)
      (\<lambda>r. r\<lparr>o_Status := OrderPaid, o_Version := o_Version order + 1, o_UpdatedAt := t\<rparr>) (orders ?d)\<rparr>"
    have "must e (commitHeld (o_ID order)) (\<lambda>_. must e (bindE (Enqueue ''order'' (o_ID order) EventOrderPaid
        (payment_payload order OrderPaid @ [(''total'', GFloat (o_Total order))])) (\<lambda>_. ret ()))
      (\<lambda>_ _ d' _. \<forall>r\<in>set (orders d'). o_ID r = o_ID order \<longrightarrow> o_Status r = OrderPaid)) n ?d2
      (q(SeqPayments := q SeqPayments + 1))"
    proof (rule commit_must [OF nf])
      show "room (length (filter (held_of (o_ID order)) (reservations ?d2)) + 1) (q(SeqPayments := q SeqPayments + 1))"
        using r1(2) by (simp add: add_payment_def)
      show "ahead (q(SeqPayments := q SeqPayments + 1)) ?d2"
        using a1 by (auto simp: ahead_def add_payment_def list_all_iff update_where_def)
      show "fresh_uuids e n ?d2" using c by (simp add: chargeable_def fresh_uuids_def add_payment_def)
      show "o_ID order \<in> set (map o_ID (orders ?d2))"
        using c by (force simp: chargeable_def add_payment_def update_where_def)
      show "set (map rv_ProductID (reservations ?d2)) \<subseteq> set (map p_ID (products ?d2))"
        using c by (simp add: chargeable_def add_payment_def)
      fix n' d' q'
      assume d': "room 1 q'" "ahead q' d'" "fresh_uuids e n' d'" "orders d' = orders ?d2"
      show "must e (bindE (Enqueue ''order'' (o_ID order) EventOrderPaid
          (payment_payload order OrderPaid @ [(''total'', GFloat (o_Total order))])) (\<lambda>_. ret ()))
        (\<lambda>_ _ d' _. \<forall>r\<in>set (orders d'). o_ID r = o_ID order \<longrightarrow> o_Status r = OrderPaid) n' d' q'"
        using d' body
        by (intro must_bindE Enqueue_must [OF nf, where k = 0 and body = body] must_ret)
          (auto simp: str_consts update_where_def add_payment_def add_outbox_def)
    qed
    from must_bindE [OF this] c show ?case by (simp add: chargeable_def)
  qed
qed

lemma charge_must:
  assumes nf: "no_faults e" and c: "chargeable e n order (''evt:'' @ e_ID event) d q"
    and tr: "CanTransition (o_Status order) OrderPaid" and keys: "keys_ok d"
    and new: "\<not> processed d ''payment'' (e_ID event)" and ty: "char_length (e_Type event) \<le> 64"
    and ok: "simulate_outcome event \<noteq> ''fail''"
  shows "must e (charge_tx event (o_ID order))
    (\<lambda>_ _ d' _. \<forall>r\<in>set (orders d'). o_ID r = o_ID order \<longrightarrow> o_Status r = OrderPaid) n d q"
proof -
  let ?Q = "\<lambda>_ _ d' _. \<forall>r\<in>set (orders d'). o_ID r = o_ID order \<longrightarrow> o_Status r = OrderPaid"
  have open': "\<not> (o_Status order = OrderPaid \<or> o_Status order = OrderFulfilled \<or> o_Status order = OrderCancelled)"
    using tr by (auto simp: CanTransition_def allowedTransitions_def str_consts)
  have found: "List.find (\<lambda>r. o_ID r = o_ID order) (orders d) = Some order"
  proof (cases "List.find (\<lambda>r. o_ID r = o_ID order) (orders d)")
    case None
    with c show ?thesis by (auto simp: chargeable_def dest: find_NoneD)
  next
    case (Some r)
    with find_SomeD [OF Some] c keys show ?thesis by (auto simp: chargeable_def keys_ok_def dest: key_unique)
  qed
  have unpaid: "List.find (\<lambda>p. pay_OrderID p = o_ID order \<and> pay_IdempotencyKey p = ''evt:'' @ e_ID event) (payments d) = None"
    using c by (auto simp: chargeable_def find_None_iff image_iff)
  have claim: "must e (Claim ''payment'' (e_ID event) (e_Type event))
    (\<lambda>b n' d' q'. b \<and> n' = n \<and> q' = q \<and> (\<exists>r. d' = add_inbox r d)) n d q"
    unfolding Claim_def insert_inbox_def
    by (intro must_bindE must_now must_sql nf must_ret)
      (use new ty in \<open>auto simp: add_inbox_def char_length_short not_less intro!: must_ret\<close>)
  have charge: "must e (charge_ok order (''evt:'' @ e_ID event) t) ?Q n (add_inbox r d) q" for r t
    by (rule charge_ok_must [OF nf _ tr])
      (use c in \<open>simp add: chargeable_def add_inbox_def ahead_def fresh_uuids_def\<close>)
  show ?thesis
    unfolding charge_tx_def Let_def find_order_def find_payment_def
    by (intro must_bindE must_mono [OF claim])
      (auto simp: add_inbox_def found unpaid [unfolded append.simps] open' ok
        intro!: must_bindE must_query [OF nf] must_now charge [unfolded add_inbox_def append.simps])
qed

section \<open>Exactly once\<close>

lemma charged_once:
  assumes "keys_ok (db s)" and "HandleOrderCreated msg s = (Inr (), s1)"
    and "set (processed_events (db s1)) \<subseteq> set (processed_events (db s2))"
    and "HandleOrderCreated msg s2 = (r, s3)"
  shows "db s3 = db s2"
proof -
  have "processed (db s1) ''payment'' (e_ID (msg_Event msg))"
    using assms(2) transaction_atomic charge_records [OF assms(1)]
    by (fastforce simp: HandleOrderCreated_unfold db_wp_def split: option.splits if_splits)
  then have "processed (db s2) ''payment'' (e_ID (msg_Event msg))"
    using assms(3) by (auto simp: processed_def)
  from charge_skips [OF this] assms(4) show ?thesis
    by (auto simp: HandleOrderCreated_unfold db_wp_def split: option.splits if_splits
        dest!: transaction_atomic)
qed

lemma order_charged:
  assumes inv: "system_inv s" and nf: "no_faults (env s)"
    and room: "room (length (filter (held_of (o_ID order)) (reservations (db s))) + 2) (seqs s)"
    and gap: "ahead (seqs s) (db s)" "fresh_uuids (env s) (tick s) (db s)"
    and order: "order \<in> set (orders (db s))" "o_ID order \<noteq> 0" "CanTransition (o_Status order) OrderPaid"
    and names: "asUint (uint_conv (env s)) (lookup (e_Payload (msg_Event msg)) ''orderId'') = Some (o_ID order)"
    and new: "\<not> processed (db s) ''payment'' (e_ID (msg_Event msg))"
      "(o_ID order, ''evt:'' @ e_ID (msg_Event msg)) \<notin> set (map (\<lambda>p. (pay_OrderID p, pay_IdempotencyKey p)) (payments (db s)))"
    and short: "length (e_ID (msg_Event msg)) \<le> 124" "length (e_Type (msg_Event msg)) \<le> 64"
    and total: "finite_f64 (o_Total order)"
    and ok: "simulate_outcome (msg_Event msg) \<noteq> ''fail''"
  shows "\<exists>s1 pay r. HandleOrderCreated msg s = (Inr (), s1)
     \<and> transitioned (committed (o_ID order)) (o_ID order) OrderPaid EventOrderPaid [pay] (add_inbox r (db s)) (db s1)"
proof -
  let ?event = "msg_Event msg" and ?oid = "o_ID order"
  have keys: "keys_ok (db s)" and refs: "refs_ok (db s)" and ver: "version_inv (orders (db s))"
    using inv by (simp_all add: system_inv_def inv_keys shop_inv_def schema_ok_def)
  have "1 \<le> o_Version order \<and> o_Version order \<le> 4"
    using ver order(1) by (fastforce simp: version_inv_def)
  then have "chargeable (env s) (tick s) order (''evt:'' @ e_ID ?event) (db s) (seqs s)"
    using room gap order(1) total new(2) short(1) refs
    by (auto simp: chargeable_def is_int4_def refs_ok_def intro!: char_length_short)
  note must_transaction [OF nf charge_must [OF nf this order(3) keys new(1) char_length_short [OF short(2)] ok]]
  then obtain s1 where run: "transaction (charge_tx ?event ?oid) s = (Inr (), s1)"
    and paid: "\<forall>r\<in>set (orders (db s1)). o_ID r = ?oid \<longrightarrow> o_Status r = OrderPaid" by (rule mustD) auto
  have handled: "HandleOrderCreated msg s = (Inr (), s1)"
    using run names order(2) by (simp add: HandleOrderCreated_unfold)
  have "db_wp (charge_tx ?event ?oid) (\<lambda>_ d'. orders d' = orders (db s)
      \<or> (\<exists>r pay. transitioned (committed ?oid) ?oid OrderPaid EventOrderPaid [pay] (add_inbox r (db s)) d')) (db s)"
    by (rule charge_rule [OF keys]) (use ok in \<open>auto simp: add_inbox_def\<close>)
  with transaction_atomic [OF run] have "orders (db s1) = orders (db s)
      \<or> (\<exists>r pay. transitioned (committed ?oid) ?oid OrderPaid EventOrderPaid [pay] (add_inbox r (db s)) (db s1))"
    by (auto simp: db_wp_def)
  moreover have "\<not> CanTransition OrderPaid OrderPaid"
    by (simp add: CanTransition_def allowedTransitions_def str_consts)
  then have "orders (db s1) \<noteq> orders (db s)" using paid order(1,3) by metis
  ultimately show ?thesis using handled by blast
qed

text \<open>C12. An order is charged exactly once.  Without faults and with room, the payment worker
  handles the event of an order that can be paid: it ends without an error, the order is then paid,
  its held reservations are committed, one payment of its total and the announcement are written.
  Every later delivery of the event, whatever happened in between, changes nothing.\<close>

theorem charged_exactly_once:
  assumes inv: "system_inv s" and nf: "no_faults (env s)"
    and room: "room (length (filter (held_of (o_ID order)) (reservations (db s))) + 2) (seqs s)"
    and gap: "ahead (seqs s) (db s)" "fresh_uuids (env s) (tick s) (db s)"
    and order: "order \<in> set (orders (db s))" "o_ID order \<noteq> 0" "CanTransition (o_Status order) OrderPaid"
    and names: "asUint (uint_conv (env s)) (lookup (e_Payload (msg_Event msg)) ''orderId'') = Some (o_ID order)"
    and new: "\<not> processed (db s) ''payment'' (e_ID (msg_Event msg))"
      "(o_ID order, ''evt:'' @ e_ID (msg_Event msg)) \<notin> set (map (\<lambda>p. (pay_OrderID p, pay_IdempotencyKey p)) (payments (db s)))"
    and short: "length (e_ID (msg_Event msg)) \<le> 124" "length (e_Type (msg_Event msg)) \<le> 64"
    and total: "finite_f64 (o_Total order)"
    and ok: "simulate_outcome (msg_Event msg) \<noteq> ''fail''"
  shows "\<exists>s1 pay r. HandleOrderCreated msg s = (Inr (), s1)
     \<and> transitioned (committed (o_ID order)) (o_ID order) OrderPaid EventOrderPaid [pay] (add_inbox r (db s)) (db s1)
     \<and> (\<forall>s2. set (processed_events (db s1)) \<subseteq> set (processed_events (db s2))
          \<longrightarrow> db (snd (HandleOrderCreated msg s2)) = db s2)"
proof -
  have keys: "keys_ok (db s)" using inv by (simp add: system_inv_def inv_keys)
  from order_charged [OF assms] obtain s1 pay r where s1: "HandleOrderCreated msg s = (Inr (), s1)"
    "transitioned (committed (o_ID order)) (o_ID order) OrderPaid EventOrderPaid [pay] (add_inbox r (db s)) (db s1)" by blast
  have "db (snd (HandleOrderCreated msg s2)) = db s2"
    if "set (processed_events (db s1)) \<subseteq> set (processed_events (db s2))" for s2
    by (rule charged_once [OF keys s1(1) that]) (rule surjective_pairing)
  with s1 show ?thesis by blast
qed

theorem charged_exactly_once_witness:
  "\<exists>s1 pay r. HandleOrderCreated (Fetch (topic_products shop2 ! 0)) shop2 = (Inr (), s1)
     \<and> transitioned (committed 1) 1 OrderPaid EventOrderPaid [pay] (add_inbox r (db shop2)) (db s1)
     \<and> db (snd (HandleOrderCreated (Fetch (topic_products shop2 ! 0)) s1)) = db s1"
proof -
  let ?msg = "Fetch (topic_products shop2 ! 0)" and ?order = "orders (db shop2) ! 0"
  have inv: "system_inv shop2" using trades_inv [OF shop2_run shop0_inv] by simp
  have "length (orders (db shop2)) = 1" by code_simp
  then have mem: "?order \<in> set (orders (db shop2))" by simp
  have nf: "no_faults (env shop2)" by (simp add: env_shop2 quiet_def no_faults_def)
  have gap: "ahead (seqs shop2) (db shop2)" by code_simp
  have "list_all (\<lambda>r. digits_val (ev_EventID r) < tick shop2) (outbox_events (db shop2))" by code_simp
  then have fresh: "fresh_uuids (env shop2) (tick shop2) (db shop2)"
    by (auto simp: fresh_uuids_def env_shop2 quiet_def list_all_iff) (metis digits_val_show_nat not_less)
  have id: "o_ID ?order = 1" by code_simp
  have facts: "CanTransition (o_Status ?order) OrderPaid"
    "asUint (uint_conv (env shop2)) (lookup (e_Payload (msg_Event ?msg)) ''orderId'') = Some 1"
    "\<not> processed (db shop2) ''payment'' (e_ID (msg_Event ?msg))" "payments (db shop2) = []"
    "length (e_ID (msg_Event ?msg)) \<le> 124" "length (e_Type (msg_Event ?msg)) \<le> 64"
    "finite_f64 (o_Total ?order)" "simulate_outcome (msg_Event ?msg) \<noteq> ''fail''"
    by code_simp+
  have room: "room (length (filter (held_of (o_ID ?order)) (reservations (db shop2))) + 2) (seqs shop2)"
  proof -
    have "list_all (\<lambda>k. uint (seqs shop2 k) < 100) [SeqUsers, SeqProducts, SeqOrders, SeqOrderItems,
      SeqReservations, SeqPayments, SeqIdempotency, SeqOutbox, SeqLedger, SeqWishlists]" by code_simp
    then have small: "uint (seqs shop2 k) < 100" for k by (cases k) simp_all
    have "room (n + 2) (seqs shop2)" if "n \<le> 1" for n
      unfolding room_def
    proof
      fix k show "uint (seqs shop2 k) + int (n + 2) < 2 ^ 63" using small [of k] that by simp
    qed
    moreover have "length (filter (held_of (o_ID ?order)) (reservations (db shop2))) \<le> 1" by code_simp
    ultimately show ?thesis by blast
  qed
  from charged_exactly_once [OF inv nf room gap fresh mem _ facts(1), of ?msg] facts id show ?thesis
    by auto
qed

end
