(* ===== verification/Order_Progress.thy ===== *)
theory Order_Progress
  imports Relay_Drain Charge_Live
begin

text \<open>
  From the request to the payment.  Without faults an accepted order leaves an event, the relay
  brings it onto the topic, and the round of the worker that fetches it charges the order and
  commits the offset.  The parts are \<open>CreateOrder_must\<close>, \<open>cycles_drain\<close> and \<open>charge_must\<close>;
  this theory carries what they need from one process to the next.
\<close>

section \<open>Across the relay\<close>

text \<open>The cycles change nothing but the marks of the outbox, the topic and the tick.\<close>

definition relayed_on :: "sys \<Rightarrow> sys \<Rightarrow> bool" where
  "relayed_on s s' = (relayed (db s) (db s') \<and> env s' = env s \<and> seqs s' = seqs s \<and> tick s \<le> tick s')"

lemma relayed_on_trans: "relayed_on s s1 \<Longrightarrow> relayed_on s1 s2 \<Longrightarrow> relayed_on s s2"
  by (auto simp: relayed_on_def intro: relayed_trans)

lemma RelayOnce_on:
  assumes "system_inv s"
  shows "relayed_on s (snd (RelayOnce Publish s))"
proof -
  obtain r s' where run: "RelayOnce Publish s = (r, s')" by fastforce
  have "preserves (\<lambda>s'. env s' = env s \<and> seqs s' = seqs s \<and> tick s \<le> tick s') (RelayOnce Publish)"
    by (rule relay_preserves) auto
  from preservesD [OF this _ run] have "env s' = env s \<and> seqs s' = seqs s \<and> tick s \<le> tick s'" by simp
  moreover have "kafka.relay_inv s" "outbox_ok (db s)"
    using assms by (simp_all add: system_inv_def shop_inv_def schema_defs)
  from kafka.RelayOnce_inv [OF this] run have "relayed (db s) (db s')"
    by (cases r) (auto simp: wp_def)
  ultimately show ?thesis by (simp add: run relayed_on_def)
qed

lemma cycles_on:
  "system_inv s \<Longrightarrow> relayed_on s (cycles n s) \<and> system_inv (cycles n s)"
proof (induction n arbitrary: s)
  case 0
  then show ?case by (simp add: relayed_on_def)
next
  case (Suc n)
  let ?s = "snd (RelayOnce Publish s)"
  have "trade s ?s" by (rule trade.relay) (rule prod.collapse [symmetric])
  from trade_inv [OF this Suc.prems] have "system_inv ?s" by simp
  with Suc.IH [OF this] RelayOnce_on [OF Suc.prems] show ?case by (auto intro: relayed_on_trans)
qed

lemma relayed_on_tables:
  assumes "relayed_on s s'"
  shows "orders (db s') = orders (db s)" "payments (db s') = payments (db s)"
    "reservations (db s') = reservations (db s)" "products (db s') = products (db s)"
    "processed_events (db s') = processed_events (db s)"
    "ahead q (db s') = ahead q (db s)" "map ev_EventID (outbox_events (db s')) = map ev_EventID (outbox_events (db s))"
proof -
  from assms obtain rows where rows: "db s' = (db s)\<lparr>outbox_events := rows\<rparr>" "list_all2 marked (outbox_events (db s)) rows"
    by (auto simp: relayed_on_def relayed_def)
  then show "orders (db s') = orders (db s)" "payments (db s') = payments (db s)"
    "reservations (db s') = reservations (db s)" "products (db s') = products (db s)"
    "processed_events (db s') = processed_events (db s)" by simp_all
  have strip: "ev_ID r' = ev_ID r \<and> ev_EventID r' = ev_EventID r" if "marked r r'" for r r'
    using that unfolding marked_def by (metis strip_simps(1,2))
  have "map ev_ID rows' = map ev_ID rs \<and> map ev_EventID rows' = map ev_EventID rs" if "list_all2 marked rs rows'" for rs rows'
    using that by (induction rule: list_all2_induct) (auto dest: strip)
  from this [OF rows(2)] show "map ev_EventID (outbox_events (db s')) = map ev_EventID (outbox_events (db s))"
    and "ahead q (db s') = ahead q (db s)"
    by (simp_all add: rows(1) ahead_def flip: list.pred_map [of "\<lambda>i. i \<le> q SeqOutbox" ev_ID, unfolded comp_def])
qed

text \<open>A row that waits is on the topic once nothing waits.\<close>

lemma drained_on_topic:
  assumes on: "relayed_on s s'" and inv: "system_inv s'" and none: "pending (db s') = []"
    and row: "row \<in> set (outbox_events (db s))"
  shows "\<exists>w\<in>set (topic_products s'). kafka.row_wire row = Some w"
proof -
  from on have "list_all2 marked (outbox_events (db s)) (outbox_events (db s'))"
    by (auto simp: relayed_on_def relayed_def)
  with row obtain row' where row': "row' \<in> set (outbox_events (db s'))" "marked row row'"
    by (metis in_set_conv_nth list_all2_conv_all_nth)
  have "row' \<notin> set (pending (db s'))" using none by simp
  then have "\<not> unpublished row'" using row'(1) by (simp add: pending_def)
  with inv row'(1) obtain w where "kafka.row_wire row' = Some w" "w \<in> set (topic_products s')"
    by (auto simp: system_inv_def kafka.relay_inv_def)
  moreover have "strip row' = strip row" using row'(2) by (auto simp: marked_def)
  then have "kafka.row_wire row' = kafka.row_wire row" by (metis kafka.row_wire_strip)
  ultimately show ?thesis by auto
qed

section \<open>A round of the worker\<close>

lemma InsertOne_live: "no_faults (env s) \<Longrightarrow> wp (MongoStore_Insert r) (\<lambda>_ s'. db s' = db s \<and> env s' = env s) (\<lambda>_ _. False) s"
  by (auto simp: MongoStore_Insert_def wp_simps wp_def [of "InsertOne _"] InsertOne_def Let_def IsDuplicateKeyError_def
      duplicate_key_error_def)

lemma Audit_live:
  assumes "no_faults (env s)" and "e_ID (msg_Event msg) \<noteq> []"
  shows "wp (Audit_Handle d msg) (\<lambda>_ s'. db s' = db s \<and> env s' = env s) (\<lambda>_ _. False) s"
proof -
  obtain k where k: "maxRetries = Suc k" by (simp add: maxRetries_def numeral_3_eq_3)
  have "wp (insert_retrying r maxRetries give_up err) (\<lambda>_ s'. db s' = db s \<and> env s' = env s) (\<lambda>_ _. False) (tock s)"
    for r give_up err
    using InsertOne_live [of "tock s" r] assms(1) by (auto simp: k wp_simps elim!: wp_mono)
  with assms(2) show ?thesis by (simp add: Audit_Handle_def wp_simps)
qed

lemma consume_live:
  assumes nf: "no_faults (env s)" and c: "position c < length (topic_products s)"
    and msg: "msg = Fetch (topic_products s ! position c)" "e_ID (msg_Event msg) \<noteq> []"
    and route: "routeCommerce p msg (tock s) = (Inr (), s1)" "env s1 = env s"
  shows "\<exists>c' s'. consume_one p c s = (Inr c', s') \<and> committed_offset c' = position c + 1 \<and> db s' = db s1"
proof -
  have fetch: "fetch c s = (Inr msg, tock s)"
    using nf c by (simp add: fetch_def interact_def msg(1))
  obtain r2 s2 where audit: "Audit_Handle (has_dlq p) msg s1 = (r2, s2)" by fastforce
  with Audit_live [of s1 msg "has_dlq p"] nf route(2) msg(2)
  have r2: "r2 = Inr ()" "db s2 = db s1" "env s2 = env s" by (cases r2; auto simp: wp_def)+
  have "commit_offset s2 = (Inr (), tock s2)" using nf r2(3) by (simp add: commit_offset_def interact_def)
  with fetch route(1) audit r2 msg(2) show ?thesis
    by (simp add: consume_one_def bindE_def attempt_def ret_def Let_def Dispatch_Handle_def)
qed

section \<open>From the request to the payment\<close>

text \<open>What an accepted order leaves behind, for the processes that come next.\<close>

lemma accepted_order:
  assumes inv: "system_inv s" and nf: "no_faults (env s)" and room: "room (4 * length items + 4) (seqs s)"
    and gap: "ahead (seqs s) (db s)" "fresh_uuids (env s) (tick s) (db s)"
    and sane: "sane_products (products (db s))" and user: "userID \<in> set (map u_ID (users (db s)))"
    and new: "\<And>k. tick s \<le> k \<Longrightarrow> \<not> processed (db s) ''payment'' (uuid (env s) k)"
    and run: "CreateOrder userID items s = (Inr order, s1)"
  obtains row where "system_inv s1" and "env s1 = env s" and "o_ID order \<noteq> 0" and "order \<in> set (orders (db s1))"
    and "o_Status order = OrderPendingPayment" and "finite_f64 (o_Total order)"
    and "room (length (filter (held_of (o_ID order)) (reservations (db s1))) + 2) (seqs s1)" and "ahead (seqs s1) (db s1)"
    and "row \<in> set (outbox_events (db s1))" and "enqueued ''order'' (o_ID order) EventOrderCreated (created_payload order) row"
    and "\<not> processed (db s1) ''payment'' (ev_EventID row)" and "o_ID order \<notin> set (map pay_OrderID (payments (db s1)))"
proof -
  have keys: "keys_ok (db s)" and refs: "refs_ok (db s)"
    using inv by (simp_all add: system_inv_def inv_keys shop_inv_def schema_ok_def)
  have inv1: "system_inv s1" using trade_inv [OF trade.create [OF run] inv] by simp
  then have keys1: "keys_ok (db s1)" "stock_inv (db s1)" by (simp_all add: system_inv_def inv_keys shop_inv_def)
  have "db_wp (CreateOrder_tx userID items) (\<lambda>o' d'. created userID items o' (db s) d'
      \<and> (\<forall>it\<in>set items. ci_ProductID it \<noteq> 0)) (db s)"
    by (intro db_wp_conj created_ids CreateOrder_rule keys)
  with transaction_atomic [OF run [unfolded CreateOrder_def]]
  have made: "created userID items order (db s) (db s1)" and ids: "\<forall>it\<in>set items. ci_ProductID it \<noteq> 0"
    by (auto simp: db_wp_def)
  have ok: "acceptable (db s) items" by (rule created_acceptable [OF keys made ids keys1])
  have "room (3 * length items + 2 + (length items + 2)) (seqs s)" by (rule room_less [OF room]) simp
  note must = CreateOrder_must [OF nf this gap sane refs user ok]
  obtain n' where n': "env s1 = env s" "o_ID order \<noteq> 0"
    "accepted (env s) (length items + 2) (tick s) (outbox_events (db s)) n' (db s1) (seqs s1)"
    by (rule mustD [OF must]) (use run in auto)
  from made obtain ls ps row d1 where ls: "map ln_pair ls = map ci_pair items"
    and o': "pending_order userID (line_total ls) order" "o_ID order \<notin> set (map o_ID (orders (db s)))"
    and ins: "inserted (o_ID order) ls ((db s)\<lparr>products := ps, orders := orders (db s) @ [order]\<rparr>) d1"
    and row: "enqueued ''order'' (o_ID order) EventOrderCreated (created_payload order) row" "db s1 = add_outbox row d1"
    unfolding created_def by auto
  from ins obtain rs where rs: "list_all2 (hold_for (o_ID order)) ls rs" "reservations (db s1) = reservations (db s) @ rs"
    and same: "orders (db s1) = orders (db s) @ [order]" "payments (db s1) = payments (db s)"
      "processed_events (db s1) = processed_events (db s)" "outbox_events (db s1) = outbox_events (db s) @ [row]"
    by (auto simp: inserted_def row(2) add_outbox_def)
  have old: "set (map rv_OrderID (reservations (db s))) \<subseteq> set (map o_ID (orders (db s)))"
    "set (map pay_OrderID (payments (db s))) \<subseteq> set (map o_ID (orders (db s)))"
    using refs by (simp_all add: refs_ok_def)
  have "rv_OrderID r \<noteq> o_ID order" if "r \<in> set (reservations (db s))" for r
  proof -
    have "rv_OrderID r \<in> set (map rv_OrderID (reservations (db s)))" using that by simp
    with old(1) have "rv_OrderID r \<in> set (map o_ID (orders (db s)))" by (rule subsetD)
    with o'(2) show ?thesis by force
  qed
  then have "filter (held_of (o_ID order)) (reservations (db s)) = []"
    by (auto simp: filter_empty_conv held_of_def)
  then have "length (filter (held_of (o_ID order)) (reservations (db s1))) \<le> length rs" by (simp add: rs(2))
  moreover have "length rs = length items"
    using list_all2_lengthD [OF rs(1)] arg_cong [OF ls, of length] by simp
  ultimately have "length (filter (held_of (o_ID order)) (reservations (db s1))) + 2 \<le> length items + 2" by simp
  moreover have "room (length items + 2) (seqs s1)" using n'(3) by (simp only: accepted_def)
  ultimately have "room (length (filter (held_of (o_ID order)) (reservations (db s1))) + 2) (seqs s1)"
    by (rule room_less [rotated])
  moreover obtain j where "tick s \<le> j" "ev_EventID row = uuid (env s) j"
    using n'(3) by (auto simp: accepted_def same(4))
  with new have "\<not> processed (db s1) ''payment'' (ev_EventID row)" by (simp add: processed_def same(3))
  moreover have "o_ID order \<notin> set (map pay_OrderID (payments (db s1)))"
    using old(2) o'(2) unfolding same(2) by blast
  moreover have "finite_f64 (o_Total order)"
    using row(1) by (auto simp: enqueued_def created_payload_def finite_f64_def split: float64.splits sum.splits)
  ultimately show thesis
    using inv1 n' same row o'(1) by (intro that [of row]) (auto simp: accepted_def pending_order_def)
qed

text \<open>The handler of the payment worker on the message of an accepted order, behind the relay.\<close>

lemma relayed_order_charged:
  assumes inv: "system_inv s" and nf: "no_faults (env s)"
    and row: "enqueued ''order'' (o_ID order) EventOrderCreated (created_payload order) row" "carries_order row"
    and w: "kafka.row_wire row = Some w" and small: "unat (o_ID order) \<le> 2 ^ 53"
    and order: "order \<in> set (orders (db s))" "o_Status order = OrderPendingPayment" "finite_f64 (o_Total order)"
    and id: "o_ID order \<noteq> 0"
    and room: "room (length (filter (held_of (o_ID order)) (reservations (db s))) + 2) (seqs s)"
    and ahead: "ahead (seqs s) (db s)" and uuids: "fresh_uuids (env s) (tick s) (db s)"
    and short: "length (ev_EventID row) \<le> 36"
    and fresh: "\<not> processed (db s) ''payment'' (ev_EventID row)" "o_ID order \<notin> set (map pay_OrderID (payments (db s)))"
  shows "\<exists>s3 pay r. HandleOrderCreated (Fetch w) (tock s) = (Inr (), s3)
     \<and> transitioned (committed (o_ID order)) (o_ID order) OrderPaid EventOrderPaid [pay] (add_inbox r (db s)) (db s3)"
proof -
  let ?msg = "Fetch w"
  have agg: "ev_AggregateID row = o_ID order" "ev_EventType row = EventOrderCreated"
    "marshal (GMap (created_payload order)) = Inr (ev_Payload row)" using row(1) by (simp_all add: enqueued_def)
  note dec = decoded_row [OF row(2) w small [folded agg(1)]]
  have "simulate_outcome (msg_Event ?msg) = ''success''"
    using decoded_absent [OF agg(3) w, of "''simulateOutcome''"]
    by (simp add: simulate_outcome_def created_payload_def)
  then have success: "simulate_outcome (msg_Event ?msg) \<noteq> ''fail''" by simp
  have payable: "CanTransition (o_Status order) OrderPaid"
    by (simp add: order(2) CanTransition_def allowedTransitions_def str_consts)
  have "\<exists>s3 pay r. HandleOrderCreated ?msg (tock s) = (Inr (), s3)
     \<and> transitioned (committed (o_ID order)) (o_ID order) OrderPaid EventOrderPaid [pay] (add_inbox r (db (tock s))) (db s3)"
  proof (rule order_charged)
    show "fresh_uuids (env (tock s)) (tick (tock s)) (db (tock s))" using uuids by (simp add: fresh_uuids_def)
    show "(o_ID order, ''evt:'' @ e_ID (msg_Event ?msg)) \<notin> set (map (\<lambda>p. (pay_OrderID p, pay_IdempotencyKey p)) (payments (db (tock s))))"
      using fresh(2) by (auto simp: image_iff)
    show "length (e_ID (msg_Event ?msg)) \<le> 124" using short dec(1) by simp
    show "length (e_Type (msg_Event ?msg)) \<le> 64" by (simp add: dec(2) agg(2) str_consts)
    show "asUint (uint_conv (env (tock s))) (lookup (e_Payload (msg_Event ?msg)) ''orderId'') = Some (o_ID order)"
      using dec(3) agg(1) by simp
    show "system_inv (tock s)" using inv by (simp add: system_inv_def topic_inv_def audit_ok_def)
  qed (use nf room ahead order id fresh(1) payable success dec(1) in \<open>simp_all add: processed_def\<close>)
  then show ?thesis by simp
qed

text \<open>C11. An accepted order gets paid.  Without faults, once \<open>CreateOrder\<close> has accepted an order and
  the relay has run for its outbox, the topic holds the order's event, and the round of the worker
  that fetches it, wherever its reader came from, charges the order, commits its reservations and
  moves the committed offset right behind the event.\<close>

theorem accepted_order_gets_paid:
  assumes inv: "system_inv s" and nf: "no_faults (env s)" and room: "room (4 * length items + 4) (seqs s)"
    and gap: "ahead (seqs s) (db s)" "fresh_uuids (env s) (tick s) (db s)"
    and sane: "sane_products (products (db s))" and user: "userID \<in> set (map u_ID (users (db s)))"
    and new: "\<And>k. tick s \<le> k \<Longrightarrow> \<not> processed (db s) ''payment'' (uuid (env s) k)"
    and run: "CreateOrder userID items s = (Inr order, s1)"
    and uuids: "fresh_uuids (env s1) (tick s1) (db s1)"
      "\<And>row. row \<in> set (outbox_events (db s1)) \<Longrightarrow> ev_EventID row \<noteq> [] \<and> length (ev_EventID row) \<le> 36"
    and small: "unat (o_ID order) \<le> 2 ^ 53"
    and wires: "list_all2 (\<lambda>r m. kafka.row_wire r = Some m) (pending (db s1)) ms" "length ms \<le> n * batchSize"
    and worker: "has_payment p"
  shows "\<exists>i < length (topic_products (cycles n s1)). \<forall>c. position c = i \<longrightarrow>
    (\<exists>c' s3 pay r. consume_one p c (cycles n s1) = (Inr c', s3) \<and> committed_offset c' = i + 1
       \<and> transitioned (committed (o_ID order)) (o_ID order) OrderPaid EventOrderPaid [pay]
           (add_inbox r (db (cycles n s1))) (db s3))"
proof -
  let ?s2 = "cycles n s1"
  obtain row where inv1: "system_inv s1" and env1: "env s1 = env s" and id: "o_ID order \<noteq> 0"
    and order: "order \<in> set (orders (db s1))" "o_Status order = OrderPendingPayment" "finite_f64 (o_Total order)"
    and room1: "room (length (filter (held_of (o_ID order)) (reservations (db s1))) + 2) (seqs s1)" and ahead1: "ahead (seqs s1) (db s1)"
    and row: "row \<in> set (outbox_events (db s1))" "enqueued ''order'' (o_ID order) EventOrderCreated (created_payload order) row"
    and fresh: "\<not> processed (db s1) ''payment'' (ev_EventID row)" "o_ID order \<notin> set (map pay_OrderID (payments (db s1)))"
    using accepted_order [OF inv nf room gap sane user new run] by blast
  have nf1: "no_faults (env s1)" using nf env1 by simp
  have ok1: "outbox_ok (db s1)" using inv1 by (simp add: system_inv_def shop_inv_def schema_defs)
  have none: "pending (db ?s2) = []" using cycles_drain [OF nf1 ok1 wires] by simp
  have on: "relayed_on s1 ?s2" and inv2: "system_inv ?s2" using cycles_on [OF inv1] by simp_all
  note tables = relayed_on_tables [OF on]
  have env2: "env ?s2 = env s1" "seqs ?s2 = seqs s1" "tick s1 \<le> tick ?s2" using on by (simp_all add: relayed_on_def)
  obtain w i where w: "kafka.row_wire row = Some w" and i: "i < length (topic_products ?s2)" "topic_products ?s2 ! i = w"
    using drained_on_topic [OF on inv2 none row(1)] by (auto simp: in_set_conv_nth)
  let ?msg = "Fetch w"
  have carries: "carries_order row" using inv1 row(1) by (simp add: system_inv_def shop_inv_def event_inv_def)
  have agg: "ev_AggregateID row = o_ID order" "ev_EventType row = EventOrderCreated" using row(2) by (simp_all add: enqueued_def)
  note dec = decoded_row [OF carries w small [folded agg(1)]]
  have "\<exists>s3 pay r. HandleOrderCreated ?msg (tock ?s2) = (Inr (), s3)
     \<and> transitioned (committed (o_ID order)) (o_ID order) OrderPaid EventOrderPaid [pay] (add_inbox r (db ?s2)) (db s3)"
  proof (rule relayed_order_charged [OF inv2 _ row(2) carries w small])
    show "fresh_uuids (env ?s2) (tick ?s2) (db ?s2)" using uuids(1) env2 tables(7) by (simp add: fresh_uuids_def)
    show "length (ev_EventID row) \<le> 36" using uuids(2) [OF row(1)] by simp
  qed (use nf1 room1 ahead1 order id fresh env2 tables in \<open>simp_all add: processed_def\<close>)
  then obtain s3 pay r where s3: "HandleOrderCreated ?msg (tock ?s2) = (Inr (), s3)"
    "transitioned (committed (o_ID order)) (o_ID order) OrderPaid EventOrderPaid [pay] (add_inbox r (db ?s2)) (db s3)" by auto
  have route: "routeCommerce p ?msg (tock ?s2) = (Inr (), s3)"
    using s3(1) worker by (simp add: routeCommerce_def dec(2) agg(2))
  then have "env s3 = env ?s2" using route_outside [OF route] by (simp add: outside_def)
  then have "\<exists>c' s'. consume_one p c ?s2 = (Inr c', s') \<and> committed_offset c' = i + 1 \<and> db s' = db s3"
    if "position c = i" for c
    using consume_live [of ?s2 c ?msg p s3] that i route nf1 env2(1) uuids(2) [OF row(1)] dec(1) by simp
  with i(1) s3(2) show ?thesis by metis
qed

theorem accepted_order_gets_paid_witness:
  "\<exists>c' s3 pay r. consume_one worker reader0 shop2 = (Inr c', s3) \<and> committed_offset c' = 1
     \<and> transitioned (committed 1) 1 OrderPaid EventOrderPaid [pay] (add_inbox r (db shop2)) (db s3)"
proof -
  have start: "no_faults (env shop0)" "ahead (seqs shop0) (db shop0)" "fresh_uuids (env shop0) (tick shop0) (db shop0)"
    "1 \<in> set (map u_ID (users (db shop0)))" "room (4 * length basket + 4) (seqs shop0)"
    "\<And>k. \<not> processed (db shop0) ''payment'' (uuid (env shop0) k)"
    by (simp_all add: shop0_def quiet_def no_faults_def db0_def ahead_def fresh_uuids_def alice_def room_def basket_def
        processed_def)
  have sane: "sane_products (products (db shop0))" by code_simp
  have "case fst (CreateOrder 1 basket shop0) of Inl _ \<Rightarrow> False | Inr order \<Rightarrow> o_ID order = 1" by code_simp
  then obtain order where run: "CreateOrder 1 basket shop0 = (Inr order, shop1)" and id: "o_ID order = 1"
    by (cases "CreateOrder 1 basket shop0") (auto simp: shop1_def split: sum.splits)
  have "list_all (\<lambda>r. digits_val (ev_EventID r) < tick shop1) (outbox_events (db shop1))" by code_simp
  then have fresh: "fresh_uuids (env shop1) (tick shop1) (db shop1)"
    by (auto simp: fresh_uuids_def env_shop1 quiet_def list_all_iff) (metis digits_val_show_nat not_less)
  have "list_all (\<lambda>r. ev_EventID r \<noteq> [] \<and> length (ev_EventID r) \<le> 36) (outbox_events (db shop1))" by code_simp
  then have ids: "\<And>row. row \<in> set (outbox_events (db shop1)) \<Longrightarrow> ev_EventID row \<noteq> [] \<and> length (ev_EventID row) \<le> 36"
    by (simp add: list_all_iff)
  have one: "length (pending (db shop1)) = 1"
    "map (\<lambda>r. case unmarshal_map (Inl (ev_Payload r)) of None \<Rightarrow> None
        | Some p \<Rightarrow> event_wire (row_key r) (row_event r p)) (pending (db shop1))
     = [Some (topic_products shop2 ! 0)]" by code_simp+
  then have wires: "list_all2 (\<lambda>r m. kafka.row_wire r = Some m) (pending (db shop1)) [topic_products shop2 ! 0]"
    by (cases "pending (db shop1)") (auto simp: kafka.row_wire_def)
  have two: "cycles 1 shop1 = shop2" by (simp add: shop2_def)
  obtain i where i: "i < length (topic_products shop2)" and paid: "\<And>c. position c = i \<Longrightarrow>
      \<exists>c' s3 pay r. consume_one worker c shop2 = (Inr c', s3) \<and> committed_offset c' = i + 1
        \<and> transitioned (committed 1) 1 OrderPaid EventOrderPaid [pay] (add_inbox r (db shop2)) (db s3)"
    using accepted_order_gets_paid [OF shop0_inv start(1,5,2,3) sane start(4) start(6) run fresh ids _ wires, of 1 worker] id two
    by (auto simp: batchSize_def worker_def)
  have "position reader0 = 0" by (simp add: reader0_def)
  with i paid [of reader0] show ?thesis by (simp add: shop2_topic(1))
qed

end
