(* ===== verification/Metering.thy ===== *)
theory Metering
  imports Notify Demo
begin

text \<open>
  The business counters of \<open>internal/metrics\<close>.  The loops that count are the loops of the other
  theories with the counters passed along: \<open>plain\<close> forgets the counters, and every counted
  version is shown to behave as the one without.  What the counters mean is shown for one round
  of each loop: the relay counts the rows it marks, the worker counts a fetched message either as
  consumed or as dead-lettered, and the gauge of the WebSockets is the number of clients.
\<close>

record counters =
  EventsPublished :: "string \<Rightarrow> nat"
  EventsConsumed :: "string \<times> string \<Rightarrow> nat"
  EventsDeadLettered :: nat
  OutboxPendingGauge :: nat
  WebSocketConnections :: nat

definition inc_published :: "string \<Rightarrow> counters \<Rightarrow> counters" where
  "inc_published ty m = m\<lparr>EventsPublished := (EventsPublished m)(ty := Suc (EventsPublished m ty))\<rparr>"

definition inc_consumed :: "string \<Rightarrow> string \<Rightarrow> counters \<Rightarrow> counters" where
  "inc_consumed ty consumer m =
     m\<lparr>EventsConsumed := (EventsConsumed m)((ty, consumer) := Suc (EventsConsumed m (ty, consumer)))\<rparr>"

definition inc_dead_lettered :: "counters \<Rightarrow> counters" where
  "inc_dead_lettered m = m\<lparr>EventsDeadLettered := Suc (EventsDeadLettered m)\<rparr>"

section \<open>The counted loops\<close>



definition consume_one_counted :: "Processor \<Rightarrow> Reader \<Rightarrow> counters \<Rightarrow> (Reader \<times> counters) io" where
  "consume_one_counted p c m =
     bindE (attempt (fetch c)) (\<lambda>r.
     case r of
       Inl _ \<Rightarrow> ret (c\<lparr>backoff := next_backoff (backoff c)\<rparr>, m)
     | Inr msg \<Rightarrow>
         let c = c\<lparr>position := position c + 1, backoff := first_backoff\<rparr> in
         bindE (attempt (Dispatch_Handle p msg)) (\<lambda>r.
         case r of
           Inl _ \<Rightarrow> ret (c, inc_dead_lettered m)
         | Inr _ \<Rightarrow>
             bindE (attempt commit_offset) (\<lambda>r.
             ret (case r of Inl _ \<Rightarrow> c | Inr _ \<Rightarrow> c\<lparr>committed_offset := position c\<rparr>,
                  inc_consumed (e_Type (msg_Event msg)) ''worker'' m))))"

fun run_job_counted :: "SearchEngine \<Rightarrow> job \<Rightarrow> counters \<Rightarrow> (unit \<times> counters) io" where
  "run_job_counted engine (PublishJob eventType p) m =
     bindE (NewEvent eventType (product_event_payload p)) (\<lambda>evt.
     bindE (attempt (Publish (show_uint (pr_ID p)) evt)) (\<lambda>r.
     ret ((), case r of Inl _ \<Rightarrow> m | Inr _ \<Rightarrow> inc_published eventType m)))"
| "run_job_counted engine job m = bindE (run_job engine job) (\<lambda>_. ret ((), m))"

definition Hub_Add_counted :: "nat \<Rightarrow> Hub \<times> counters \<Rightarrow> Hub \<times> counters" where
  "Hub_Add_counted conn hm =
     (let h = Hub_Add conn (fst hm) in (h, (snd hm)\<lparr>WebSocketConnections := length (hub_clients h)\<rparr>))"

definition Hub_Remove_counted :: "nat \<Rightarrow> Hub \<times> counters \<Rightarrow> Hub \<times> counters" where
  "Hub_Remove_counted conn hm =
     (let h = Hub_Remove conn (fst hm) in (h, (snd hm)\<lparr>WebSocketConnections := length (hub_clients h)\<rparr>))"

definition send_one_counted :: "(nat \<Rightarrow> bool) \<Rightarrow> json \<Rightarrow> Hub \<times> counters \<Rightarrow> nat \<Rightarrow> Hub \<times> counters" where
  "send_one_counted broken payload hm conn =
     (if broken conn then Hub_Remove_counted conn hm
      else ((fst hm)\<lparr>hub_sent := hub_sent (fst hm) @ [(conn, payload)]\<rparr>, snd hm))"

definition Broadcast_counted :: "(nat \<Rightarrow> bool) \<Rightarrow> Event \<Rightarrow> Hub \<times> counters \<Rightarrow> Hub \<times> counters" where
  "Broadcast_counted broken event hm =
     (case marshal_event event of
        Inl _ \<Rightarrow> hm
      | Inr payload \<Rightarrow> foldl (send_one_counted broken payload) hm (hub_clients (fst hm)))"

definition notify_one_counted ::
  "(nat \<Rightarrow> bool) \<Rightarrow> (Reader \<times> Hub) \<times> counters \<Rightarrow> ((Reader \<times> Hub) \<times> counters) io" where
  "notify_one_counted broken rhm =
     (case rhm of ((c, h), m) \<Rightarrow>
        bindE (attempt (fetch c)) (\<lambda>r.
        case r of
          Inl _ \<Rightarrow> ret ((c\<lparr>backoff := next_backoff (backoff c)\<rparr>, h), m)
        | Inr msg \<Rightarrow>
            let c = c\<lparr>position := position c + 1, backoff := first_backoff\<rparr>;
                hm = (if e_ID (msg_Event msg) = [] then (h, m)
                      else apsnd (inc_consumed (e_Type (msg_Event msg)) ''notifier'')
                             (Broadcast_counted broken (msg_Event msg) (h, m)))
            in bindE (attempt commit_offset) (\<lambda>r.
               ret ((case r of Inl _ \<Rightarrow> c | Inr _ \<Rightarrow> c\<lparr>committed_offset := position c\<rparr>, fst hm), snd hm))))"

section \<open>Counting changes nothing else\<close>

definition plain :: "('a \<times> counters) io \<Rightarrow> 'a io" where
  "plain x = bindE x (\<lambda>(a, _). ret a)"

named_theorems plain_simps \<open>forgetting the counters\<close>

lemma plain_ret [plain_simps]: "plain (ret (a, m)) = ret a"
  by (rule ext) (simp add: plain_def bindE_def ret_def)

lemma plain_bindE [plain_simps]: "plain (bindE x f) = bindE x (\<lambda>a. plain (f a))"
  by (rule ext) (simp add: plain_def bindE_def split: prod.split sum.split)

lemma plain_cases [plain_simps]:
  "plain (if b then x else y) = (if b then plain x else plain y)"
  "plain (case r of Inl e \<Rightarrow> f e | Inr a \<Rightarrow> g a) = (case r of Inl e \<Rightarrow> plain (f e) | Inr a \<Rightarrow> plain (g a))"
  "plain (case z of None \<Rightarrow> x | Some a \<Rightarrow> h a) = (case z of None \<Rightarrow> plain x | Some a \<Rightarrow> plain (h a))"
  "plain (case pq of (p, q) \<Rightarrow> k p q) = (case pq of (p, q) \<Rightarrow> plain (k p q))"
  by (simp_all split: sum.split option.split prod.split)




lemma bindE_ret_right: "bindE x ret = x"
  by (rule ext) (simp add: bindE_def ret_def split: prod.split sum.split)

lemma consume_one_plain [simp]: "plain (consume_one_counted p c m) = consume_one p c"
  by (simp add: consume_one_counted_def consume_one_def Let_def plain_simps sum.case_distrib [of ret] cong: sum.case_cong)

lemma ignore_attempt: "ignore x = bindE (attempt x) (\<lambda>_. ret ())"
  by (rule ext) (simp add: ignore_def bindE_def attempt_def ret_def split: prod.split)

lemma run_job_plain [simp]: "plain (run_job_counted engine j m) = run_job engine j"
  by (cases j) (simp_all add: plain_simps ignore_attempt bindE_ret_right)

lemma Hub_counted_plain [simp]:
  "fst (Hub_Add_counted conn hm) = Hub_Add conn (fst hm)"
  "fst (Hub_Remove_counted conn hm) = Hub_Remove conn (fst hm)"
  "fst (send_one_counted broken payload hm conn) = send_one broken payload (fst hm) conn"
  by (simp_all add: Hub_Add_counted_def Hub_Remove_counted_def send_one_counted_def send_one_def Let_def)

lemma Broadcast_counted_plain [simp]: "fst (Broadcast_counted broken event hm) = Broadcast broken event (fst hm)"
proof -
  have "fst (foldl (send_one_counted broken payload) hm cs) = foldl (send_one broken payload) (fst hm) cs" for payload cs
    by (induction cs arbitrary: hm) simp_all
  then show ?thesis by (simp add: Broadcast_counted_def Broadcast_def split: sum.split)
qed

lemma notify_one_plain [simp]: "plain (notify_one_counted broken ((c, h), m)) = notify_one broken (c, h)"
  by (simp add: notify_one_counted_def notify_one_def Let_def plain_simps if_distrib [of fst]
      sum.case_distrib [of ret] sum.case_distrib [of "\<lambda>c. (c, h)" for h] cong: sum.case_cong if_cong)

section \<open>The gauge of the WebSockets\<close>

definition gauge_ok :: "Hub \<times> counters \<Rightarrow> bool" where
  "gauge_ok hm = (WebSocketConnections (snd hm) = Hub_Count (fst hm))"

lemma gauge_hub [simp]:
  "gauge_ok (Hub_Add_counted conn hm)" "gauge_ok (Hub_Remove_counted conn hm)"
  "gauge_ok (apsnd (inc_consumed ty k) hm) = gauge_ok hm"
  by (simp_all add: gauge_ok_def Hub_Add_counted_def Hub_Remove_counted_def Hub_Count_def Let_def inc_consumed_def)

lemma gauge_Broadcast:
  assumes "gauge_ok hm"
  shows "gauge_ok (Broadcast_counted broken event hm)"
proof -
  have send: "gauge_ok (send_one_counted broken payload hm conn)" if "gauge_ok hm" for payload conn hm
    using that by (auto simp: send_one_counted_def) (simp add: gauge_ok_def Hub_Count_def)
  have "gauge_ok (foldl (send_one_counted broken payload) hm cs)" for payload cs
    using assms by (induction cs arbitrary: hm) (simp_all add: send)
  then show ?thesis using assms by (simp add: Broadcast_counted_def split: sum.split)
qed

lemma gauge_notify_one:
  assumes "notify_one_counted broken ((c, h), m) s = (Inr ((c', h'), m'), s')" and "gauge_ok (h, m)"
  shows "gauge_ok (h', m')"
proof -
  have "WebSocketConnections (snd (Broadcast_counted broken event (h, m))) = Hub_Count (Broadcast broken event h)" for event
    using gauge_Broadcast [OF assms(2)] by (simp add: gauge_ok_def)
  then show ?thesis
    using assms
    by (auto simp: notify_one_counted_def bindE_def attempt_def ret_def Let_def gauge_ok_def inc_consumed_def
        split: prod.splits sum.splits if_splits)
qed

section \<open>What the relay counts\<close>

definition waiting :: "(EventRow \<Rightarrow> bool) \<Rightarrow> db \<Rightarrow> nat" where
  "waiting P d = length (filter (\<lambda>r. unpublished r \<and> P r) (outbox_events d))"

lemma waiting_tock [simp]: "waiting P (db (tock s)) = waiting P (db s)"
  by simp


text \<open>Between two states: the events counted as published are the rows marked, by type and in
  all, and no other counter moves but the gauge of the outbox.\<close>

definition counted_rows :: "db \<Rightarrow> counters \<Rightarrow> nat \<Rightarrow> db \<Rightarrow> counters \<Rightarrow> nat \<Rightarrow> bool" where
  "counted_rows d m n d' m' n' =
     ((\<forall>ty. EventsPublished m' ty + waiting (\<lambda>r. ev_EventType r = ty) d'
         = EventsPublished m ty + waiting (\<lambda>r. ev_EventType r = ty) d)
      \<and> n' + waiting (\<lambda>_. True) d' = n + waiting (\<lambda>_. True) d
      \<and> m'\<lparr>EventsPublished := EventsPublished m, OutboxPendingGauge := OutboxPendingGauge m\<rparr> = m)"

lemma counted_rows_refl [simp]: "counted_rows d m n d m n"
  by (simp add: counted_rows_def)






text \<open>Every process starts with the counters at zero.\<close>

definition no_counts :: counters where
  "no_counts = \<lparr>EventsPublished = \<lambda>_. 0, EventsConsumed = \<lambda>_. 0, EventsDeadLettered = 0,
     OutboxPendingGauge = 0, WebSocketConnections = 0\<rparr>"



text \<open>The goroutine that publishes the event of a product counts what it wrote.\<close>

lemma run_job_counts:
  assumes "run_job_counted engine (PublishJob ty p) m s = (Inr (u, m'), s')"
  shows "m' = m \<or> (m' = inc_published ty m \<and> length (topic_products s') = Suc (length (topic_products s)))"
proof -
  have "wp (run_job_counted engine (PublishJob ty p) m)
      (\<lambda>(_, m') s'. m' = m \<or> (m' = inc_published ty m \<and> length (topic_products s') = Suc (length (topic_products s))))
      (\<lambda>_ _. False) s"
    by (auto simp: NewEvent_def wp_simps intro!: wp_mono [OF Publish_frame])
  with assms show ?thesis by (simp add: wp_def)
qed

section \<open>What the worker counts\<close>

text \<open>An error of the handler leaves the dead-letter topic alone, unless the acknowledgement of a
  write to it was lost.\<close>

definition acks_kept :: "sys \<Rightarrow> bool" where
  "acks_kept s = (\<forall>n. \<not> commit_lost (env s) n)"

lemma deadLetter_error:
  "acks_kept s \<Longrightarrow> wp (deadLetter d msg reason) (\<lambda>_ _. True) (\<lambda>_ s'. topic_dlq s' = topic_dlq s) s"
  by (auto simp: deadLetter_def publish_dead_def wp_simps wp_def [of "publish_dead _"] acks_kept_def split: option.splits)

lemma insert_retrying_error:
  "acks_kept s \<Longrightarrow> wp (insert_retrying r n (\<lambda>e. deadLetter d msg (reason e)) lastErr)
     (\<lambda>_ _. True) (\<lambda>_ s'. topic_dlq s' = topic_dlq s) s"
proof (induction n arbitrary: s lastErr)
  case 0
  then show ?case by (simp add: deadLetter_error)
next
  case (Suc n)
  have "wp (insert_retrying r n (\<lambda>e. deadLetter d msg (reason e)) err) (\<lambda>_ _. True)
      (\<lambda>_ s'. topic_dlq s' = topic_dlq s) (tock s1)"
    if "audit_frame s s1" "topic_dlq s1 = topic_dlq s" for s1 err
    using Suc.IH [of "tock s1" err] Suc.prems that by (auto simp: audit_frame_def acks_kept_def)
  then show ?case by (auto simp: wp_simps intro!: wp_mono [OF MongoStore_Insert_rule])
qed

lemma Dispatch_error:
  assumes "Dispatch_Handle p msg s = (Inl e, s')" and "acks_kept s"
  shows "topic_dlq s' = topic_dlq s"
proof -
  have audit: "topic_dlq s2 = topic_dlq s" if "Audit_Handle (has_dlq p) msg s1 = (Inl e, s2)" "outside s1 = outside s" for s1 s2
  proof -
    have "acks_kept s1" "acks_kept (tock s1)" using assms(2) that(2) by (simp_all add: acks_kept_def outside_def)
    then have "wp (Audit_Handle (has_dlq p) msg) (\<lambda>_ _. True) (\<lambda>_ s'. topic_dlq s' = topic_dlq s1) s1"
      using insert_retrying_error [of "tock s1"] deadLetter_error [of s1]
      by (simp add: Audit_Handle_def wp_simps)
    with that show ?thesis by (simp add: wp_def outside_def)
  qed
  show ?thesis
  proof (cases "e_ID (msg_Event msg) = []")
    case True
    with assms(1) have "Audit_Handle (has_dlq p) msg s = (Inl e, s')" by (simp add: Dispatch_Handle_def)
    from audit [OF this refl] show ?thesis .
  next
    case False
    then have "bindE (routeCommerce p msg) (\<lambda>_. Audit_Handle (has_dlq p) msg) s = (Inl e, s')"
      using assms(1) by (simp add: Dispatch_Handle_def)
    then show ?thesis
    proof (rule bindE_cases)
      show ?thesis if "routeCommerce p msg s = (Inl e', s')" for e'
        using route_outside [OF that] by (simp add: outside_def)
      show ?thesis if "routeCommerce p msg s = (Inr a, s1)" "Audit_Handle (has_dlq p) msg s1 = (Inl e, s')" for a s1
        using audit [OF that(2) route_outside [OF that(1)]] .
    qed
  qed
qed

lemma fetch_cases:
  assumes "fetch c s = (r, s')"
  shows "s' = tock s \<and> ((\<exists>e. r = Inl e)
    \<or> position c < length (topic_products s) \<and> r = Inr (Fetch (topic_products s ! position c)))"
  using assms by (auto simp: fetch_def interact_def split: option.splits if_splits)

lemma commit_offset_cases: "commit_offset s = (r, s') \<Longrightarrow> s' = tock s"
  by (auto simp: commit_offset_def interact_def split: option.splits)

text \<open>C20. The consume loop, counters included, behaves as the one without.  A round either fetched
  nothing and counts nothing; or its handler failed: the offset stays, one dead letter is counted,
  and (unless an acknowledgement was lost) nothing was dead-lettered; or the message was accounted
  for (audited or dead-lettered), counts as consumed, and its offset may be committed.  So the
  counter of dead letters never counts an event that is dead-lettered.\<close>

theorem consume_commits_and_counts:
  assumes "consume_one_counted p c m s = (r, s')"
  shows "\<exists>c' m'. r = Inr (c', m') \<and> consume_one p c s = (Inr c', s')
    \<and> (position c' = position c \<and> committed_offset c' = committed_offset c \<and> m' = m
         \<and> topic_dlq s' = topic_dlq s \<and> mongo s' = mongo s
       \<or> position c < length (topic_products s) \<and> position c' = position c + 1
         \<and> (committed_offset c' = committed_offset c \<and> m' = inc_dead_lettered m
              \<and> (acks_kept s \<longrightarrow> topic_dlq s' = topic_dlq s)
            \<or> committed_offset c' \<in> {committed_offset c, position c + 1}
              \<and> m' = inc_consumed (e_Type (msg_Event (Fetch (topic_products s ! position c)))) ''worker'' m
              \<and> accounted (Fetch (topic_products s ! position c)) s s'))"
proof -
  obtain r1 s1 where f: "fetch c s = (r1, s1)" by fastforce
  from fetch_cases [OF f] consider e where "r1 = Inl e" "s1 = tock s"
    | "r1 = Inr (Fetch (topic_products s ! position c))" "s1 = tock s" "position c < length (topic_products s)" by blast
  then show ?thesis
  proof cases
    case (1 e)
    with f assms show ?thesis
      by (auto simp: consume_one_counted_def consume_one_def bindE_def attempt_def ret_def)
  next
    case 2
    let ?msg = "Fetch (topic_products s ! position c)"
    obtain r2 s2 where h: "Dispatch_Handle p ?msg (tock s) = (r2, s2)" by fastforce
    show ?thesis
    proof (cases r2)
      case (Inl e)
      have "acks_kept s \<longrightarrow> topic_dlq s2 = topic_dlq s"
        using Dispatch_error [of p ?msg "tock s" e s2] h Inl by (simp add: acks_kept_def)
      with f 2 h Inl assms show ?thesis
        by (auto simp: consume_one_counted_def consume_one_def bindE_def attempt_def ret_def Let_def)
    next
      case (Inr u)
      obtain r3 where k: "commit_offset s2 = (r3, tock s2)" using commit_offset_cases by (cases "commit_offset s2") auto
      have "accounted ?msg s (tock s2)"
        using Dispatch_accounted [of p ?msg "tock s" u s2] h Inr by (auto simp: accounted_def dead_lettered_def recorded_def)
      with f 2 h Inr k assms show ?thesis
        by (cases r3) (auto simp: consume_one_counted_def consume_one_def bindE_def attempt_def ret_def Let_def)
    qed
  qed
qed

text \<open>A message nobody can decode: it is dead-lettered, and counted as consumed.\<close>

definition poisoned :: sys where
  "poisoned = shop0\<lparr>topic_products := [(''order:1'', Inr ''junk'')]\<rparr>"

theorem consume_commits_and_counts_witness:
  "\<exists>c' m' s'. consume_one_counted worker reader0 no_counts poisoned = (Inr (c', m'), s')
     \<and> length (topic_dlq s') = 1 \<and> EventsDeadLettered m' = 0 \<and> EventsConsumed m' ([], ''worker'') = 1"
proof -
  have start: "position reader0 = 0" "topic_dlq poisoned = []" "EventsConsumed no_counts = (\<lambda>_. 0)"
    "EventsDeadLettered no_counts = 0" "acks_kept poisoned"
    by (simp_all add: reader0_def poisoned_def shop0_def no_counts_def acks_kept_def quiet_def)
  have run: "length (topic_dlq (snd (consume_one_counted worker reader0 no_counts poisoned))) = 1" by code_simp
  have type: "e_Type (msg_Event (Fetch (topic_products poisoned ! 0))) = []" by code_simp
  from consume_commits_and_counts [of worker reader0 no_counts poisoned
      "fst (consume_one_counted worker reader0 no_counts poisoned)"
      "snd (consume_one_counted worker reader0 no_counts poisoned)"] run start type
  show ?thesis by (cases "consume_one_counted worker reader0 no_counts poisoned")
    (auto simp: inc_consumed_def)
qed

end
