(* ===== verification/Spec2Isabelle.thy ===== *)
theory Spec2Isabelle
  imports Notify Requests Order_Idempotency Hold_Expiry Pagination Product_Cache Sessions Relay_Drain Production Isolation Notify_Delivery Deployment Order_Progress Metering
begin

text \<open>
  Verification of go-commerce: a small shop with an HTTP API (\<open>src/cmd/api\<close>) and a worker
  (\<open>src/cmd/worker\<close>), in Go, on PostgreSQL, Redis, Kafka, MongoDB and Typesense.

  \<^bold>\<open>The program.\<close>  The API serves \<open>/api/v1\<close>: authentication, products, wishlists, orders and,
  outside production, an operator lab.  Placing an order takes its stock, writes the order, its
  lines, its reservations, the ledger and an event of the outbox in one transaction; cancelling,
  paying, fulfilling and the expiry of holds move the order along its state machine in the same
  way.  The relay publishes the rows of the outbox to Kafka.  The worker consumes the topic: it
  audits every event to MongoDB, charges new orders and settles reservations.  The product
  service keeps a cache in Redis and announces changes to Kafka and Typesense in background
  goroutines.

  \<^bold>\<open>The model.\<close>  An operation of the code is a function of the state \<open>sys\<close> (theory \<open>Store\<close>) to an
  error or a result and the next state (\<open>'a io\<close>, theory \<open>Prelude\<close>).  The state holds the tables
  (\<open>db\<close>), the sequences of their keys, the topics, the audit collection, Redis, the queue of
  background jobs, the pause flag of the relay and a tick that counts interactions; \<open>env\<close> says for
  each tick whether the interaction fails, what the clock shows, which UUID is drawn and
  whether the reply to a commit is lost.  So a statement for all environments is one for all
  failures at all places.  A transaction restores the tables when its body fails.

  \<^bold>\<open>Theories and sources.\<close>
  \<^item> \<open>Prelude\<close> (the operations on \<open>io\<close>, rules for their results), \<open>GoStd\<close> (strings, \<open>strconv\<close>),
    \<open>Float64\<close> (the numbers of prices), \<open>Json\<close> (\<open>encoding/json\<close>).
  \<^item> \<open>Domain\<close>: \<open>internal/domain\<close>; \<open>Models\<close>: the \<open>model.go\<close> files; \<open>Store\<close>: the state.
  \<^item> \<open>Ledger\<close>, \<open>Inbox\<close>, \<open>Outbox\<close>, \<open>Kafka\<close>, \<open>Redis\<close>, \<open>Typesense\<close>: \<open>internal/platform\<close>.
  \<^item> \<open>Order_Repo\<close>: \<open>internal/http/order/repository.go\<close>; \<open>Order_Schema\<close> and \<open>Order_Spec\<close>: its
    operations keep the constraints of the tables, and what each does to the tables.
  \<^item> \<open>Payment_Worker\<close>, \<open>Inventory_Worker\<close>, \<open>Audit_Worker\<close>, \<open>Dispatch\<close>: \<open>internal/worker\<close> and the
    consume loop of \<open>cmd/worker/main.go\<close>.
  \<^item> \<open>Commerce_Inv\<close>: the invariants of orders, stock, reservations, payments and events, and that
    every transaction keeps them; \<open>System\<close>: the step relations \<open>trade\<close> and \<open>shop_step\<close>, the
    reachable states and the invariants of the whole system.
  \<^item> \<open>Http\<close>, \<open>Middleware\<close>, \<open>Config\<close>, \<open>Health\<close>, \<open>Notify\<close>: \<open>pkg/response\<close>, \<open>internal/http/middleware\<close>,
    \<open>internal/config\<close>, \<open>internal/http/health\<close>, \<open>internal/http/notify\<close>.
  \<^item> \<open>Product_Service\<close>, \<open>Product_Handler\<close>, \<open>Order_Service\<close> (with \<open>Sha256\<close>, the hash of a request),
    \<open>Auth_Service\<close>, \<open>Wishlist\<close>, \<open>Lab\<close>, \<open>Lab_Handler\<close>: the services and handlers of
    \<open>internal/http\<close>; \<open>Server\<close>: \<open>server.go\<close> and the \<open>RegisterRoutes\<close>.
  \<^item> \<open>Platform\<close>: how the processes connect to the stores and prepare them (\<open>internal/platform\<close>);
    \<open>Wiring\<close>: what \<open>cmd/api/main.go\<close> and \<open>cmd/worker/main.go\<close> construct, start and stop;
    \<open>Deployment\<close>: any number of API processes and a worker side by side.
  \<^item> \<open>Must\<close>: rules for what succeeds without faults, the total counterpart of \<open>db_wp\<close>.
  \<^item> \<open>Metering\<close>: \<open>internal/metrics\<close>, the loops of the relay, the worker, the notifier and the product
    events with their counters, each shown to behave as the one without.
  \<^item> \<open>Runs\<close>, \<open>Api\<close>, \<open>Api_Server\<close>: every handler, and so every request, only makes steps of the
    system; \<open>Replies\<close>: every handler replies and every request is observed; \<open>Demo\<close>: the states
    the witnesses run on.
  \<^item> Properties: this theory (C1 to C7, C9, C10, C13, C14, C17, C19, C21, the commerce core),
    \<open>Order_Accept\<close> (C8), \<open>Order_Progress\<close> (C11), \<open>Charge_Live\<close> (C12), \<open>Metering\<close> (C18, C20), \<open>Isolation\<close> (C15),
    \<open>Notify_Delivery\<close> (C16, C27), \<open>Deployment\<close> (C22), \<open>Requests\<close> (C23 to C25, the API as a
    whole), \<open>Order_Idempotency\<close> (C26, C28), \<open>Hold_Expiry\<close> (C29), \<open>Pagination\<close> (C30),
    \<open>Product_Cache\<close> (C31 to C33), \<open>Sessions\<close> (C34 to C36), \<open>Production\<close> (C37, C39, C40),
    \<open>Relay_Drain\<close> (C38).

  \<^bold>\<open>Interfaces.\<close>  The locale \<open>kv_store\<close> is what the clients of Redis rely on, \<open>publisher\<close> and
  \<open>live_publisher\<close> what the relay relies on, \<open>dedupe\<close> what the consumers rely on, \<open>step_closed\<close> a relation of states that is closed
  under composition and steps without effect; each is interpreted on the definitions of the
  code (\<open>redis_get\<close> and its siblings, \<open>Publish\<close>, \<open>Claim\<close>, the relations of \<open>System\<close>), and the relay and the
  handlers are verified in them once.

  \<^bold>\<open>Bounds and fuel.\<close>  Identifiers are 64-bit words and the sequences stop below \<open>2 ^ 63\<close>; stock and
  quantities are checked against the 32-bit columns; prices are IEEE doubles (\<open>Float64\<close>), exact up
  to \<open>2 ^ 53\<close>.  \<open>duration_parts\<close> has the length of its input as fuel (\<open>duration_parts_fuel\<close>); the
  walk over the pages of the catalogue takes at most one step per product (C30), the relay at
  most one cycle per 50 rows (C38).  Every other recursion is structural or has a measure.

  The theorems of progress (C8, C11, C12) need that no sequence is about to end (\<open>room\<close>), that the
  sequences are ahead of the keys in use (\<open>ahead\<close>) and that UUIDs drawn from now on are new
  (\<open>fresh_uuids\<close>).

  \<^bold>\<open>Parameters.\<close>  Code outside the repository is an argument with named hypotheses: the JWT
  library (\<open>jwt_ok\<close>), bcrypt (\<open>bcrypt_ok\<close>), the limiter, the search server, the classes of
  strings of the validator library, the CORS and WebSocket libraries, the calls of the drivers
  (\<open>infra_ok\<close>: they leave the tables, the topics and the audit collection alone); \<open>Sessions\<close>
  gives a JWT library that meets its hypothesis, \<open>Deployment\<close> drivers that meet theirs.

  \<^bold>\<open>Not modelled.\<close>  The container (fx) that calls the constructors, the SQL of the migrations (the
  tables have their constraints), the time limits of single calls and the recovery from panics
  (no handler of the model panics).  The route matching of gin (the matched pattern is part of
  the request).  Transactions of different requests
  are taken in some serial order, which the row locks of the code enforce for one order and
  one product; operations made of several transactions interleave freely in \<open>System\<close>, and
  \<open>Product_Cache\<close> interleaves the unlocked update of a product.  JSONB normalises payloads and
  UUID columns check their format; both are left out.
\<close>

section \<open>The commerce core\<close>

text \<open>C1. Whatever is ordered, paid, cancelled, expired, fulfilled, relayed, delivered (any
  number of times, in any order) and edited in the catalogue, and whatever fails meanwhile, the
  invariants of the system hold in every reachable state: distinct keys and resolving
  references, no negative stock, reservations that agree with the status of their order and
  mirror its items, a ledger that nets to what is reserved, one succeeded payment per paid
  order, totals that are the sum of the lines, events that tell the truth; nothing is marked
  published that is not on the topic; no event is audited twice.\<close>

theorem reachable_system_inv: "reachable s0 s \<Longrightarrow> system_inv s0 \<Longrightarrow> system_inv s"
  by (rule reachable_inv)

theorem reachable_system_inv_witness: "system_inv shop3 \<and> length (payments (db shop3)) = 1"
proof
  show "system_inv shop3"
    by (rule reachable_system_inv [OF trades_reachable [OF shop3_run] shop0_inv])
  show "length (payments (db shop3)) = 1" by code_simp
qed

text \<open>C2. Conservation: as long as nobody edits the catalogue, the stock of a product plus what
  orders hold or have taken of it never changes.\<close>

theorem supply_conserved:
  assumes "trades s0 s" and "system_inv s0"
  shows "stock_of pid (db s) + taken pid (reservations (db s))
       = stock_of pid (db s0) + taken pid (reservations (db s0))"
  by (rule trades_supply [OF assms])

theorem supply_conserved_witness:
  "stock_of 1 (db shop3) + taken 1 (reservations (db shop3)) = 5 \<and> stock_of 1 (db shop3) = 3"
proof
  have "stock_of 1 (db shop0) + taken 1 (reservations (db shop0)) = 5"
    by (simp add: shop0_def db0_def kopi_def stock_of_def taken_def)
  with supply_conserved [OF shop3_run shop0_inv, of 1]
  show "stock_of 1 (db shop3) + taken 1 (reservations (db shop3)) = 5" by simp
  show "stock_of 1 (db shop3) = 3" by code_simp
qed

text \<open>C3. In every reachable state an order that waits for payment holds exactly its items,
  line by line, and any other order holds nothing.\<close>

theorem orders_hold_their_items:
  assumes "reachable s0 s" and "system_inv s0" and "order \<in> set (orders (db s))"
  shows "held_pairs (o_ID order) (reservations (db s))
       = (if o_Status order = OrderPendingPayment
          then map (\<lambda>i. (oi_ProductID i, oi_Qty i))
                 (filter (\<lambda>i. oi_OrderID i = o_ID order) (order_items (db s)))
          else [])"
proof -
  have "shop_inv (db s)" using reachable_inv [OF assms(1,2)] by (simp add: system_inv_def)
  then show ?thesis
    using pending_holds_items [OF _ assms(3)] closed_holds_nothing [OF _ assms(3)] by simp
qed

theorem orders_hold_their_items_witness:
  "list_all (\<lambda>order. held_pairs (o_ID order) (reservations (db shop1)) = [(1, 2)]) (orders (db shop1))"
  unfolding list_all_iff
proof
  fix order assume o': "order \<in> set (orders (db shop1))"
  have "list_all (\<lambda>o'. o_Status o' = OrderPendingPayment \<and> o_ID o' = 1) (orders (db shop1))" by code_simp
  moreover have "map (\<lambda>i. (oi_ProductID i, oi_Qty i)) (filter (\<lambda>i. oi_OrderID i = 1) (order_items (db shop1)))
      = [(1, 2)]" by code_simp
  ultimately show "held_pairs (o_ID order) (reservations (db shop1)) = [(1, 2)]"
    using orders_hold_their_items [OF trades_reachable [OF shop1_run] shop0_inv o'] o'
    by (simp add: list_all_iff)
qed

text \<open>C4. In every reachable state a paid or fulfilled order has exactly one succeeded payment,
  any other order has none, and every payment of an order is of the order's total.\<close>

theorem paid_exactly_once:
  assumes "reachable s0 s" and "system_inv s0" and "order \<in> set (orders (db s))"
  shows "length (succeeded (o_ID order) (payments (db s)))
           = (if o_Status order \<in> {OrderPaid, OrderFulfilled} then 1 else 0)
       \<and> (\<forall>p\<in>set (payments (db s)). pay_OrderID p = o_ID order \<longrightarrow> pay_Amount p = o_Total order)"
  using reachable_inv [OF assms(1,2)] assms(3)
  by (auto simp: system_inv_def shop_inv_def pay_inv_def is_paid_def)

theorem paid_exactly_once_witness:
  "list_all (\<lambda>order. length (succeeded (o_ID order) (payments (db shop3))) = 1) (orders (db shop3))"
  unfolding list_all_iff
proof
  fix order assume o': "order \<in> set (orders (db shop3))"
  have "list_all (\<lambda>o'. o_Status o' = OrderPaid) (orders (db shop3))" by code_simp
  with paid_exactly_once [OF trades_reachable [OF shop3_run] shop0_inv o'] o'
  show "length (succeeded (o_ID order) (payments (db shop3))) = 1" by (simp add: list_all_iff)
qed

text \<open>C5. The total of an order is the float sum of its lines, as the code adds them; where the
  prices are whole numbers and the sum is at most \<open>2 ^ 53\<close>, it is exact.\<close>

theorem order_total_exact:
  assumes "reachable s0 s" and "system_inv s0" and "order \<in> set (orders (db s))"
    and "list_all2 integral_line
           (map item_line (filter (\<lambda>i. oi_OrderID i = o_ID order) (order_items (db s)))) ps"
    and "sum_list (map2 (\<lambda>l p. p * ln_qty l)
           (map item_line (filter (\<lambda>i. oi_OrderID i = o_ID order) (order_items (db s)))) ps) \<le> 2 ^ 53"
  shows "o_Total order = f64_of_int (sum_list (map2 (\<lambda>l p. p * ln_qty l)
           (map item_line (filter (\<lambda>i. oi_OrderID i = o_ID order) (order_items (db s)))) ps))"
proof -
  have "o_Total order = items_total (o_ID order) (order_items (db s))"
    using reachable_inv [OF assms(1,2)] assms(3)
    by (simp add: system_inv_def shop_inv_def total_inv_def)
  then show ?thesis unfolding items_total_def using line_total_exact [OF assms(4,5)] by simp
qed

theorem order_total_exact_witness:
  "list_all (\<lambda>order. o_Total order = f64_of_int 56000) (orders (db shop1))"
  unfolding list_all_iff
proof
  fix order assume o': "order \<in> set (orders (db shop1))"
  have "list_all (\<lambda>o'. o_ID o' = 1) (orders (db shop1))" by code_simp
  with o' have id: "o_ID order = 1" by (simp add: list_all_iff)
  have ls: "map item_line (filter (\<lambda>i. oi_OrderID i = 1) (order_items (db shop1)))
      = [\<lparr>ln_productID = 1, ln_qty = 2, ln_price = f64_of_int 28000\<rparr>]" by code_simp
  show "o_Total order = f64_of_int 56000"
    using order_total_exact [OF trades_reachable [OF shop1_run] shop0_inv o', of "[28000]"]
    by (simp add: id ls integral_line_def exact_def)
qed



section \<open>The operations on orders\<close>

text \<open>C7. Placing an order is atomic under any faults: either the tables are as before and an
  error is reported, or the order was created (its stock held, with its items, reservations,
  ledger rows and event) and the order is returned, unless the acknowledgement of the commit
  was lost.\<close>

theorem CreateOrder_atomic:
  assumes "keys_ok (db s)" and "CreateOrder userID items s = (r, s')"
  shows "(\<exists>o'. created userID items o' (db s) (db s') \<and> (r = Inr o' \<or> (\<exists>e. r = Inl e)))
       \<or> db s' = db s \<and> (\<exists>e. r = Inl e)"
proof -
  have "db_wp (CreateOrder_tx userID items) (\<lambda>o' d'. created userID items o' (db s) d') (db s)"
    by (rule CreateOrder_rule [OF assms(1)])
  with transaction_atomic [OF assms(2) [unfolded CreateOrder_def]] show ?thesis
    by (auto simp: db_wp_def)
qed

theorem CreateOrder_atomic_witness:
  "\<exists>o'. created 1 basket o' (db shop0) (db shop1) \<and> fst (CreateOrder 1 basket shop0) = Inr o'"
proof -
  have "keys_ok (db shop0)" using shop0_inv by (simp add: system_inv_def inv_keys)
  moreover have "CreateOrder 1 basket shop0 = (fst (CreateOrder 1 basket shop0), shop1)"
    by (simp add: shop1_def)
  moreover have "length (orders (db shop1)) = 1" "orders (db shop0) = []" by code_simp+
  moreover have "\<exists>o'. fst (CreateOrder 1 basket shop0) = Inr o'"
  proof -
    have "(case fst (CreateOrder 1 basket shop0) of Inl _ \<Rightarrow> False | Inr _ \<Rightarrow> True)" by code_simp
    then show ?thesis by (auto split: sum.splits)
  qed
  ultimately show ?thesis
    using CreateOrder_atomic [of shop0 1 basket "fst (CreateOrder 1 basket shop0)" shop1] by auto
qed

text \<open>Asking for more than is in stock is refused with a conflict, and nothing changes.\<close>

theorem CreateOrder_insufficient:
  assumes "no_faults (env s)" and "distinct (map p_ID (products (db s)))" and "p \<in> set (products (db s))"
    and "p_ID p = ci_ProductID it" and "p_ID p \<noteq> 0" and "p_DeletedAt p = None"
    and "p_Stock p < ci_Qty it" and "0 < ci_Qty it" and "is_int4 (ci_Qty it)"
  shows "\<exists>s'. CreateOrder userID (it # its) s
       = (Inl (wrap ErrConflict (''insufficient stock for product '' @ show_uint (ci_ProductID it))), s')
     \<and> db s' = db s"
proof -
  let ?sel = "\<lambda>q. p_ID q = ci_ProductID it \<and> p_DeletedAt q = None \<and> ci_Qty it \<le> p_Stock q"
  have "List.find (\<lambda>q. p_ID q = ci_ProductID it \<and> p_DeletedAt q = None) ps = Some p"
    if "distinct (map p_ID ps)" "p \<in> set ps" for ps
    using that assms(4,6) by (induction ps) (auto simp: image_iff)
  then have find: "List.find (\<lambda>q. p_ID q = ci_ProductID it \<and> p_DeletedAt q = None) (products (db s)) = Some p"
    using assms(2,3) by blast
  have none: "\<not> ?sel q" if "q \<in> set (products (db s))" for q
    using that assms(2-4,7) by (auto dest: key_unique [of p_ID _ p q])
  have "filter ?sel (products (db s)) = []" using none by (simp add: filter_empty_conv)
  then show ?thesis
    using assms find
    by (simp add: CreateOrder_def transaction_def CreateOrder_tx_def bindE_def take_product_def
        interact_defs hold_stock_def throw_def Let_def)
qed

theorem CreateOrder_insufficient_witness:
  "\<exists>s'. CreateOrder 1 [\<lparr>ci_ProductID = 1, ci_Qty = 9\<rparr>] shop0
       = (Inl (wrap ErrConflict (''insufficient stock for product '' @ show_uint 1)), s')
     \<and> db s' = db shop0"
  using CreateOrder_insufficient [of shop0 kopi "\<lparr>ci_ProductID = 1, ci_Qty = 9\<rparr>" 1 "[]"]
  by (simp add: shop0_def quiet_def no_faults_def db0_def kopi_def is_int4_def)

text \<open>C9. Cancelling is atomic, only for the owner, and only along the state machine: the order
  becomes cancelled and everything it held returns to stock.\<close>

theorem Cancel_atomic:
  assumes "keys_ok (db s)" and "Cancel userID oid s = (r, s')"
  shows "(\<exists>order t. order \<in> set (orders (db s)) \<and> o_ID order = oid \<and> o_UserID order = userID
            \<and> transitioned (released oid) oid OrderCancelled EventOrderCancelled [] (db s) (db s')
            \<and> (r = Inr (advance OrderCancelled t order) \<or> (\<exists>e. r = Inl e)))
       \<or> db s' = db s \<and> (\<exists>e. r = Inl e)"
proof -
  let ?P = "\<lambda>o'. o_ID o' = oid \<and> o_UserID o' = userID"
  have "db_wp (cancelLocked_tx (first_order ?P)) (\<lambda>o' d'. \<exists>order t. order \<in> set (orders (db s)) \<and> ?P order
      \<and> transitioned (released oid) oid OrderCancelled EventOrderCancelled [] (db s) d'
      \<and> o' = advance OrderCancelled t order) (db s)"
    by (rule cancelLocked_rule [OF assms(1)]) blast
  with transaction_atomic [OF assms(2) [unfolded Cancel_def cancelLocked_def]] show ?thesis
    by (fastforce simp: db_wp_def)
qed

theorem Cancel_atomic_witness:
  "map o_Status (orders (db (snd (Cancel 1 1 shop1)))) = [OrderCancelled]
   \<and> transitioned (released 1) 1 OrderCancelled EventOrderCancelled [] (db shop1) (db (snd (Cancel 1 1 shop1)))"
proof -
  have "keys_ok (db shop1)" using trades_inv [OF shop1_run shop0_inv] by (simp add: system_inv_def inv_keys)
  moreover have "map o_Status (orders (db (snd (Cancel 1 1 shop1)))) = [OrderCancelled]"
    "map o_Status (orders (db shop1)) = [OrderPendingPayment]" by code_simp+
  ultimately show ?thesis
    using Cancel_atomic [of shop1 1 1 "fst (Cancel 1 1 shop1)" "snd (Cancel 1 1 shop1)"] by auto
qed



text \<open>Fulfilling is atomic and needs a paid order: the order becomes fulfilled, nothing
  else but its event changes.\<close>

theorem Fulfill_atomic:
  assumes "keys_ok (db s)" and "Fulfill oid s = (r, s')"
  shows "(\<exists>order t. order \<in> set (orders (db s)) \<and> o_ID order = oid \<and> o_Status order = OrderPaid
            \<and> transitioned (=) oid OrderFulfilled EventOrderFulfilled [] (db s) (db s')
            \<and> (r = Inr (advance OrderFulfilled t order) \<or> (\<exists>e. r = Inl e)))
       \<or> db s' = db s \<and> (\<exists>e. r = Inl e)"
proof -
  have "db_wp (Fulfill_tx oid) (\<lambda>o' d'. \<exists>order t. order \<in> set (orders (db s)) \<and> o_ID order = oid
      \<and> o_Status order = OrderPaid
      \<and> transitioned (=) oid OrderFulfilled EventOrderFulfilled [] (db s) d'
      \<and> o' = advance OrderFulfilled t order) (db s)"
  proof (rule Fulfill_rule [OF assms(1)], goal_cases)
    case (1 order t d')
    then obtain o' where "o' \<in> set (orders (db s))" "o_ID o' = oid" "CanTransition (o_Status o') OrderFulfilled"
      by (auto simp: transitioned_def)
    moreover from this have "o' = order"
      using 1 assms(1) by (auto simp: keys_ok_def dest: key_unique [of o_ID _ o' order])
    ultimately show ?case using 1 by (auto simp: CanTransition_iff)
  qed
  with transaction_atomic [OF assms(2) [unfolded Fulfill_def]] show ?thesis
    by (fastforce simp: db_wp_def)
qed

theorem Fulfill_atomic_witness:
  "map o_Status (orders (db (snd (Fulfill 1 shop3)))) = [OrderFulfilled]
   \<and> transitioned (=) 1 OrderFulfilled EventOrderFulfilled [] (db shop3) (db (snd (Fulfill 1 shop3)))"
proof -
  have "keys_ok (db shop3)" using trades_inv [OF shop3_run shop0_inv] by (simp add: system_inv_def inv_keys)
  moreover have "map o_Status (orders (db (snd (Fulfill 1 shop3)))) = [OrderFulfilled]"
    "map o_Status (orders (db shop3)) = [OrderPaid]" by code_simp+
  ultimately show ?thesis
    using Fulfill_atomic [of shop3 1 "fst (Fulfill 1 shop3)" "snd (Fulfill 1 shop3)"] by auto
qed

text \<open>C13. The inventory worker never undoes what the order's own transaction did: delivered
  any event of the topic, in any state and any number of times, it changes no stock, order,
  reservation, ledger row, payment or event.\<close>

theorem inventory_never_disturbs:
  assumes "reachable s0 s" and "system_inv s0" and "small_ids s" and "w \<in> set (topic_products s)"
    and "Inventory_Handle c (Fetch w) s = (r, s')"
  shows "untouched (db s) (db s')"
  using inventory_step [OF reachable_inv [OF assms(1,2)] assms(3-5)] by simp

theorem inventory_never_disturbs_witness:
  "untouched (db shop4) (db (snd (Inventory_Handle True (Fetch (topic_products shop4 ! 1)) shop4)))
   \<and> e_Type (msg_Event (Fetch (topic_products shop4 ! 1))) = EventOrderPaid"
proof
  show "e_Type (msg_Event (Fetch (topic_products shop4 ! 1))) = EventOrderPaid" by code_simp
  have l: "length (topic_products shop4) = 2" "list_all (\<lambda>o'. o_ID o' = 1) (orders (db shop4))"
    by code_simp+
  show "untouched (db shop4) (db (snd (Inventory_Handle True (Fetch (topic_products shop4 ! 1)) shop4)))"
    by (rule inventory_never_disturbs [OF trades_reachable [OF shop4_run] shop0_inv _ _ prod.collapse [symmetric]])
      (use l in \<open>auto simp: small_ids_def list_all_iff\<close>)
qed

section \<open>Events\<close>

text \<open>C14. Nothing is marked as published that is not on the topic: in every reachable state
  each row of the outbox with a publication time has its message on the topic.\<close>

theorem published_is_on_topic:
  assumes "reachable s0 s" and "system_inv s0" and "row \<in> set (outbox_events (db s))"
    and "ev_PublishedAt row \<noteq> None"
  shows "\<exists>w. kafka.row_wire row = Some w \<and> w \<in> set (topic_products s)"
  using reachable_inv [OF assms(1,2)] assms(3,4)
  by (auto simp: system_inv_def kafka.relay_inv_def unpublished_def)

theorem published_is_on_topic_witness:
  "list_all (\<lambda>row. \<exists>w. kafka.row_wire row = Some w \<and> w \<in> set (topic_products shop2)) (outbox_events (db shop2))"
  unfolding list_all_iff
proof
  fix row assume row: "row \<in> set (outbox_events (db shop2))"
  have "list_all (\<lambda>r. ev_PublishedAt r \<noteq> None) (outbox_events (db shop2))" by code_simp
  with row published_is_on_topic [OF trades_reachable [OF shop2_run] shop0_inv row]
  show "\<exists>w. kafka.row_wire row = Some w \<and> w \<in> set (topic_products shop2)"
    by (simp add: list_all_iff)
qed

text \<open>Without faults one cycle of the relay publishes its batch (the up to 50 oldest
  unpublished rows), in order, and marks all of it.\<close>

theorem relay_drains_batch:
  assumes "no_faults (env s)" and "outbox_ok (db s)"
    and "list_all2 (\<lambda>r m. kafka.row_wire r = Some m) (select_batch (db s)) ms"
  shows "\<exists>s'. RelayOnce Publish s = (Inr (length (select_batch (db s)), None), s')
     \<and> topic_products s' = topic_products s @ ms
     \<and> (\<forall>r\<in>set (outbox_events (db s')). ev_PublishedAt r = None
          \<longrightarrow> r \<in> set (outbox_events (db s)) \<and> ev_ID r \<notin> ev_ID ` set (select_batch (db s)))"
proof -
  obtain s' where run: "RelayOnce Publish s = (Inr (length (select_batch (db s)), None), s')"
    and told: "kafka.drained (select_batch (db s)) ms s s'"
    using kafka.RelayOnce_live [OF assms]
    by (cases "RelayOnce Publish s"; cases "fst (RelayOnce Publish s)") (auto simp: wp_def)
  have "topic_products s' = topic_products s @ ms" using told by (simp add: kafka.drained_def)
  with run kafka.drainedD [OF told] show ?thesis by (auto simp: unpublished_def)
qed

theorem relay_drains_batch_witness:
  "\<exists>w s'. RelayOnce Publish shop1 = (Inr (1, None), s') \<and> topic_products s' = [w]
     \<and> list_all (\<lambda>r. ev_PublishedAt r \<noteq> None) (outbox_events (db s'))"
proof -
  have "outside shop1 = outside shop0"
    unfolding shop1_def
    by (rule sql_only_run [OF sql_only_operations(1)]) (rule prod.collapse [symmetric])
  then have ne: "no_faults (env shop1)"
    by (simp add: outside_def shop0_def quiet_def no_faults_def)
  have ok: "outbox_ok (db shop1)"
    using trades_inv [OF shop1_run shop0_inv] by (simp add: system_inv_def shop_inv_def schema_defs)
  have one: "length (select_batch (db shop1)) = 1" "topic_products shop1 = []"
    "map (\<lambda>r. case unmarshal_map (Inl (ev_Payload r)) of None \<Rightarrow> None
        | Some p \<Rightarrow> event_wire (row_key r) (row_event r p)) (select_batch (db shop1))
     = [Some (topic_products shop2 ! 0)]"
    "list_all (\<lambda>r. ev_PublishedAt r \<noteq> None) (outbox_events (db shop2))" by code_simp+
  from one(1,3) have "list_all2 (\<lambda>r m. kafka.row_wire r = Some m) (select_batch (db shop1)) [topic_products shop2 ! 0]"
    by (cases "select_batch (db shop1)") (auto simp: kafka.row_wire_def)
  from relay_drains_batch [OF ne ok this] one show ?thesis
    by (fastforce simp: shop2_def)
qed

text \<open>No event is lost silently: when the worker has handled a message without an error,
  the event is in the audit collection or on the dead-letter topic.\<close>

theorem handled_is_accounted:
  assumes "Dispatch_Handle p (Fetch w) s = (Inr u, s')"
  shows "(\<exists>a\<in>set (mongo s'). au_EventID a = e_ID (msg_Event (Fetch w)))
       \<or> (\<exists>dl. topic_dlq s' = topic_dlq s @ [dl] \<and> dl_rawMessage dl = snd w)"
  using Dispatch_accounted [OF assms]
  by (auto simp: accounted_def recorded_def dead_lettered_def Fetch_def)

theorem handled_is_accounted_witness:
  "0 < length (mongo shop3) + length (topic_dlq shop3)"
proof -
  have "case fst (Dispatch_Handle worker (Fetch (topic_products shop2 ! 0)) shop2) of Inl _ \<Rightarrow> False | Inr _ \<Rightarrow> True"
    by code_simp
  then have "Dispatch_Handle worker (Fetch (topic_products shop2 ! 0)) shop2 = (Inr (), shop3)"
    by (simp add: shop3_def prod_eq_iff split: sum.splits)
  from handled_is_accounted [OF this] show ?thesis by (auto simp: in_set_conv_nth)
qed

text \<open>C17. The identity of an order survives the outbox and the topic: for an id up to
  \<open>2 ^ 53\<close>, what a consumer decodes from the message of a row is the row's event id, type and
  order, although every number passes through a \<open>float64\<close> twice.\<close>

theorem order_id_survives:
  assumes "reachable s0 s" and "system_inv s0" and "row \<in> set (outbox_events (db s))"
    and "kafka.row_wire row = Some w" and "unat (ev_AggregateID row) \<le> 2 ^ 53"
  shows "e_ID (msg_Event (Fetch w)) = ev_EventID row \<and> e_Type (msg_Event (Fetch w)) = ev_EventType row
     \<and> asUint conv (lookup (e_Payload (msg_Event (Fetch w))) ''orderId'') = Some (ev_AggregateID row)"
proof -
  have "carries_order row"
    using reachable_inv [OF assms(1,2)] assms(3) by (simp add: system_inv_def shop_inv_def event_inv_def)
  with decoded_row [OF this assms(4,5)] show ?thesis by blast
qed

theorem order_id_survives_witness:
  "\<exists>w\<in>set (topic_products shop2). asUint (\<lambda>_. 0) (lookup (e_Payload (msg_Event (Fetch w))) ''orderId'') = Some 1"
proof -
  have "length (outbox_events (db shop2)) = 1"
    "list_all (\<lambda>r. ev_PublishedAt r \<noteq> None \<and> ev_AggregateID r = 1) (outbox_events (db shop2))" by code_simp+
  then obtain row where row: "row \<in> set (outbox_events (db shop2))" "ev_PublishedAt row \<noteq> None"
    "ev_AggregateID row = 1"
    by (cases "outbox_events (db shop2)") auto
  have inv: "kafka.relay_inv shop2" using trades_inv [OF shop2_run shop0_inv] by (simp add: system_inv_def)
  then obtain w where w: "kafka.row_wire row = Some w" "w \<in> set (topic_products shop2)"
    using row by (auto simp: kafka.relay_inv_def unpublished_def)
  have "asUint (\<lambda>_. 0) (lookup (e_Payload (msg_Event (Fetch w))) ''orderId'') = Some (ev_AggregateID row)"
    using order_id_survives [OF trades_reachable [OF shop2_run] shop0_inv row(1) w(1)] row(3) by simp
  with row w show ?thesis by auto
qed

text \<open>Every order's current status has been announced: the outbox holds the event of that
  status.\<close>

theorem status_announced:
  assumes "reachable s0 s" and "system_inv s0" and "order \<in> set (orders (db s))"
  shows "\<exists>row\<in>set (outbox_events (db s)). ev_AggregateID row = o_ID order
     \<and> ev_EventType row = event_of (o_Status order)"
  using reachable_inv [OF assms(1,2)] assms(3)
  by (simp add: system_inv_def shop_inv_def announced_def)

theorem status_announced_witness:
  "\<exists>row\<in>set (outbox_events (db shop3)). ev_AggregateID row = 1 \<and> ev_EventType row = EventOrderPaid"
proof -
  have "length (orders (db shop3)) = 1" "list_all (\<lambda>o'. o_ID o' = 1 \<and> o_Status o' = OrderPaid) (orders (db shop3))"
    by code_simp+
  then obtain order where "order \<in> set (orders (db shop3))" "o_ID order = 1" "o_Status order = OrderPaid"
    by (cases "orders (db shop3)") auto
  with status_announced [OF trades_reachable [OF shop3_run] shop0_inv, of order]
  show ?thesis by (simp add: event_of_def)
qed

lemma update_where_none: "(\<And>x. x \<in> set xs \<Longrightarrow> \<not> P x) \<Longrightarrow> update_where P f xs = xs"
  by (induction xs) (auto simp: update_where_def)

text \<open>The order \<open>oid\<close>, if it is paid at all, is paid without anything being taken from the stock
  or from what is reserved.\<close>

definition paid_for_nothing :: "uint \<Rightarrow> db \<Rightarrow> db \<Rightarrow> bool" where
  "paid_for_nothing oid d d' = (\<forall>o'\<in>set (orders d'). o_ID o' = oid \<longrightarrow> o_Status o' = OrderPaid
     \<longrightarrow> reservations d' = reservations d \<and> products d' = products d)"

definition failed_order :: "uint \<Rightarrow> db \<Rightarrow> bool" where
  "failed_order oid d = ((\<forall>o'\<in>set (orders d). o_ID o' = oid \<longrightarrow> o_Status o' = OrderPaymentFailed)
     \<and> (\<forall>r\<in>set (reservations d). rv_OrderID r = oid \<longrightarrow> rv_Status r = ReservationReleased))"

lemma failed_orderI:
  assumes "system_inv s" and "order \<in> set (orders (db s))" and "o_Status order = OrderPaymentFailed"
  shows "failed_order (o_ID order) (db s)"
proof -
  have inv: "fits_inv (orders (db s)) (reservations (db s))" "distinct (map o_ID (orders (db s)))"
    using assms(1) by (simp_all add: system_inv_def shop_inv_def schema_defs)
  have "o' = order" if "o' \<in> set (orders (db s))" "o_ID o' = o_ID order" for o'
    using key_unique [OF inv(2) that(1) assms(2)] that(2) by simp
  moreover have "rv_Status r = ReservationReleased"
    if "r \<in> set (reservations (db s))" "rv_OrderID r = o_ID order" for r
    using inv(1) assms(2,3) that by (auto simp: fits_inv_def fits_def)
  ultimately show ?thesis using assms(3) by (auto simp: failed_order_def)
qed

lemma failed_moves:
  assumes "failed_order oid d" and "transitioned S i st ev pays d d'"
    and "S = committed i \<and> st = OrderPaid \<or> st \<noteq> OrderPaid"
  shows "paid_for_nothing oid d d'"
proof (cases "i = oid \<and> st = OrderPaid")
  case True
  then have "update_where (held_of oid) f (reservations d) = reservations d" for f
    using assms(1) by (intro update_where_none) (auto simp: failed_order_def held_of_def)
  with assms True show ?thesis by (auto simp: paid_for_nothing_def transitioned_def committed_def)
next
  case False
  with assms have "o_Status o' \<noteq> OrderPaid" if "o' \<in> set (orders d')" "o_ID o' = oid" for o'
    using that by (auto simp: transitioned_def failed_order_def update_where_def split: if_splits)
  then show ?thesis by (auto simp: paid_for_nothing_def)
qed

lemma failed_stays: "failed_order oid d \<Longrightarrow> orders d' = orders d \<Longrightarrow> paid_for_nothing oid d d'"
  by (auto simp: paid_for_nothing_def failed_order_def)

lemma failed_Pay:
  assumes "keys_ok d" and "failed_order oid d"
  shows "db_wp (Pay_tx u i outcome key) (\<lambda>_. paid_for_nothing oid d) d"
  by (rule Pay_rule [OF assms(1)]) (auto intro: failed_stays failed_moves assms(2))

lemma failed_charge:
  assumes "keys_ok d" and "failed_order oid d"
  shows "db_wp (charge_tx event i) (\<lambda>_. paid_for_nothing oid d) d"
proof -
  have inbox: "failed_order oid (add_inbox r d)" for r
    using assms(2) by (simp add: failed_order_def add_inbox_def)
  have move: "paid_for_nothing oid d d'" if "paid_for_nothing oid (add_inbox r d) d'" for r d'
    using that by (simp add: paid_for_nothing_def add_inbox_def)
  show ?thesis
  proof (rule charge_rule [OF assms(1)], goal_cases)
    case (3 r order pay d')
    show ?case by (rule move, rule failed_moves [OF inbox 3(5)]) simp
  next
    case (4 r order pay d')
    show ?case by (rule move, rule failed_moves [OF inbox 4(5)]) simp
  qed (auto intro: failed_stays [OF assms(2)] simp: add_inbox_def)
qed

text \<open>C19. An order can be paid for stock that nobody holds: when an order whose payment failed
  becomes paid, by a retry with another key or by the worker's charge, nothing is taken for it:
  every reservation of it stays released, and the stock that went back on sale stays there.\<close>

theorem paid_without_stock:
  assumes "system_inv s" and "order \<in> set (orders (db s))" and "o_Status order = OrderPaymentFailed"
    and "Pay u i outcome key s = (r1, s') \<or> HandleOrderCreated msg s = (r2, s')"
    and "order' \<in> set (orders (db s'))" and "o_ID order' = o_ID order" and "o_Status order' = OrderPaid"
  shows "reservations (db s') = reservations (db s) \<and> products (db s') = products (db s)
    \<and> filter (\<lambda>r. rv_OrderID r = o_ID order \<and> rv_Status r \<noteq> ReservationReleased) (reservations (db s')) = []"
proof -
  have keys: "keys_ok (db s)" using assms(1) by (simp add: system_inv_def inv_keys)
  note failed = failed_orderI [OF assms(1-3)]
  have atomic: "paid_for_nothing (o_ID order) (db s) (db s')"
    if "transaction body s = (r, s')" "db_wp body (\<lambda>_. paid_for_nothing (o_ID order) (db s)) (db s)"
    for body :: "'a io" and r
    using transaction_atomic [OF that(1)] that(2) failed_stays [OF failed] by (auto simp: db_wp_def)
  have "paid_for_nothing (o_ID order) (db s) (db s')"
    using assms(4)
  proof
    assume "Pay u i outcome key s = (r1, s')"
    then show ?thesis by (intro atomic [OF _ failed_Pay [OF keys failed]]) (simp add: Pay_def)
  next
    assume "HandleOrderCreated msg s = (r2, s')"
    then show ?thesis
      using failed_stays [OF failed, of "db s'"] atomic [OF _ failed_charge [OF keys failed]]
      by (auto simp: HandleOrderCreated_unfold split: option.splits if_splits)
  qed
  with assms(5-7) failed show ?thesis
    by (auto simp: paid_for_nothing_def failed_order_def filter_empty_conv)
qed

theorem paid_without_stock_witness:
  "let s' = snd (HandleOrderCreated (Fetch (topic_products shop5 ! 0)) shop5) in
     map o_Status (orders (db shop5)) = [OrderPaymentFailed] \<and> map o_Status (orders (db s')) = [OrderPaid]
     \<and> filter (\<lambda>r. rv_OrderID r = 1 \<and> rv_Status r \<noteq> ReservationReleased) (reservations (db s')) = []
     \<and> stock_of 1 (db s') = 5"
proof -
  let ?msg = "Fetch (topic_products shop5 ! 0)"
  let ?s' = "snd (HandleOrderCreated ?msg shop5)"
  have st: "map o_Status (orders (db shop5)) = [OrderPaymentFailed]" "map o_ID (orders (db shop5)) = [1]"
    "map o_Status (orders (db ?s')) = [OrderPaid]" "map o_ID (orders (db ?s')) = [1]"
    "stock_of 1 (db ?s') = 5" by code_simp+
  then obtain order order' where o: "orders (db shop5) = [order]" "orders (db ?s') = [order']" by (auto simp: map_eq_Cons_conv)
  have inv: "system_inv shop5" using trades_inv [OF shop5_run shop0_inv] by simp
  from o st(1-4) have order: "order \<in> set (orders (db shop5))" "o_Status order = OrderPaymentFailed"
    and order': "order' \<in> set (orders (db ?s'))" "o_ID order' = o_ID order" "o_Status order' = OrderPaid"
    and id: "o_ID order = 1" by simp_all
  have run: "Pay 0 0 [] [] shop5 = (Inl (Other []), ?s') \<or> HandleOrderCreated ?msg shop5 = (fst (HandleOrderCreated ?msg shop5), ?s')"
    by simp
  from conjunct2 [OF conjunct2 [OF paid_without_stock [OF inv order run order']]] st(1,3,5)
  show ?thesis unfolding Let_def id by (intro conjI)
qed

text \<open>The consume loop commits only what was handled: an iteration that moves the committed
  offset moves it right behind the fetched message, and that message was accounted for.\<close>

theorem commit_after_handling:
  assumes "consume_one p c s = (r, s')"
  shows "\<exists>c'. r = Inr c' \<and> (committed_offset c' = committed_offset c
     \<or> committed_offset c' = position c + 1 \<and> position c' = position c + 1
       \<and> position c < length (topic_products s)
       \<and> accounted (Fetch (topic_products s ! position c)) s s')"
proof -
  note d = assms [unfolded consume_one_def attempt_def bindE_def Let_def ret_def fetch_def commit_offset_def interact_def]
  have acc: "accounted msg s s2" if "accounted msg (tock s) s1" "s2 = tock s1" for msg s1 s2
    using that by (auto simp: accounted_def dead_lettered_def recorded_def tock_def)
  show ?thesis
    using d by (auto split: option.splits sum.splits prod.splits if_splits dest!: Dispatch_accounted intro: acc)
qed

theorem commit_after_handling_witness:
  "\<exists>c' s'. consume_one worker reader0 shop2 = (Inr c', s') \<and> committed_offset c' = 1
     \<and> accounted (Fetch (topic_products shop2 ! 0)) shop2 s'"
proof -
  have c: "case fst (consume_one worker reader0 shop2) of Inr c \<Rightarrow> committed_offset c = 1 | Inl _ \<Rightarrow> False"
    by code_simp
  have "committed_offset reader0 = 0" "position reader0 = 0" by (simp_all add: reader0_def)
  with c commit_after_handling [of worker reader0 shop2 "fst (consume_one worker reader0 shop2)"
      "snd (consume_one worker reader0 shop2)"]
  show ?thesis by (cases "consume_one worker reader0 shop2") auto
qed

text \<open>C21. "Redelivered on failure" holds only until the next success: if the commerce handler
  fails on a message (its event is then neither in the audit collection nor dead-lettered) and
  the loop later commits anything, the committed offset is past the message, and no later
  iteration fetches it again, after any number of restarts.\<close>

theorem failed_message_skipped:
  assumes "position c < length (topic_products s)" and "fault (env s) (tick s) = None"
    and "e_ID (msg_Event (Fetch (topic_products s ! position c))) \<noteq> []"
    and "routeCommerce p (Fetch (topic_products s ! position c)) (tock s) = (Inl e, s1)"
    and "consume_one p c s = (Inr c1, s1')"
    and "looping p (c1, s1') (c2, s2)" and "committed_offset c2 \<noteq> committed_offset c"
    and "working p (c2, s2) (c3, s3)"
  shows "mongo s1' = mongo s \<and> topic_dlq s1' = topic_dlq s \<and> committed_offset c1 = committed_offset c
    \<and> position c < committed_offset c2 \<and> position c < position c3"
proof -
  have c1: "s1' = s1 \<and> position c1 = position c + 1 \<and> committed_offset c1 = committed_offset c"
    using assms(1-5)
    by (auto simp: consume_one_def attempt_def bindE_def Let_def ret_def fetch_def interact_def Dispatch_Handle_def)
  have "outside s1 = outside (tock s)" using route_outside [of p _ "tock s"] assms(4) by simp
  then have "mongo s1 = mongo s \<and> topic_dlq s1 = topic_dlq s" by (simp add: outside_def)
  moreover have "position c + 1 \<le> committed_offset c2" "position c + 1 \<le> position c2"
    using looping_past [OF assms(6)] c1 assms(7) by auto
  ultimately show ?thesis using working_past [OF assms(8)] c1 by fastforce
qed

theorem failed_message_skipped_witness:
  "\<exists>c1 s1 c2 s2. consume_one worker reader0 flaky = (Inr c1, s1) \<and> consume_one worker c1 s1 = (Inr c2, s2)
     \<and> length (topic_products s2) = 2 \<and> position (restart c2) = 2
     \<and> map o_Status (orders (db s2)) = [OrderPendingPayment, OrderPaid]
     \<and> length (mongo s2) = 1 \<and> topic_dlq s2 = [] \<and> mongo s1 = mongo flaky \<and> 0 < position (restart c2)"
proof -
  have run: "case consume_two flaky of
     (Inr c, s') \<Rightarrow> position (restart c) = 2 \<and> committed_offset c = 2 \<and> length (topic_products s') = 2
        \<and> map o_Status (orders (db s')) = [OrderPendingPayment, OrderPaid]
        \<and> length (mongo s') = 1 \<and> topic_dlq s' = []
   | _ \<Rightarrow> False" by code_simp
  have route: "e_ID (msg_Event (Fetch (topic_products flaky ! 0))) \<noteq> []"
    "case fst (routeCommerce worker (Fetch (topic_products flaky ! 0)) (tock flaky)) of Inl _ \<Rightarrow> True | Inr _ \<Rightarrow> False"
    "length (topic_products flaky) = 2" by code_simp+
  have fault: "fault (env flaky) (tick flaky) = None" "position reader0 = 0" "committed_offset reader0 = 0"
    by (simp_all add: flaky_def reader0_def quiet_def)
  obtain c1 s1 where one: "consume_one worker reader0 flaky = (Inr c1, s1)"
    using run by (auto simp: consume_two_def bindE_def split: prod.splits sum.splits)
  then obtain c2 s2 where two: "consume_one worker c1 s1 = (Inr c2, s2)"
    and both: "consume_two flaky = (Inr c2, s2)"
    using run by (auto simp: consume_two_def bindE_def split: prod.splits sum.splits)
  obtain e s0 where failed: "routeCommerce worker (Fetch (topic_products flaky ! 0)) (tock flaky) = (Inl e, s0)"
    using route(2) by (cases "routeCommerce worker (Fetch (topic_products flaky ! 0)) (tock flaky)") (auto split: sum.splits)
  have "looping worker (c1, s1) (c2, s2)" by (rule loop_again [OF loop_start two])
  moreover have "working worker (c2, s2) (restart c2, s2)" by (intro work_restarted work_start)
  ultimately show ?thesis
    using failed_message_skipped [of reader0 flaky worker e s0 c1 s1 c2 s2 "restart c2" s2] fault route(1,3)
      failed one two run both by auto
qed

end
